theory Spec2Isabelle
  imports Complex_Main
begin

section \<open>JavaScript numbers\<close>

text \<open>
  The helpers compute with JavaScript numbers. A number is modelled as a real, or one of
  the three non-finite values a division by zero, an overflow or a failed conversion
  produces. The operations of this section are exact on finite values; the sign of zero
  is not modelled, and a zero divisor is taken as positive zero. The colour conversion,
  whose results depend on the rounding of every product and sum, is computed with the
  rounded operations of the next section.
\<close>

datatype jsnum = Fin real | PInf | NInf | NaN

text \<open>Truthiness of a number: \<open>0\<close> and \<open>NaN\<close> are falsy.\<close>

fun truthy :: "jsnum \<Rightarrow> bool" where
  "truthy (Fin a) = (a \<noteq> 0)"
| "truthy NaN = False"
| "truthy PInf = True"
| "truthy NInf = True"

fun isNaN :: "jsnum \<Rightarrow> bool" where
  "isNaN NaN = True"
| "isNaN (Fin a) = False"
| "isNaN PInf = False"
| "isNaN NInf = False"

fun jneg :: "jsnum \<Rightarrow> jsnum" where
  "jneg (Fin a) = Fin (- a)"
| "jneg PInf = NInf"
| "jneg NInf = PInf"
| "jneg NaN = NaN"

text \<open>An infinity of the sign of \<open>a\<close>; \<open>NaN\<close> when \<open>a\<close> is zero.\<close>

definition inf_of_sign :: "real \<Rightarrow> jsnum" where
  "inf_of_sign a = (if 0 < a then PInf else if a < 0 then NInf else NaN)"

fun jmul :: "jsnum \<Rightarrow> jsnum \<Rightarrow> jsnum" where
  "jmul (Fin a) (Fin b) = Fin (a * b)"
| "jmul NaN y = NaN"
| "jmul x NaN = NaN"
| "jmul PInf (Fin b) = inf_of_sign b"
| "jmul NInf (Fin b) = inf_of_sign (- b)"
| "jmul (Fin a) PInf = inf_of_sign a"
| "jmul (Fin a) NInf = inf_of_sign (- a)"
| "jmul PInf PInf = PInf"
| "jmul PInf NInf = NInf"
| "jmul NInf PInf = NInf"
| "jmul NInf NInf = PInf"

fun jdiv :: "jsnum \<Rightarrow> jsnum \<Rightarrow> jsnum" where
  "jdiv (Fin a) (Fin b) = (if b = 0 then inf_of_sign a else Fin (a / b))"
| "jdiv NaN y = NaN"
| "jdiv x NaN = NaN"
| "jdiv (Fin a) PInf = Fin 0"
| "jdiv (Fin a) NInf = Fin 0"
| "jdiv PInf (Fin b) = (if 0 \<le> b then PInf else NInf)"
| "jdiv NInf (Fin b) = (if 0 \<le> b then NInf else PInf)"
| "jdiv PInf PInf = NaN"
| "jdiv PInf NInf = NaN"
| "jdiv NInf PInf = NaN"
| "jdiv NInf NInf = NaN"

fun jadd :: "jsnum \<Rightarrow> jsnum \<Rightarrow> jsnum" where
  "jadd (Fin a) (Fin b) = Fin (a + b)"
| "jadd NaN y = NaN"
| "jadd x NaN = NaN"
| "jadd PInf NInf = NaN"
| "jadd NInf PInf = NaN"
| "jadd PInf y = PInf"
| "jadd NInf y = NInf"
| "jadd (Fin a) PInf = PInf"
| "jadd (Fin a) NInf = NInf"

definition jsub :: "jsnum \<Rightarrow> jsnum \<Rightarrow> jsnum" where
  "jsub x y = jadd x (jneg y)"

text \<open>The comparison \<open>x < y\<close>: false whenever an operand is \<open>NaN\<close>.\<close>

fun jlt :: "jsnum \<Rightarrow> jsnum \<Rightarrow> bool" where
  "jlt (Fin a) (Fin b) = (a < b)"
| "jlt NaN y = False"
| "jlt x NaN = False"
| "jlt NInf NInf = False"
| "jlt NInf y = True"
| "jlt x PInf = (x \<noteq> PInf)"
| "jlt PInf y = False"
| "jlt (Fin a) NInf = False"

fun jfloor :: "jsnum \<Rightarrow> jsnum" where
  "jfloor (Fin a) = Fin (of_int \<lfloor>a\<rfloor>)"
| "jfloor x = x"

fun jsqrt :: "jsnum \<Rightarrow> jsnum" where
  "jsqrt (Fin a) = (if a < 0 then NaN else Fin (sqrt a))"
| "jsqrt PInf = PInf"
| "jsqrt NInf = NaN"
| "jsqrt NaN = NaN"

text \<open>\<open>Math.pow(x, 2)\<close>.\<close>

definition jpow2 :: "jsnum \<Rightarrow> jsnum" where
  "jpow2 x = jmul x x"

section \<open>Rounding to double precision\<close>

text \<open>
  A JavaScript number is a 64-bit binary floating point value: every decimal constant and
  every result of an operation is rounded to the nearest value of the form
  \<open>m * 2\<^sup>e\<close> with an integer \<open>m\<close> of at most 53 bits and \<open>e\<close> no less than \<open>-1074\<close>;
  of two values equally near, the one with the even \<open>m\<close> is taken.
\<close>

text \<open>The nearest integer, the even one on a tie.\<close>

definition round_even :: "real \<Rightarrow> int" where
  "round_even y =
    (if y - of_int \<lfloor>y\<rfloor> < 1 / 2 then \<lfloor>y\<rfloor>
     else if 1 / 2 < y - of_int \<lfloor>y\<rfloor> then \<lfloor>y\<rfloor> + 1
     else if even \<lfloor>y\<rfloor> then \<lfloor>y\<rfloor> else \<lfloor>y\<rfloor> + 1)"

text \<open>
  The exponent of the last bit of the double nearest to \<open>x\<close>: 52 below the exponent of
  \<open>x\<close>, which for the subnormal values is held at \<open>-1022\<close>.
\<close>

definition dbl_exp :: "real \<Rightarrow> int" where
  "dbl_exp x = max \<lfloor>log 2 \<bar>x\<bar>\<rfloor> (- 1022) - 52"

definition dbl_real :: "real \<Rightarrow> real" where
  "dbl_real x =
    (if x = 0 then 0
     else of_int (round_even (x / 2 powr of_int (dbl_exp x))) * 2 powr of_int (dbl_exp x))"

text \<open>The double nearest to a real: an infinity when the rounded value is out of range.\<close>

definition dbl :: "real \<Rightarrow> jsnum" where
  "dbl x = (if 2 ^ 1024 \<le> \<bar>dbl_real x\<bar> then inf_of_sign x else Fin (dbl_real x))"

text \<open>The product and the sum of two numbers, rounded.\<close>

fun dmul :: "jsnum \<Rightarrow> jsnum \<Rightarrow> jsnum" where
  "dmul (Fin a) (Fin b) = dbl (a * b)"
| "dmul x y = jmul x y"

fun dadd :: "jsnum \<Rightarrow> jsnum \<Rightarrow> jsnum" where
  "dadd (Fin a) (Fin b) = dbl (a + b)"
| "dadd x y = jadd x y"

section \<open>Duplication layout\<close>

record bounds =
  width :: jsnum
  height :: jsnum

record layout =
  scale :: jsnum
  positions :: "(jsnum \<times> jsnum) list"

text \<open>
  \<open>getDuplicationLayout(count, traceBounds, griddleBounds)\<close>. The \<open>switch\<close> has no
  default case: for any other count \<open>fillPercent\<close> stays undefined, which the later
  division turns into \<open>NaN\<close>, and the positions stay empty.
\<close>

definition getDuplicationLayout :: "int \<Rightarrow> bounds \<Rightarrow> bounds \<Rightarrow> layout" where
  "getDuplicationLayout count traceBounds griddleBounds =
    (let out = \<lparr>scale = Fin 1, positions = []\<rparr> in
     if \<not> truthy (width traceBounds) then out
     else
      let griddleAspect = jdiv (height griddleBounds) (width griddleBounds);
          traceAspect = jdiv (height traceBounds) (width traceBounds);
          landscape = jlt traceAspect griddleAspect;
          qw = jdiv (width griddleBounds) (Fin 4);
          qh = jdiv (height griddleBounds) (Fin 4);
          ew = jdiv qw (Fin 2);
          eh = jdiv qh (Fin 2);
          (fillPercent, ps) =
            (if count = 1 then
               (Fin 80, [(jmul qw (Fin 2), jmul qh (Fin 2))])
             else if count = 2 then
               (Fin 50,
                if landscape then
                  [(jmul qw (Fin 2), qh),
                   (jmul qw (Fin 2), jmul qh (Fin 3))]
                else
                  [(qw, jmul qh (Fin 2)),
                   (jmul qw (Fin 3), jmul qh (Fin 2))])
             else if count = 4 then
               (Fin 35,
                [(qw, qh),
                 (jmul qw (Fin 3), qh),
                 (qw, jmul qh (Fin 3)),
                 (jmul qw (Fin 3), jmul qh (Fin 3))])
             else if count = 8 then
               (Fin 25,
                if landscape then
                  [(qw, eh),
                   (jmul qw (Fin 3), eh),
                   (qw, jmul eh (Fin 3)),
                   (jmul qw (Fin 3), jmul eh (Fin 3)),
                   (qw, jmul eh (Fin 5)),
                   (jmul qw (Fin 3), jmul eh (Fin 5)),
                   (qw, jmul eh (Fin 7)),
                   (jmul qw (Fin 3), jmul eh (Fin 7))]
                else
                  [(ew, qh),
                   (jmul ew (Fin 3), qh),
                   (jmul ew (Fin 5), qh),
                   (jmul ew (Fin 7), qh),
                   (ew, jmul qh (Fin 3)),
                   (jmul ew (Fin 3), jmul qh (Fin 3)),
                   (jmul ew (Fin 5), jmul qh (Fin 3)),
                   (jmul ew (Fin 7), jmul qh (Fin 3))])
             else (NaN, []));
          fillPercent' = jdiv fillPercent (Fin 100);
          scale_x = jdiv (jmul (width griddleBounds) fillPercent') (width traceBounds);
          scale_y = jdiv (jmul (height griddleBounds) fillPercent') (height traceBounds)
      in \<lparr>scale = (if jlt scale_x scale_y then scale_x else scale_y), positions = ps\<rparr>)"

text \<open>
  The divisors of the divisions \<open>getDuplicationLayout\<close> evaluates, in program order:
  none before the guard on the trace width; after it the two aspects, the quarter
  measures, the eighth measures in the case of eight copies, the fill fraction and the
  two scales.
\<close>

definition layout_divisors :: "int \<Rightarrow> bounds \<Rightarrow> bounds \<Rightarrow> jsnum list" where
  "layout_divisors count traceBounds griddleBounds =
    (if \<not> truthy (width traceBounds) then []
     else [width griddleBounds, width traceBounds, Fin 4, Fin 4]
        @ (if count = 8 then [Fin 2, Fin 2] else [])
        @ [Fin 100, width traceBounds, height traceBounds])"

text \<open>
  The orientation test of the code, \<open>landscape = traceAspect < griddleAspect\<close> with
  aspect \<open>height / width\<close>, as a predicate of the two bounds.
\<close>

definition landscape_of :: "bounds \<Rightarrow> bounds \<Rightarrow> bool" where
  "landscape_of traceBounds griddleBounds =
     jlt (jdiv (height traceBounds) (width traceBounds))
         (jdiv (height griddleBounds) (width griddleBounds))"

text \<open>The fill fractions as the specification lists them, per count.\<close>

definition spec_fillPercent :: "int \<Rightarrow> real" where
  "spec_fillPercent count =
    (if count = 1 then 0.8 else if count = 2 then 0.5
     else if count = 4 then 0.35 else 0.25)"

section \<open>Strings\<close>

text \<open>
  A string is a list of characters; the inputs of interest are ASCII, where a character is
  one code unit as in JavaScript. \<open>contains sub s\<close> is \<open>s.indexOf(sub) !== -1\<close>.
\<close>

definition starts_with :: "string \<Rightarrow> string \<Rightarrow> bool" where
  "starts_with sub s = (take (length sub) s = sub)"

fun contains :: "string \<Rightarrow> string \<Rightarrow> bool" where
  "contains sub [] = (sub = [])"
| "contains sub (c # cs) = (starts_with sub (c # cs) \<or> contains sub cs)"

text \<open>
  \<open>xs.slice(a, b)\<close> of strings and arrays: a negative index counts from the end, and
  both indices are clamped to the length.
\<close>

definition js_slice :: "int \<Rightarrow> int \<Rightarrow> 'a list \<Rightarrow> 'a list" where
  "js_slice a b xs =
    (let n = int (length xs);
         from = (if a < 0 then max (n + a) 0 else min a n);
         to = (if b < 0 then max (n + b) 0 else min b n)
     in take (nat (to - from)) (drop (nat from) xs))"

text \<open>\<open>s.split(d)\<close> for a one-character separator: never empty, \<open>"".split(",")\<close> is \<open>[""]\<close>.\<close>

fun split_on :: "char \<Rightarrow> string \<Rightarrow> string list" where
  "split_on d [] = [[]]"
| "split_on d (c # cs) =
    (if c = d then [] # split_on d cs
     else (case split_on d cs of
             w # ws \<Rightarrow> (c # w) # ws
           | [] \<Rightarrow> [[c]]))"

definition is_digit :: "char \<Rightarrow> bool" where
  "is_digit c = (c \<in> set ''0123456789'')"

text \<open>The character class \<open>[a-f\d]\<close> under the flag \<open>i\<close>.\<close>

definition is_hex_digit :: "char \<Rightarrow> bool" where
  "is_hex_digit c = (c \<in> set ''0123456789abcdefABCDEF'')"

definition hex_val :: "char \<Rightarrow> nat" where
  "hex_val c =
    (case map_of (zip ''0123456789abcdefABCDEF''
        [0, 1, 2, 3, 4, 5, 6, 7, 8, 9, 10, 11, 12, 13, 14, 15, 10, 11, 12, 13, 14, 15]) c of
       Some v \<Rightarrow> v | None \<Rightarrow> 0)"

text \<open>The value of a string of digits in a base, most significant digit first.\<close>

definition digits_val :: "nat \<Rightarrow> string \<Rightarrow> nat" where
  "digits_val base s = foldl (\<lambda>a c. base * a + hex_val c) 0 s"

text \<open>\<open>parseInt(s, 16)\<close> on a string the regular expression has matched as hex digits.\<close>

definition parseInt16 :: "string \<Rightarrow> jsnum" where
  "parseInt16 s = Fin (real (digits_val 16 s))"

subsection \<open>String to number\<close>

text \<open>
  \<open>Number(s)\<close> on a string, after the language standard: white space is trimmed, the
  empty string is 0, then a hexadecimal, octal or binary integer literal, or a signed
  decimal literal with optional fraction and exponent, or a signed \<open>Infinity\<close>; anything
  else is \<open>NaN\<close>. Only the ASCII white space characters are trimmed here.
\<close>

definition is_space :: "char \<Rightarrow> bool" where
  "is_space c = (c \<in> {CHR '' '', CHR 0x09, CHR 0x0A, CHR 0x0B, CHR 0x0C, CHR 0x0D})"

definition trim :: "string \<Rightarrow> string" where
  "trim s = rev (dropWhile is_space (rev (dropWhile is_space s)))"

definition str_unsigned_decimal :: "string \<Rightarrow> real option" where
  "str_unsigned_decimal s =
    (let ip = takeWhile is_digit s;
         r1 = dropWhile is_digit s;
         has_dot = (r1 \<noteq> [] \<and> hd r1 = CHR ''.'');
         fp = (if has_dot then takeWhile is_digit (tl r1) else []);
         r2 = (if has_dot then dropWhile is_digit (tl r1) else r1);
         mant = real (digits_val 10 ip) + real (digits_val 10 fp) / 10 ^ length fp
     in if ip = [] \<and> fp = [] then None
        else if r2 = [] then Some mant
        else if hd r2 = CHR ''e'' \<or> hd r2 = CHR ''E'' then
          (let es = tl r2;
               neg = (es \<noteq> [] \<and> hd es = CHR ''-'');
               ed = (if es \<noteq> [] \<and> (hd es = CHR ''+'' \<or> hd es = CHR ''-'') then tl es else es)
           in if ed \<noteq> [] \<and> list_all is_digit ed
              then Some (if neg then mant / 10 ^ digits_val 10 ed
                         else mant * 10 ^ digits_val 10 ed)
              else None)
        else None)"

definition radix_literal :: "string \<Rightarrow> string \<Rightarrow> nat \<Rightarrow> jsnum" where
  "radix_literal allowed body base =
    (if body \<noteq> [] \<and> list_all (\<lambda>c. c \<in> set allowed) body
     then Fin (real (digits_val base body)) else NaN)"

definition js_Number :: "string \<Rightarrow> jsnum" where
  "js_Number s0 =
    (let s = trim s0 in
     if s = [] then Fin 0
     else if starts_with ''0x'' s \<or> starts_with ''0X'' s then
       radix_literal ''0123456789abcdefABCDEF'' (drop 2 s) 16
     else if starts_with ''0o'' s \<or> starts_with ''0O'' s then
       radix_literal ''01234567'' (drop 2 s) 8
     else if starts_with ''0b'' s \<or> starts_with ''0B'' s then
       radix_literal ''01'' (drop 2 s) 2
     else
       (let neg = (hd s = CHR ''-'');
            u = (if hd s = CHR ''+'' \<or> hd s = CHR ''-'' then tl s else s)
        in if u = ''Infinity'' then (if neg then NInf else PInf)
           else (case str_unsigned_decimal u of
                   None \<Rightarrow> NaN
                 | Some r \<Rightarrow> Fin (if neg then - r else r))))"

section \<open>Colour conversions\<close>

text \<open>
  The values the colour helpers are handed: a string, an array of numbers, or
  \<open>null\<close> (which also stands for every other non-string, non-array value a caller
  could pass to \<open>colorStringToArray\<close>).
\<close>

datatype jsval = JString string | JNumArray "jsnum list" | JNull

text \<open>
  The two regular expressions of \<open>colorStringToArray\<close>. Both are anchored at both ends
  and start with an optional \<open>#\<close>; as \<open>#\<close> is no hex digit, a match is an optional
  leading \<open>#\<close> followed by exactly three (six) hex digits.
\<close>

definition strip_hash :: "string \<Rightarrow> string" where
  "strip_hash s = (if s \<noteq> [] \<and> hd s = CHR ''#'' then tl s else s)"

text \<open>\<open>string.replace(shorthandRegex, ...)\<close>: a match is replaced by the doubled digits.\<close>

definition expand_shorthand :: "string \<Rightarrow> string" where
  "expand_shorthand s =
    (let t = strip_hash s in
     if length t = 3 \<and> list_all is_hex_digit t
     then [t ! 0, t ! 0, t ! 1, t ! 1, t ! 2, t ! 2]
     else s)"

text \<open>The three groups of the six-digit expression, when it matches.\<close>

definition exec_hex6 :: "string \<Rightarrow> (string \<times> string \<times> string) option" where
  "exec_hex6 s =
    (let t = strip_hash s in
     if length t = 6 \<and> list_all is_hex_digit t
     then Some (take 2 t, take 2 (drop 2 t), drop 4 t)
     else None)"

text \<open>\<open>colorStringToArray(string)\<close>: \<open>None\<close> is \<open>null\<close>.\<close>

definition colorStringToArray :: "jsval \<Rightarrow> jsnum list option" where
  "colorStringToArray v =
    (case v of
       JString string \<Rightarrow>
         if contains ''rgb'' string then
           Some (map js_Number (split_on CHR '','' (js_slice 4 (- 1) string)))
         else if contains ''#'' string then
           (case exec_hex6 (expand_shorthand string) of
              Some (r, g, b) \<Rightarrow> Some [parseInt16 r, parseInt16 g, parseInt16 b]
            | None \<Rightarrow> None)
         else None
     | _ \<Rightarrow> None)"

text \<open>
  Reading an array element: an index past the end reads \<open>undefined\<close>, which arithmetic
  and \<open>isNaN\<close> treat as \<open>NaN\<close>.
\<close>

definition nth_num :: "jsnum list \<Rightarrow> nat \<Rightarrow> jsnum" where
  "nth_num xs i = (if i < length xs then xs ! i else NaN)"

type_synonym yuv = "jsnum \<times> jsnum \<times> jsnum"

text \<open>
  \<open>rgbToYUV(color)\<close>: \<open>None\<close> is the \<open>false\<close> it returns for a \<open>null\<close> colour. Each
  decimal constant is the double nearest to it, a negative one the negation of that
  double, and every product and every sum is rounded, in the order in which the
  expressions are evaluated.
\<close>

definition rgbToYUV :: "jsnum list option \<Rightarrow> yuv option" where
  "rgbToYUV color =
    (case color of
       None \<Rightarrow> None
     | Some c \<Rightarrow>
        (let r = nth_num c 0; g = nth_num c 1; b = nth_num c 2;
             y = dadd (dadd (dmul r (dbl 0.299000)) (dmul g (dbl 0.587000)))
                      (dmul b (dbl 0.114000));
             u = dadd (dadd (dadd (dmul r (jneg (dbl 0.168736))) (dmul g (jneg (dbl 0.331264))))
                            (dmul b (dbl 0.500000)))
                      (Fin 128);
             v = dadd (dadd (dadd (dmul r (dbl 0.500000)) (dmul g (jneg (dbl 0.418688))))
                            (dmul b (jneg (dbl 0.081312))))
                      (Fin 128)
         in Some (jfloor y, jfloor u, jfloor v)))"

section \<open>Palette matching\<close>

text \<open>
  A palette entry as \<open>renderColorData\<close> builds it. The HSL triple, which no matching
  step reads, is left out.
\<close>

record color_data =
  HEX :: string
  RGB :: "jsnum list option"
  YUV :: "yuv option"

record palette_entry =
  key :: string
  color :: color_data

fun digit_char :: "nat \<Rightarrow> char" where
  "digit_char n = ''0123456789'' ! (n mod 10)"

fun show_nat :: "nat \<Rightarrow> string" where
  "show_nat n = (if n < 10 then [digit_char n] else show_nat (n div 10) @ [digit_char n])"

definition renderColorData :: "string \<Rightarrow> string \<Rightarrow> palette_entry" where
  "renderColorData colorHEX name =
    (let colorRGB = colorStringToArray (JString colorHEX) in
     \<lparr>key = name,
      color = \<lparr>HEX = colorHEX, RGB = colorRGB, YUV = rgbToYUV colorRGB\<rparr>\<rparr>)"

text \<open>
  \<open>snapColorSetup(colors)\<close> replaces the global \<open>snapColors\<close>; the model returns the new
  palette, and the functions that read \<open>this.snapColors\<close> take it as a parameter.
\<close>

definition snapColorSetup :: "string list \<Rightarrow> palette_entry list" where
  "snapColorSetup colors =
     map (\<lambda>(index, color). renderColorData color (''color'' @ show_nat index))
       (zip [0 ..< length colors] colors)"

text \<open>
  A component of a YUV value: of the \<open>false\<close> of an unparsable entry it is
  \<open>undefined\<close>, which the arithmetic turns into \<open>NaN\<close>.
\<close>

definition yuv_at :: "yuv option \<Rightarrow> nat \<Rightarrow> jsnum" where
  "yuv_at c i =
    (case c of
       None \<Rightarrow> NaN
     | Some (y, u, v) \<Rightarrow> (if i = 0 then y else if i = 1 then u else v))"

text \<open>
  The distance \<open>snapColor\<close> computes between two YUV values. Its operations are the
  exact ones: the components are whole numbers, \<open>rgbToYUV\<close> having floored them, and
  the loop only ever compares a distance with the start value 1000 or with an earlier
  distance below it. Whenever a distance is below 1000 the differences, their squares and
  the sum of the squares are whole numbers below a million, which doubles hold exactly,
  and the rounded square roots of two such sums compare as the sums do.
\<close>

definition yuv_distance :: "yuv option \<Rightarrow> yuv option \<Rightarrow> jsnum" where
  "yuv_distance c source =
    jsqrt (jadd (jadd (jpow2 (jsub (yuv_at c 0) (yuv_at source 0)))
                      (jpow2 (jsub (yuv_at c 1) (yuv_at source 1))))
                (jpow2 (jsub (yuv_at c 2) (yuv_at source 2))))"

text \<open>
  The loop of \<open>snapColor\<close> from index \<open>i\<close> on, over the remaining candidates, with the
  current \<open>lowestIndex\<close> and \<open>lowestValue\<close>.
\<close>

fun snap_loop :: "palette_entry list \<Rightarrow> yuv option \<Rightarrow> nat \<Rightarrow> nat \<Rightarrow> jsnum \<Rightarrow> nat" where
  "snap_loop [] source i lowestIndex lowestValue = lowestIndex"
| "snap_loop (e # es) source i lowestIndex lowestValue =
    (let distance = yuv_distance (YUV (color e)) source in
     if jlt distance lowestValue
     then snap_loop es source (Suc i) i distance
     else snap_loop es source (Suc i) lowestIndex lowestValue)"

text \<open>
  The candidates of \<open>snapColor\<close>: the palette, sliced to \<open>limit\<close> entries when a limit
  is given and truthy. \<open>None\<close> is an omitted limit.
\<close>

definition candidates :: "palette_entry list \<Rightarrow> int option \<Rightarrow> palette_entry list" where
  "candidates snapColors limit =
    (case limit of
       None \<Rightarrow> snapColors
     | Some l \<Rightarrow> (if l \<noteq> 0 then js_slice 0 l snapColors else snapColors))"

text \<open>
  The source colour of \<open>snapColor\<close> as an RGB array: a string is parsed, and a source
  that is \<open>null\<close>, unparsable, or whose first component is \<open>NaN\<close> is replaced by
  white.
\<close>

definition source_rgb :: "jsval \<Rightarrow> jsnum list option" where
  "source_rgb source =
    (let source1 = (case source of
                      JString s \<Rightarrow> colorStringToArray (JString s)
                    | JNumArray a \<Rightarrow> Some a
                    | JNull \<Rightarrow> None)
     in case source1 of
          None \<Rightarrow> colorStringToArray (JString ''#FFFFFF'')
        | Some a \<Rightarrow> (if isNaN (nth_num a 0)
                    then colorStringToArray (JString ''#FFFFFF'')
                    else Some a))"

text \<open>\<open>snapColor(source, limit)\<close>.\<close>

definition snapColor :: "palette_entry list \<Rightarrow> jsval \<Rightarrow> int option \<Rightarrow> nat" where
  "snapColor snapColors source limit =
    (let colors = candidates snapColors limit;
         source' = rgbToYUV (source_rgb source)
     in snap_loop colors source' 0 0 (Fin 1000))"

subsection \<open>Notions used to state the properties\<close>

text \<open>A hexadecimal colour: \<open>#\<close> followed by exactly three or six hex digits.\<close>

definition hex_color :: "string \<Rightarrow> bool" where
  "hex_color s =
    (s \<noteq> [] \<and> hd s = CHR ''#'' \<and> (length (tl s) = 3 \<or> length (tl s) = 6)
     \<and> list_all is_hex_digit (tl s))"

text \<open>An RGB array of exactly three finite components, each within 0 and 255.\<close>

fun rgb_in_range :: "jsnum list option \<Rightarrow> bool" where
  "rgb_in_range (Some [Fin r, Fin g, Fin b]) =
     (0 \<le> r \<and> r \<le> 255 \<and> 0 \<le> g \<and> g \<le> 255 \<and> 0 \<le> b \<and> b \<le> 255)"
| "rgb_in_range other = False"

text \<open>An existing YUV value whose three components are finite and within 0 and 255.\<close>

fun yuv_in_range :: "yuv option \<Rightarrow> bool" where
  "yuv_in_range (Some (Fin y, Fin u, Fin v)) =
     (0 \<le> y \<and> y \<le> 255 \<and> 0 \<le> u \<and> u \<le> 255 \<and> 0 \<le> v \<and> v \<le> 255)"
| "yuv_in_range other = False"

text \<open>
  The doubles nearest to the decimal constants of \<open>rgbToYUV\<close>: to 0.299, 0.587 and
  0.114, to 0.168736, 0.331264 and 0.5, and to 0.418688 and 0.081312.
\<close>

definition coef_yr :: real where
  "coef_yr = 5386305154335113 / 2 ^ 54"

definition coef_yg :: real where
  "coef_yg = 2643612981266481 / 2 ^ 52"

definition coef_yb :: real where
  "coef_yb = 8214565720323785 / 2 ^ 56"

definition coef_ur :: real where
  "coef_ur = 189979846680997 / 2 ^ 50"

definition coef_ug :: real where
  "coef_ug = 372970106740315 / 2 ^ 50"

definition coef_half :: real where
  "coef_half = 1 / 2 ^ 1"

definition coef_vg :: real where
  "coef_vg = 7542412483137993 / 2 ^ 54"

definition coef_vb :: real where
  "coef_vb = 1464786771602999 / 2 ^ 54"


text \<open>A YUV value that exists and has three finite components.\<close>

fun finite_yuv :: "yuv option \<Rightarrow> bool" where
  "finite_yuv (Some (Fin y, Fin u, Fin v)) = True"
| "finite_yuv other = False"

fun fin_val :: "jsnum \<Rightarrow> real" where
  "fin_val (Fin a) = a"
| "fin_val other = 0"

text \<open>The Euclidean distance of two finite YUV values, as a real.\<close>

definition euclid :: "yuv option \<Rightarrow> yuv option \<Rightarrow> real" where
  "euclid c s =
    sqrt ((fin_val (yuv_at c 0) - fin_val (yuv_at s 0))\<^sup>2
        + (fin_val (yuv_at c 1) - fin_val (yuv_at s 1))\<^sup>2
        + (fin_val (yuv_at c 2) - fin_val (yuv_at s 2))\<^sup>2)"


text \<open>
  The number of candidates the code keeps of a palette of \<open>n\<close> entries: \<open>slice\<close>
  is applied for a truthy limit only, and a negative limit counts from the end.
\<close>

definition candidate_count :: "nat \<Rightarrow> int option \<Rightarrow> nat" where
  "candidate_count n limit =
    (case limit of
       None \<Rightarrow> n
     | Some l \<Rightarrow> (if l = 0 then n else if l < 0 then n - nat (- l) else min (nat l) n))"


section \<open>Paths, items and the layer\<close>

text \<open>
  The scene graph belongs to the vector graphics library; the helpers see the following
  of it. A path is a list of segments and a closed flag, a compound path a list of such
  paths. An item carries an identity (the object reference of the source), its
  geometry, its style and the \<open>data\<close> bag, of which the helpers read and write the
  entries \<open>name\<close>, \<open>color\<close>, \<open>fill\<close> and \<open>processed\<close>. A colour of an item is
  represented by the string it was given as; the library's \<open>toCSS\<close> is a parameter.
\<close>

type_synonym point = "real \<times> real"

record segment =
  point :: point
  handleIn :: point
  handleOut :: point

record path_geom =
  segments :: "segment list"
  closed' :: bool

datatype geometry = Path path_geom | CompoundPath "path_geom list"

type_synonym paper_color = string

record item_data =
  data_name :: string
  data_color :: "nat option"
  data_fill :: "bool option"
  data_processed :: bool

record item =
  item_id :: nat
  geometry :: geometry
  strokeColor :: "paper_color option"
  strokeWidth :: real
  fillColor :: "paper_color option"
  data :: item_data

text \<open>
  The part of the project the helpers touch: the children of the layer worked on, the
  children of the project's active layer when that is another layer (a newly
  constructed item is inserted into the active layer), and the next unused identity.
\<close>

record scene =
  layer_children :: "item list"
  active_children :: "item list"
  layer_is_active :: bool
  next_id :: nat

text \<open>\<open>item.remove()\<close>: the item leaves its parent; no effect on an item without parent.\<close>

definition remove_item :: "nat \<Rightarrow> scene \<Rightarrow> scene" where
  "remove_item i s =
     s\<lparr>layer_children := filter (\<lambda>x. item_id x \<noteq> i) (layer_children s),
       active_children := filter (\<lambda>x. item_id x \<noteq> i) (active_children s)\<rparr>"

fun insert_after :: "nat \<Rightarrow> item \<Rightarrow> item list \<Rightarrow> item list" where
  "insert_after i new [] = []"
| "insert_after i new (x # xs) =
     (if item_id x = i then x # new # xs else x # insert_after i new xs)"

fun insert_before :: "nat \<Rightarrow> item \<Rightarrow> item list \<Rightarrow> item list" where
  "insert_before i new [] = []"
| "insert_before i new (x # xs) =
     (if item_id x = i then new # x # xs else x # insert_before i new xs)"

text \<open>
  \<open>item.clone()\<close>: a copy with an identity of its own, inserted above the original in
  the original's parent.
\<close>

definition clone_item :: "item \<Rightarrow> scene \<Rightarrow> item \<times> scene" where
  "clone_item it s =
     (let c = it\<lparr>item_id := next_id s\<rparr>
      in (c, s\<lparr>layer_children := insert_after (item_id it) c (layer_children s),
               active_children := insert_after (item_id it) c (active_children s),
               next_id := Suc (next_id s)\<rparr>))"

text \<open>\<open>item.clone({insert: false})\<close>: the copy has no parent.\<close>

definition clone_detached :: "item \<Rightarrow> nat \<Rightarrow> item" where
  "clone_detached it fresh = it\<lparr>item_id := fresh\<rparr>"

definition empty_data :: item_data where
  "empty_data = \<lparr>data_name = [], data_color = None, data_fill = None, data_processed = False\<rparr>"

text \<open>A new item is inserted on top of the active layer.\<close>

definition insert_active :: "item \<Rightarrow> scene \<Rightarrow> scene" where
  "insert_active it s =
     (if layer_is_active s then s\<lparr>layer_children := layer_children s @ [it]\<rparr>
      else s\<lparr>active_children := active_children s @ [it]\<rparr>)"

text \<open>Writing the fields of an item that is in the scene.\<close>

definition update_item :: "item \<Rightarrow> scene \<Rightarrow> scene" where
  "update_item it s =
     s\<lparr>layer_children := map (\<lambda>x. if item_id x = item_id it then it else x) (layer_children s),
       active_children := map (\<lambda>x. if item_id x = item_id it then it else x) (active_children s)\<rparr>"

definition has_parent :: "nat \<Rightarrow> scene \<Rightarrow> bool" where
  "has_parent i s = (i \<in> set (map item_id (layer_children s @ active_children s)))"

text \<open>
  \<open>item.replaceWith(new)\<close>: the new item is moved to just below the item, which is then
  removed; nothing happens when the item has no parent.
\<close>

definition replace_with :: "nat \<Rightarrow> item \<Rightarrow> scene \<Rightarrow> scene" where
  "replace_with i new s =
     (if has_parent i s then
        (let s1 = remove_item (item_id new) s;
             s2 = s1\<lparr>layer_children := insert_before i new (layer_children s1),
                     active_children := insert_before i new (active_children s1)\<rparr>
         in remove_item i s2)
      else s)"

text \<open>
  \<open>layer.addChild(item)\<close> on the layer worked on: the library ignores a falsy argument;
  an item is taken from its parent and appended.
\<close>

definition add_child :: "item option \<Rightarrow> scene \<Rightarrow> scene" where
  "add_child m s =
     (case m of
        None \<Rightarrow> s
      | Some it \<Rightarrow>
          (let s1 = remove_item (item_id it) s
           in s1\<lparr>layer_children := layer_children s1 @ [it]\<rparr>))"

section \<open>Polygon offsetting\<close>

text \<open>
  What the offsetting takes from outside: the library's \<open>flatten\<close>, which may throw
  (\<open>None\<close>), the three steps of the clipping library, the conversion of a number to
  text, and the construction of a compound path from path data.
\<close>

record paper_env =
  flatten :: "real \<Rightarrow> path_geom \<Rightarrow> path_geom option"
  ScaleUpPaths :: "point list list \<Rightarrow> real \<Rightarrow> point list list"
  Clean :: "point list list \<Rightarrow> real \<Rightarrow> point list list"
  OffsetExecute :: "real \<Rightarrow> real \<Rightarrow> point list list \<Rightarrow> real \<Rightarrow> point list list"
  num_to_string :: "real \<Rightarrow> string"
  path_from_data :: "string \<Rightarrow> geometry"

text \<open>\<open>paths2string(paths, scale)\<close>.\<close>

definition paths2string :: "(real \<Rightarrow> string) \<Rightarrow> point list list \<Rightarrow> real \<Rightarrow> string" where
  "paths2string num paths scale0 =
    (let scale = (if scale0 = 0 then 1 else scale0)
     in concat (map (\<lambda>path.
          concat (map (\<lambda>(j, pt).
              (if j = 0 then ''M'' else ''L'')
                @ num (fst pt / scale) @ '', '' @ num (snd pt / scale))
            (zip [0 ..< length path] path))
          @ ''Z'') paths))"

text \<open>
  The \<open>try\<close> block of \<open>offsetPath\<close>: the clone is flattened, child by child for a
  compound path, and the points are collected. \<open>None\<close> when a \<open>flatten\<close> throws.
\<close>

definition flatten_child :: "paper_env \<Rightarrow> real \<Rightarrow> path_geom \<Rightarrow> point list option" where
  "flatten_child env flattenResolution c =
    (let c' = (if length (segments c) \<le> 1 \<and> closed' c then c\<lparr>closed' := False\<rparr> else c)
     in map_option (\<lambda>f. map point (segments f)) (flatten env flattenResolution c'))"

definition flatten_paths :: "paper_env \<Rightarrow> real \<Rightarrow> geometry \<Rightarrow> point list list option" where
  "flatten_paths env flattenResolution g =
    (case g of
       CompoundPath cs \<Rightarrow> those (map (flatten_child env flattenResolution) cs)
     | Path c \<Rightarrow>
         map_option (\<lambda>f. [map point (segments f)]) (flatten env flattenResolution c))"

text \<open>
  \<open>offsetPath(inPath, amount, flattenResolution, doReplace)\<close>. The result is the item
  returned, \<open>None\<close> for \<open>false\<close>, and the scene after the call. The amount is a
  real here, for which the replacement of a falsy amount by 0 changes nothing. The new
  compound path is inserted into the active layer when it is constructed; its data and
  style are written afterwards.
\<close>

definition offsetPath ::
  "paper_env \<Rightarrow> item \<Rightarrow> real \<Rightarrow> real \<Rightarrow> bool \<Rightarrow> scene \<Rightarrow> item option \<times> scene" where
  "offsetPath env inPath amount flattenResolution doReplace s =
    (let scale = 100;
         (p, s1) = clone_item inPath s
     in case flatten_paths env flattenResolution (geometry p) of
          None \<Rightarrow> (Some inPath, remove_item (item_id p) s1)
        | Some paths \<Rightarrow>
           (let s2 = remove_item (item_id p) s1;
                paths1 = ScaleUpPaths env paths scale;
                cleanDelta = 0.1;
                paths2 = Clean env paths1 (cleanDelta * scale);
                miterLimit = 2;
                arcTolerance = 0.25;
                offsettedPaths = OffsetExecute env miterLimit arcTolerance paths2 (amount * scale);
                pathString = paths2string (num_to_string env) offsettedPaths scale
            in if pathString \<noteq> [] then
                 (let inset0 = \<lparr>item_id = next_id s2,
                                geometry = path_from_data env pathString,
                                strokeColor = None, strokeWidth = 1, fillColor = None,
                                data = empty_data\<rparr>;
                      s3 = insert_active inset0 (s2\<lparr>next_id := Suc (next_id s2)\<rparr>);
                      inset = inset0\<lparr>data := data inPath,
                                     strokeColor := strokeColor inPath,
                                     strokeWidth := strokeWidth inPath,
                                     fillColor := fillColor inPath\<rparr>;
                      s4 = update_item inset s3
                  in if doReplace
                     then (Some inset, replace_with (item_id inPath) inset s4)
                     else (Some inset, remove_item (item_id inPath) s4))
               else (None, remove_item (item_id inPath) s2)))"

section \<open>Thin features\<close>

text \<open>One round of the loop of \<open>destroyThinFeatures\<close>, for one child of the layer.\<close>

definition thin_step :: "paper_env \<Rightarrow> real \<Rightarrow> bool \<Rightarrow> item \<Rightarrow> scene \<Rightarrow> scene" where
  "thin_step env amount clone it s =
    (let resolution = 2;
         (mask, s1) = (if clone then clone_item it s else (it, s));
         (mask1, s2) = offsetPath env mask (- amount) resolution False s1
     in case mask1 of
          None \<Rightarrow> s2
        | Some m \<Rightarrow>
            (let (mask2, s3) = offsetPath env m amount resolution False s2
             in add_child mask2 s3))"

text \<open>\<open>destroyThinFeatures(layer, amount, clone)\<close>: the loop runs over a copy of the children.\<close>

definition destroyThinFeatures :: "paper_env \<Rightarrow> real \<Rightarrow> bool \<Rightarrow> scene \<Rightarrow> scene" where
  "destroyThinFeatures env amount clone s =
     fold (thin_step env amount clone) (layer_children s) s"

section \<open>Colouring a layer\<close>

datatype js_error = TypeError

text \<open>
  The three blocks of the loop body of \<open>autoColor\<close>. Reading \<open>snapColors[i].color\<close>
  for an index past the palette throws.
\<close>

definition match_stroke ::
  "(paper_color \<Rightarrow> string) \<Rightarrow> palette_entry list \<Rightarrow> int option \<Rightarrow> item \<Rightarrow> js_error + item" where
  "match_stroke toCSS snapColors limit it =
    (case strokeColor it of
       None \<Rightarrow> Inr it
     | Some c \<Rightarrow>
        (let colorIndex = snapColor snapColors (JString (toCSS c)) limit
         in if colorIndex < length snapColors
            then Inr (it\<lparr>strokeColor := Some (HEX (color (snapColors ! colorIndex))),
                        data := (data it)\<lparr>data_color := Some colorIndex\<rparr>\<rparr>)
            else Inl TypeError))"

definition match_fill ::
  "(paper_color \<Rightarrow> string) \<Rightarrow> palette_entry list \<Rightarrow> int option \<Rightarrow> paper_color \<Rightarrow> item
     \<Rightarrow> js_error + (item \<times> nat)" where
  "match_fill toCSS snapColors limit c it =
    (let colorIndex = snapColor snapColors (JString (toCSS c)) limit
     in if colorIndex < length snapColors
        then Inr (it\<lparr>fillColor := Some (HEX (color (snapColors ! colorIndex))),
                    data := (data it)\<lparr>data_color := Some colorIndex, data_fill := Some True\<rparr>\<rparr>,
                  colorIndex)
        else Inl TypeError)"

definition make_outline :: "palette_entry list \<Rightarrow> nat \<Rightarrow> nat \<Rightarrow> item \<Rightarrow> js_error + item" where
  "make_outline snapColors colorIndex fresh it =
    (let outlineItem = clone_detached it fresh
     in if colorIndex + 1 < length snapColors
        then Inr (outlineItem\<lparr>strokeColor := Some (HEX (color (snapColors ! (colorIndex + 1)))),
                             strokeWidth := 5,
                             fillColor := None,
                             data := (data outlineItem)\<lparr>data_fill := Some False,
                                                        data_color := Some (colorIndex + 1)\<rparr>\<rparr>)
        else Inl TypeError)"

text \<open>The loop body: the item as it is left, and its outline if one was made.\<close>

definition color_item ::
  "(paper_color \<Rightarrow> string) \<Rightarrow> palette_entry list \<Rightarrow> int option \<Rightarrow> bool \<Rightarrow> nat \<Rightarrow> item
     \<Rightarrow> js_error + (item \<times> item option)" where
  "color_item toCSS snapColors limit outline fresh it =
    (case match_stroke toCSS snapColors limit it of
       Inl e \<Rightarrow> Inl e
     | Inr it1 \<Rightarrow>
        (case fillColor it1 of
           None \<Rightarrow> Inr (it1, None)
         | Some c \<Rightarrow>
            (case match_fill toCSS snapColors limit c it1 of
               Inl e \<Rightarrow> Inl e
             | Inr (it2, colorIndex) \<Rightarrow>
                 if outline then
                   (case make_outline snapColors colorIndex fresh it2 of
                      Inl e \<Rightarrow> Inl e
                    | Inr outlineItem \<Rightarrow> Inr (it2, Some outlineItem))
                 else Inr (it2, None))))"

text \<open>
  The loop over the children: the children as they are left, the outlines collected, and
  the next unused identity. An exception ends the loop.
\<close>

fun autoColor_items ::
  "(paper_color \<Rightarrow> string) \<Rightarrow> palette_entry list \<Rightarrow> int option \<Rightarrow> bool \<Rightarrow> item list \<Rightarrow> nat
     \<Rightarrow> js_error + (item list \<times> item list \<times> nat)" where
  "autoColor_items toCSS snapColors limit outline [] n = Inr ([], [], n)"
| "autoColor_items toCSS snapColors limit outline (it # rest) n =
    (case color_item toCSS snapColors limit outline n it of
       Inl e \<Rightarrow> Inl e
     | Inr (it', out) \<Rightarrow>
        (case autoColor_items toCSS snapColors limit outline rest
                (case out of None \<Rightarrow> n | Some outlineItem \<Rightarrow> Suc n) of
           Inl e \<Rightarrow> Inl e
         | Inr (items, outlines, n') \<Rightarrow>
             Inr (it' # items,
                  (case out of None \<Rightarrow> [] | Some outlineItem \<Rightarrow> [outlineItem]) @ outlines,
                  n')))"

text \<open>
  \<open>autoColor(layer, limit, outline)\<close> on the layer worked on. \<open>Inl\<close> is an exception
  thrown out of the function (the children coloured before it stay coloured).
\<close>

definition autoColor ::
  "(paper_color \<Rightarrow> string) \<Rightarrow> palette_entry list \<Rightarrow> int option \<Rightarrow> bool \<Rightarrow> scene
     \<Rightarrow> js_error + scene" where
  "autoColor toCSS snapColors limit outline s =
    (let limit' = (if outline then Some (int (length snapColors) - 1) else limit)
     in case autoColor_items toCSS snapColors limit' outline (layer_children s) (next_id s) of
          Inl e \<Rightarrow> Inl e
        | Inr (items, outlines, n) \<Rightarrow>
            Inr (s\<lparr>layer_children := items @ outlines, next_id := n\<rparr>))"

subsection \<open>Notions used to state the properties of the colouring\<close>

text \<open>The limit \<open>autoColor\<close> matches with: forced to the palette size less one for outlines.\<close>

definition effective_limit :: "palette_entry list \<Rightarrow> int option \<Rightarrow> bool \<Rightarrow> int option" where
  "effective_limit snapColors limit outline =
     (if outline then Some (int (length snapColors) - 1) else limit)"

text \<open>The palette index of an item's fill colour under a limit (0 for an item without fill).\<close>

definition fill_index ::
  "(paper_color \<Rightarrow> string) \<Rightarrow> palette_entry list \<Rightarrow> int option \<Rightarrow> item \<Rightarrow> nat" where
  "fill_index toCSS snapColors limit it =
     (case fillColor it of
        None \<Rightarrow> 0
      | Some c \<Rightarrow> snapColor snapColors (JString (toCSS c)) limit)"

text \<open>What the properties say of an outline: geometry, style, and the two data entries.\<close>

definition outline_view ::
  "item \<Rightarrow> geometry \<times> paper_color option \<times> real \<times> paper_color option \<times> nat option \<times> bool option" where
  "outline_view it =
     (geometry it, strokeColor it, strokeWidth it, fillColor it,
      data_color (data it), data_fill (data it))"

text \<open>A sample layer and palette for the examples: colours are kept as CSS strings.\<close>

definition sample_palette :: "palette_entry list" where
  "sample_palette = snapColorSetup [''#FFFFFF'', ''#888888'', ''#000000'']"

definition sample_item :: "nat \<Rightarrow> paper_color option \<Rightarrow> paper_color option \<Rightarrow> item" where
  "sample_item i stroke fillc =
     \<lparr>item_id = i,
      geometry = Path \<lparr>segments = [], closed' = False\<rparr>,
      strokeColor = stroke, strokeWidth = 1, fillColor = fillc,
      data = empty_data\<rparr>"

definition sample_scene :: scene where
  "sample_scene =
     \<lparr>layer_children =
        [sample_item 0 (Some ''rgb(0,0,0)'') (Some ''rgb(250,250,250)''),
         sample_item 1 (Some ''rgb(120,120,120)'') None],
      active_children = [], layer_is_active = True, next_id = 2\<rparr>"

subsection \<open>Notions used to state the properties of the offsetting\<close>

text \<open>Every item of the scene has an identity below the next unused one.\<close>

definition scene_ok :: "scene \<Rightarrow> bool" where
  "scene_ok s = list_all (\<lambda>x. item_id x < next_id s) (layer_children s @ active_children s)"

text \<open>
  The polygons \<open>offsetPath\<close> gets back from the clipping library for the flattened
  polygons, and the path data it makes of them.
\<close>

definition offset_result :: "paper_env \<Rightarrow> point list list \<Rightarrow> real \<Rightarrow> point list list" where
  "offset_result env paths amount =
     OffsetExecute env 2 0.25 (Clean env (ScaleUpPaths env paths 100) (0.1 * 100))
       (amount * 100)"

definition offset_string :: "paper_env \<Rightarrow> point list list \<Rightarrow> real \<Rightarrow> string" where
  "offset_string env paths amount =
     paths2string (num_to_string env) (offset_result env paths amount) 100"

text \<open>The item \<open>offsetPath\<close> builds from path data: data and style of the input path.\<close>

definition inset_of :: "paper_env \<Rightarrow> item \<Rightarrow> nat \<Rightarrow> string \<Rightarrow> item" where
  "inset_of env inPath i pathString =
     \<lparr>item_id = i, geometry = path_from_data env pathString,
      strokeColor = strokeColor inPath, strokeWidth = strokeWidth inPath,
      fillColor = fillColor inPath, data = data inPath\<rparr>"

text \<open>
  The erosion and dilation round trip on one shape, as the specification names it: offset
  inward, and if a shape results, offset that outward by the same amount.
\<close>

definition erodeDilateRoundTrip ::
  "paper_env \<Rightarrow> item \<Rightarrow> real \<Rightarrow> real \<Rightarrow> scene \<Rightarrow> item option \<times> scene" where
  "erodeDilateRoundTrip env shape amount resolution s =
    (let (eroded, s1) = offsetPath env shape (- amount) resolution False s
     in case eroded of
          None \<Rightarrow> (None, s1)
        | Some m \<Rightarrow> offsetPath env m amount resolution False s1)"

text \<open>
  Sample collaborators for the examples: a \<open>flatten\<close> and an offset step are given, the
  other steps do nothing, and path data is not read back.
\<close>

definition one_item_scene :: scene where
  "one_item_scene =
     \<lparr>layer_children = [sample_item 0 None (Some ''#000000'')],
      active_children = [], layer_is_active = True, next_id = 1\<rparr>"

definition sample_env ::
  "(real \<Rightarrow> path_geom \<Rightarrow> path_geom option)
     \<Rightarrow> (point list list \<Rightarrow> real \<Rightarrow> point list list) \<Rightarrow> paper_env" where
  "sample_env fl off =
     \<lparr>flatten = fl,
      ScaleUpPaths = (\<lambda>paths sc. paths),
      Clean = (\<lambda>paths delta. paths),
      OffsetExecute = (\<lambda>miterLimit arcTolerance paths delta. off paths delta),
      num_to_string = (\<lambda>x. ''0''),
      path_from_data = (\<lambda>d. CompoundPath [])\<rparr>"

section \<open>Properties of the duplication layout\<close>

text \<open>
  Claim C2, as amended. The source is classified as landscape exactly when
  \<open>traceAspect < areaAspect\<close> (\<open>landscape_of\<close>). For \<open>count = 2\<close> a landscape source
  gets its two copies stacked: both at the horizontal centre \<open>W / 2\<close>, at heights
  \<open>H / 4\<close> and \<open>3 H / 4\<close>. Any other source gets them side by side: both at the vertical
  centre \<open>H / 2\<close>, at \<open>W / 4\<close> and \<open>3 W / 4\<close>.
\<close>

theorem layout_two_orientation:
  assumes "truthy (width tb)" and "width gb = Fin gw" and "height gb = Fin gh"
  shows "positions (getDuplicationLayout 2 tb gb) =
     (if landscape_of tb gb
      then [(Fin (gw / 2), Fin (gh / 4)), (Fin (gw / 2), Fin (3 * gh / 4))]
      else [(Fin (gw / 4), Fin (gh / 2)), (Fin (3 * gw / 4), Fin (gh / 2))])"
  using assms
  by (simp add: getDuplicationLayout_def Let_def landscape_of_def)

theorem layout_two_orientation_witness:
  "truthy (width \<lparr>width = Fin 100, height = Fin 400\<rparr>) \<and>
   \<not> landscape_of \<lparr>width = Fin 100, height = Fin 400\<rparr> \<lparr>width = Fin 1000, height = Fin 500\<rparr> \<and>
   positions (getDuplicationLayout 2 \<lparr>width = Fin 100, height = Fin 400\<rparr>
       \<lparr>width = Fin 1000, height = Fin 500\<rparr>)
     = [(Fin 250, Fin 250), (Fin 750, Fin 250)]"
  using layout_two_orientation [of "\<lparr>width = Fin 100, height = Fin 400\<rparr>"
      "\<lparr>width = Fin 1000, height = Fin 500\<rparr>" 1000 500]
  by (simp add: landscape_of_def)

text \<open>
  The claim as the specification words it fails: a trace of 400 by 100 in an area of
  1000 by 500 is landscape, and its two copies share \<open>x = 500\<close> and differ in \<open>y\<close>.
\<close>

theorem layout_two_landscape_counterexample:
  "landscape_of \<lparr>width = Fin 400, height = Fin 100\<rparr> \<lparr>width = Fin 1000, height = Fin 500\<rparr> \<and>
   positions (getDuplicationLayout 2 \<lparr>width = Fin 400, height = Fin 100\<rparr>
       \<lparr>width = Fin 1000, height = Fin 500\<rparr>)
     = [(Fin 500, Fin 125), (Fin 500, Fin 375)]"
  by (simp add: getDuplicationLayout_def Let_def landscape_of_def)

text \<open>
  Claim C6. For a count of 1, 2, 4 or 8 and a trace whose width and height are both
  non-zero, the scale is the smaller of \<open>W * fill / w\<close> and \<open>H * fill / h\<close>, with the
  fill fractions 0.8, 0.5, 0.35 and 0.25. One copy of a 100 by 100 trace in a 1000 by 500
  area goes to the centre \<open>(500, 250)\<close> with scale 4.
\<close>

theorem layout_scale:
  assumes "count \<in> {1, 2, 4, 8}"
    and "width tb = Fin tw" and "height tb = Fin th" and "tw \<noteq> 0" and "th \<noteq> 0"
    and "width gb = Fin gw" and "height gb = Fin gh"
  shows "scale (getDuplicationLayout count tb gb)
           = Fin (min (gw * spec_fillPercent count / tw) (gh * spec_fillPercent count / th))
         \<and> getDuplicationLayout 1 \<lparr>width = Fin 100, height = Fin 100\<rparr>
               \<lparr>width = Fin 1000, height = Fin 500\<rparr>
           = \<lparr>scale = Fin 4, positions = [(Fin 500, Fin 250)]\<rparr>"
proof
  show "scale (getDuplicationLayout count tb gb)
           = Fin (min (gw * spec_fillPercent count / tw) (gh * spec_fillPercent count / th))"
    using assms
    by (auto simp add: getDuplicationLayout_def spec_fillPercent_def Let_def min_def)
  show "getDuplicationLayout 1 \<lparr>width = Fin 100, height = Fin 100\<rparr>
               \<lparr>width = Fin 1000, height = Fin 500\<rparr>
           = \<lparr>scale = Fin 4, positions = [(Fin 500, Fin 250)]\<rparr>"
    by (simp add: getDuplicationLayout_def Let_def)
qed

theorem layout_scale_witness:
  "scale (getDuplicationLayout 4 \<lparr>width = Fin 70, height = Fin 35\<rparr>
       \<lparr>width = Fin 1000, height = Fin 500\<rparr>) = Fin 5"
  using layout_scale [of 4 "\<lparr>width = Fin 70, height = Fin 35\<rparr>" 70 35
      "\<lparr>width = Fin 1000, height = Fin 500\<rparr>" 1000 500]
  by (simp add: spec_fillPercent_def)

text \<open>
  Claim C7. When the trace width is falsy (zero or \<open>NaN\<close>) the function returns its
  initial result, scale 1 and no positions, whatever the count and the area are, and it
  has evaluated no division by then: the guard is the first statement of the function,
  and every quotient is computed after it. So the result is finite also when the area's
  width is zero as well.
\<close>

theorem layout_degenerate:
  "\<not> truthy (width tb) \<Longrightarrow>
     getDuplicationLayout count tb gb = \<lparr>scale = Fin 1, positions = []\<rparr>
     \<and> layout_divisors count tb gb = []"
  by (simp add: getDuplicationLayout_def layout_divisors_def)

theorem layout_degenerate_witness:
  "\<not> truthy (width \<lparr>width = Fin 0, height = Fin 0\<rparr>) \<and>
   getDuplicationLayout 2 \<lparr>width = Fin 0, height = Fin 0\<rparr> \<lparr>width = Fin 0, height = Fin 7\<rparr>
     = \<lparr>scale = Fin 1, positions = []\<rparr> \<and>
   layout_divisors 2 \<lparr>width = Fin 0, height = Fin 0\<rparr> \<lparr>width = Fin 0, height = Fin 7\<rparr> = []"
  using layout_degenerate [of "\<lparr>width = Fin 0, height = Fin 0\<rparr>" 2
      "\<lparr>width = Fin 0, height = Fin 7\<rparr>"]
  by simp

section \<open>Properties of the colour parser\<close>

lemma contains_single: "contains [c] s = (c \<in> set s)"
  by (induction s) (auto simp add: starts_with_def)

lemma contains_rgb_has_r: "contains ''rgb'' s \<Longrightarrow> CHR ''r'' \<in> set s"
  by (induction s) (auto simp add: starts_with_def)

lemma hex_val_le: "hex_val c \<le> 15"
  by (simp add: hex_val_def)

lemma hex_digit_not_r: "is_hex_digit c \<Longrightarrow> c \<noteq> CHR ''r'' \<and> c \<noteq> CHR ''#''"
  by (auto simp add: is_hex_digit_def)

lemma all_hex_no_r: "list_all is_hex_digit t \<Longrightarrow> CHR ''r'' \<notin> set t \<and> CHR ''#'' \<notin> set t"
  by (induction t) (auto dest: hex_digit_not_r)

lemma hex_color_no_rgb: "hex_color s \<Longrightarrow> \<not> contains ''rgb'' s"
proof
  assume h: "hex_color s" and c: "contains ''rgb'' s"
  from h obtain t where s: "s = CHR ''#'' # t" and t: "list_all is_hex_digit t"
    by (cases s) (auto simp add: hex_color_def)
  from c have "CHR ''r'' \<in> set s" by (rule contains_rgb_has_r)
  with s all_hex_no_r[OF t] show False by simp
qed

lemma length3: "length t = 3 \<Longrightarrow> \<exists>a b c. t = [a, b, c]"
  by (auto simp add: numeral_3_eq_3 length_Suc_conv)

lemma length6: "length t = 6 \<Longrightarrow> \<exists>a b c d e f. t = [a, b, c, d, e, f]"
proof -
  assume "length t = 6"
  then have "length t = Suc (Suc (Suc (Suc (Suc (Suc 0)))))" by simp
  then show ?thesis by (auto simp add: length_Suc_conv)
qed

text \<open>The three-digit form: each digit is doubled, so a digit \<open>h\<close> yields \<open>17 * h\<close>.\<close>

lemma color_hex3:
  assumes "list_all is_hex_digit [a, b, c]"
  shows "colorStringToArray (JString [CHR ''#'', a, b, c])
     = Some [Fin (real (17 * hex_val a)), Fin (real (17 * hex_val b)), Fin (real (17 * hex_val c))]"
proof -
  have nr: "\<not> contains ''rgb'' [CHR ''#'', a, b, c]"
    using hex_color_no_rgb[of "[CHR ''#'', a, b, c]"] assms by (simp add: hex_color_def)
  have ex: "expand_shorthand [CHR ''#'', a, b, c] = [a, a, b, b, c, c]"
    using assms by (simp add: expand_shorthand_def strip_hash_def)
  have e6: "exec_hex6 [a, a, b, b, c, c] = Some ([a, a], [b, b], [c, c])"
    using assms hex_digit_not_r[of a] by (simp add: exec_hex6_def strip_hash_def)
  have ch: "contains ''#'' (CHR ''#'' # t)" for t
    by (simp add: starts_with_def)
  show ?thesis
    by (simp add: colorStringToArray_def nr ch ex e6 parseInt16_def digits_val_def
        del: contains.simps)
qed

lemma color_hex6:
  assumes "list_all is_hex_digit [a, b, c, d, e, f]"
  shows "colorStringToArray (JString [CHR ''#'', a, b, c, d, e, f])
     = Some [Fin (real (16 * hex_val a + hex_val b)), Fin (real (16 * hex_val c + hex_val d)),
             Fin (real (16 * hex_val e + hex_val f))]"
proof -
  have nr: "\<not> contains ''rgb'' [CHR ''#'', a, b, c, d, e, f]"
    using hex_color_no_rgb[of "[CHR ''#'', a, b, c, d, e, f]"] assms by (simp add: hex_color_def)
  have ex: "expand_shorthand [CHR ''#'', a, b, c, d, e, f] = [CHR ''#'', a, b, c, d, e, f]"
    by (simp add: expand_shorthand_def strip_hash_def)
  have e6: "exec_hex6 [CHR ''#'', a, b, c, d, e, f] = Some ([a, b], [c, d], [e, f])"
    using assms by (simp add: exec_hex6_def strip_hash_def)
  have ch: "contains ''#'' (CHR ''#'' # t)" for t
    by (simp add: starts_with_def)
  show ?thesis
    by (simp add: colorStringToArray_def nr ch ex e6 parseInt16_def digits_val_def
        del: contains.simps)
qed

text \<open>A string without \<open>rgb\<close> that is no hexadecimal colour is not parsed.\<close>

lemma color_other_none:
  assumes nr: "\<not> contains ''rgb'' s" and nh: "\<not> hex_color s"
  shows "colorStringToArray (JString s) = None"
proof (cases "contains ''#'' s")
  case False
  with nr show ?thesis by (simp add: colorStringToArray_def)
next
  case True
  then have mem: "CHR ''#'' \<in> set s" by (simp add: contains_single)
  have strip: "list_all is_hex_digit (strip_hash s) \<Longrightarrow> s = CHR ''#'' # strip_hash s"
  proof -
    assume a: "list_all is_hex_digit (strip_hash s)"
    show ?thesis
    proof (cases "s \<noteq> [] \<and> hd s = CHR ''#''")
      case True then show ?thesis by (cases s) (auto simp add: strip_hash_def)
    next
      case False
      then have "strip_hash s = s" by (auto simp add: strip_hash_def)
      with a all_hex_no_r[of s] mem show ?thesis by simp
    qed
  qed
  have ex: "expand_shorthand s = s"
  proof -
    have "\<not> (length (strip_hash s) = 3 \<and> list_all is_hex_digit (strip_hash s))"
    proof
      assume a: "length (strip_hash s) = 3 \<and> list_all is_hex_digit (strip_hash s)"
      then have "s = CHR ''#'' # strip_hash s" using strip by simp
      then have "hex_color s" using a by (cases s) (auto simp add: hex_color_def)
      with nh show False by simp
    qed
    then show ?thesis by (auto simp add: expand_shorthand_def Let_def)
  qed
  have e6: "exec_hex6 s = None"
  proof -
    have "\<not> (length (strip_hash s) = 6 \<and> list_all is_hex_digit (strip_hash s))"
    proof
      assume a: "length (strip_hash s) = 6 \<and> list_all is_hex_digit (strip_hash s)"
      then have "s = CHR ''#'' # strip_hash s" using strip by simp
      then have "hex_color s" using a by (cases s) (auto simp add: hex_color_def)
      with nh show False by simp
    qed
    then show ?thesis by (auto simp add: exec_hex6_def Let_def)
  qed
  show ?thesis using nr True by (simp add: colorStringToArray_def ex e6)
qed

text \<open>A hexadecimal colour is parsed to three integers within 0 and 255.\<close>

lemma color_hex_range:
  assumes "hex_color s"
  shows "\<exists>r g b. colorStringToArray (JString s) = Some [Fin (real r), Fin (real g), Fin (real b)]
           \<and> r \<le> 255 \<and> g \<le> 255 \<and> b \<le> (255::nat)"
proof -
  from assms obtain t where s: "s = CHR ''#'' # t" and t: "list_all is_hex_digit t"
      and len: "length t = 3 \<or> length t = 6"
    by (cases s) (auto simp add: hex_color_def)
  from len show ?thesis
  proof
    assume "length t = 3"
    then obtain a b c where abc: "t = [a, b, c]" using length3 by blast
    have "17 * hex_val a \<le> 255" "17 * hex_val b \<le> 255" "17 * hex_val c \<le> 255"
      using hex_val_le[of a] hex_val_le[of b] hex_val_le[of c] by simp_all
    then show ?thesis using color_hex3[of a b c] t abc s by blast
  next
    assume "length t = 6"
    then obtain a b c d e f where abc: "t = [a, b, c, d, e, f]" using length6 by blast
    have "16 * hex_val a + hex_val b \<le> 255" "16 * hex_val c + hex_val d \<le> 255"
         "16 * hex_val e + hex_val f \<le> 255"
      using hex_val_le[of a] hex_val_le[of b] hex_val_le[of c] hex_val_le[of d]
        hex_val_le[of e] hex_val_le[of f] by simp_all
    then show ?thesis using color_hex6[of a b c d e f] t abc s by blast
  qed
qed

lemmas color_eval =
  colorStringToArray_def starts_with_def exec_hex6_def expand_shorthand_def strip_hash_def
  is_hex_digit_def parseInt16_def digits_val_def hex_val_def js_slice_def js_Number_def
  trim_def is_space_def str_unsigned_decimal_def is_digit_def radix_literal_def
  nth_num_def Let_def

text \<open>
  Claim C8, as amended. \<open>colorStringToArray\<close> returns absent for a non-string input and
  for every string that neither contains \<open>rgb\<close> nor is a hexadecimal colour (\<open>#\<close> and
  exactly three or six hex digits). A hexadecimal colour yields three integers within 0
  and 255, the three-digit form being read as the six-digit form with each digit doubled.
  A string that contains \<open>rgb\<close> anywhere always yields an array: the pieces between
  the commas of its characters from index 4 up to the last one, each converted by
  \<open>Number\<close>; for a well-formed \<open>rgb(r,g,b)\<close> these are \<open>r\<close>, \<open>g\<close> and \<open>b\<close>, unchecked
  for their range. \<open>#FFFFFF\<close> yields 255, 255, 255; \<open>#03F\<close> yields 0, 51, 255;
  \<open>not-a-color\<close> yields absent.
\<close>

theorem colorStringToArray_cases:
  "colorStringToArray JNull = None
   \<and> colorStringToArray (JNumArray a) = None
   \<and> (\<not> contains ''rgb'' s1 \<and> \<not> hex_color s1 \<longrightarrow> colorStringToArray (JString s1) = None)
   \<and> (hex_color s2 \<longrightarrow>
        (\<exists>r g b. colorStringToArray (JString s2) = Some [Fin (real r), Fin (real g), Fin (real b)]
           \<and> r \<le> 255 \<and> g \<le> 255 \<and> b \<le> (255::nat)))
   \<and> (list_all is_hex_digit [x, y, z] \<longrightarrow>
        colorStringToArray (JString [CHR ''#'', x, y, z])
          = colorStringToArray (JString [CHR ''#'', x, x, y, y, z, z]))
   \<and> (contains ''rgb'' s3 \<longrightarrow>
        colorStringToArray (JString s3)
          = Some (map js_Number (split_on CHR '','' (js_slice 4 (- 1) s3))))
   \<and> colorStringToArray (JString ''rgb(0, 51,255)'') = Some [Fin 0, Fin 51, Fin 255]
   \<and> colorStringToArray (JString ''#FFFFFF'') = Some [Fin 255, Fin 255, Fin 255]
   \<and> colorStringToArray (JString ''#03F'') = Some [Fin 0, Fin 51, Fin 255]
   \<and> colorStringToArray (JString ''not-a-color'') = None"
proof (intro conjI impI)
  show "colorStringToArray JNull = None"
    by (simp add: colorStringToArray_def)
  show "colorStringToArray (JNumArray a) = None"
    by (simp add: colorStringToArray_def)
  show "colorStringToArray (JString s1) = None"
    if "\<not> contains ''rgb'' s1 \<and> \<not> hex_color s1"
    using that color_other_none by blast
  show "\<exists>r g b. colorStringToArray (JString s2) = Some [Fin (real r), Fin (real g), Fin (real b)]
           \<and> r \<le> 255 \<and> g \<le> 255 \<and> b \<le> (255::nat)"
    if "hex_color s2"
    using that by (rule color_hex_range)
  show "colorStringToArray (JString [CHR ''#'', x, y, z])
          = colorStringToArray (JString [CHR ''#'', x, x, y, y, z, z])"
    if "list_all is_hex_digit [x, y, z]"
    using that color_hex3[of x y z] color_hex6[of x x y y z z] by simp
  show "colorStringToArray (JString s3)
          = Some (map js_Number (split_on CHR '','' (js_slice 4 (- 1) s3)))"
    if "contains ''rgb'' s3"
    using that by (simp add: colorStringToArray_def)
  show "colorStringToArray (JString ''rgb(0, 51,255)'') = Some [Fin 0, Fin 51, Fin 255]"
    by (simp add: color_eval)
  show "colorStringToArray (JString ''#FFFFFF'') = Some [Fin 255, Fin 255, Fin 255]"
    by (simp add: color_eval)
  show "colorStringToArray (JString ''#03F'') = Some [Fin 0, Fin 51, Fin 255]"
    by (simp add: color_eval)
  show "colorStringToArray (JString ''not-a-color'') = None"
    by (simp add: color_eval)
qed

theorem colorStringToArray_cases_witness:
  "\<not> contains ''rgb'' ''#12'' \<and> \<not> hex_color ''#12''
   \<and> colorStringToArray (JString ''#12'') = None
   \<and> hex_color ''#a0B''
   \<and> colorStringToArray (JString ''#a0B'') = Some [Fin 170, Fin 0, Fin 187]
   \<and> list_all is_hex_digit ''a0B''
   \<and> colorStringToArray (JString ''#aa00BB'') = Some [Fin 170, Fin 0, Fin 187]
   \<and> contains ''rgb'' ''rgb(7,8,9)''
   \<and> colorStringToArray (JString ''rgb(7,8,9)'') = Some [Fin 7, Fin 8, Fin 9]"
  using colorStringToArray_cases [of "[]" "''#12''" "''#a0B''" "CHR ''a''" "CHR ''0''" "CHR ''B''"
      "''rgb(7,8,9)''"]
  by (simp add: hex_color_def color_eval)

text \<open>
  The claim as the specification words it fails on strings that contain \<open>rgb\<close>: the
  bare word \<open>rgb\<close> is no colour form and yet yields the one-element array \<open>[0]\<close>, and
  \<open>rgb(300,0,0)\<close> yields a component outside 0 to 255.
\<close>

theorem colorStringToArray_rgb_counterexample:
  "colorStringToArray (JString ''rgb'') = Some [Fin 0]
   \<and> colorStringToArray (JString ''rgb(300,0,0)'') = Some [Fin 300, Fin 0, Fin 0]"
  by (simp add: color_eval)


section \<open>Properties of the colour conversion\<close>

subsection \<open>Evaluating a rounding\<close>

text \<open>
  The double nearest to a value of known binary exponent, with powers of natural
  exponent only: for a value of magnitude at least 1, and for one below 2.
\<close>

lemma floor_log2:
  assumes "2 powr of_int e \<le> x" and "x < 2 powr of_int (e + 1)"
  shows "\<lfloor>log 2 x\<rfloor> = e"
proof -
  have "0 < (2::real) powr of_int e" by simp
  with assms(1) have pos: "0 < x" by linarith
  have "of_int e \<le> log 2 x" using assms(1) pos by (simp add: le_log_iff)
  moreover have "log 2 x < of_int e + 1" using assms(2) pos by (simp add: log_less_iff)
  ultimately show ?thesis by (simp add: floor_eq_iff)
qed

lemma round_even_bounds: "y - 1 \<le> of_int (round_even y) \<and> of_int (round_even y) \<le> y + 1"
  unfolding round_even_def by (auto; linarith)

lemma dbl_real_at:
  assumes "2 powr of_int e \<le> \<bar>x\<bar>" and "\<bar>x\<bar> < 2 powr of_int (e + 1)" and "- 1022 \<le> e"
  shows "dbl_real x = of_int (round_even (x / 2 powr of_int (e - 52))) * 2 powr of_int (e - 52)"
proof -
  have e: "\<lfloor>log 2 \<bar>x\<bar>\<rfloor> = e" using floor_log2[OF assms(1,2)] .
  have "0 < (2::real) powr of_int e" by simp
  with assms(1) have nz: "x \<noteq> 0" by auto
  have "dbl_exp x = e - 52" using e assms(3) by (simp add: dbl_exp_def)
  then show ?thesis using nz by (simp add: dbl_real_def)
qed


lemma powr_int_nat: "(2::real) powr of_int (int n) = 2 ^ n"
  by (simp add: powr_realpow)

lemma powr_int_neg: "(2::real) powr of_int (- int n) = 1 / 2 ^ n"
  by (simp add: powr_minus powr_realpow divide_inverse)

lemma powr_real_neg: "(2::real) powr (- real n) = 1 / 2 ^ n"
  by (simp add: powr_minus powr_realpow divide_inverse)

lemma dbl_fin:
  assumes "\<bar>dbl_real x\<bar> < 2 ^ 1024"
  shows "dbl x = Fin (dbl_real x)"
proof -
  from assms have "\<not> 2 ^ 1024 \<le> \<bar>dbl_real x\<bar>" by (simp only: not_le)
  then show ?thesis unfolding dbl_def by (rule if_not_P)
qed

lemma scaled_round_small:
  assumes "\<bar>x\<bar> < 2 ^ 54" 
  shows "\<bar>of_int (round_even (x * 2 ^ k)) / 2 ^ k\<bar> < (2::real) ^ 1024"
proof -
  have p: "0 < (2::real) ^ k" by simp
  from round_even_bounds[of "x * 2 ^ k"]
  have "\<bar>of_int (round_even (x * 2 ^ k))\<bar> \<le> \<bar>x * 2 ^ k\<bar> + 1" by linarith
  then have "\<bar>of_int (round_even (x * 2 ^ k)) / 2 ^ k\<bar> \<le> (\<bar>x * 2 ^ k\<bar> + 1) / 2 ^ k"
    using p by (simp add: divide_right_mono abs_divide del: of_int_abs)
  also have "\<dots> = \<bar>x\<bar> + 1 / 2 ^ k" using p by (simp add: abs_mult add_divide_distrib)
  also have "\<dots> \<le> \<bar>x\<bar> + 1" by (simp add: divide_le_eq_1)
  also have "\<dots> < 2 ^ 54 + 1" using assms by simp
  also have "\<dots> \<le> (2::real) ^ 55" by simp
  also have "\<dots> \<le> 2 ^ 1024" by (rule power_increasing) simp_all
  finally show ?thesis .
qed

lemma dbl_at_ge1:
  assumes "2 ^ n \<le> \<bar>x\<bar>" and "\<bar>x\<bar> < 2 * 2 ^ n" and "n \<le> 52"
  shows "dbl x = Fin (of_int (round_even (x * 2 ^ (52 - n))) / 2 ^ (52 - n))"
proof -
  have a: "2 powr of_int (int n) \<le> \<bar>x\<bar>" using assms(1) by (simp only: powr_int_nat)
  have "(2::real) powr of_int (int n + 1) = 2 * 2 ^ n"
    using powr_int_nat[of "Suc n"] by (simp add: add.commute)
  then have b: "\<bar>x\<bar> < 2 powr of_int (int n + 1)" using assms(2) by simp
  have eq: "int n - 52 = - int (52 - n)" using assms(3) by simp
  have sc: "(2::real) powr of_int (int n - 52) = 1 / 2 ^ (52 - n)"
    unfolding eq by (rule powr_int_neg)
  have e: "- 1022 \<le> int n" by simp
  have r: "dbl_real x = of_int (round_even (x * 2 ^ (52 - n))) / 2 ^ (52 - n)"
    using dbl_real_at[OF a b e] unfolding sc by simp
  have "(2::real) * 2 ^ n \<le> 2 ^ 54"
    using power_increasing[of "Suc n" 54 "2::real"] assms(3) by simp
  with assms(2) have "\<bar>x\<bar> < 2 ^ 54" by linarith
  then have "\<bar>dbl_real x\<bar> < 2 ^ 1024"
    unfolding r by (rule scaled_round_small)
  then have "dbl x = Fin (dbl_real x)" by (rule dbl_fin)
  then show ?thesis unfolding r .
qed

lemma dbl_at_lt1:
  assumes "1 \<le> \<bar>x\<bar> * 2 ^ m" and "\<bar>x\<bar> * 2 ^ m < 2" and "m \<le> 1022"
  shows "dbl x = Fin (of_int (round_even (x * 2 ^ (52 + m))) / 2 ^ (52 + m))"
proof -
  have p: "0 < (2::real) ^ m" by simp
  have a: "2 powr of_int (- int m) \<le> \<bar>x\<bar>"
    unfolding powr_int_neg using assms(1) p by (simp add: pos_divide_le_eq)
  have b1: "(2::real) powr of_int (- int m + 1) = 2 / 2 ^ m"
  proof -
    have "of_int (- int m + 1) = of_int (- int m) + (1::real)" by simp
    then have "(2::real) powr of_int (- int m + 1) = 2 powr of_int (- int m) * 2 powr 1"
      by (simp only: powr_add)
    also have "\<dots> = 1 / 2 ^ m * 2" unfolding powr_int_neg by simp
    finally show ?thesis by simp
  qed
  have b: "\<bar>x\<bar> < 2 powr of_int (- int m + 1)"
    unfolding b1 using assms(2) p by (simp add: pos_less_divide_eq)
  have eq: "- int m - 52 = - int (52 + m)" by simp
  have sc: "(2::real) powr of_int (- int m - 52) = 1 / 2 ^ (52 + m)"
    unfolding eq by (rule powr_int_neg)
  have e: "- 1022 \<le> - int m" using assms(3) by simp
  have r: "dbl_real x = of_int (round_even (x * 2 ^ (52 + m))) / 2 ^ (52 + m)"
    using dbl_real_at[OF a b e] unfolding sc by simp
  have "\<bar>x\<bar> < 2 / 2 ^ m" using assms(2) p by (simp add: pos_less_divide_eq)
  also have "\<dots> \<le> 2" using p by (simp add: divide_le_eq)
  finally have "\<bar>x\<bar> < 2 ^ 54" by simp
  then have "\<bar>dbl_real x\<bar> < 2 ^ 1024"
    unfolding r by (rule scaled_round_small)
  then have "dbl x = Fin (dbl_real x)" by (rule dbl_fin)
  then show ?thesis unfolding r .
qed

lemma dbl_zero: "dbl 0 = Fin 0"
proof -
  have "dbl_real 0 = 0" by (simp add: dbl_real_def)
  then have "\<bar>dbl_real 0\<bar> < 2 ^ 1024" by (simp only: abs_zero zero_less_power zero_less_numeral)
  then have "dbl 0 = Fin (dbl_real 0)" by (rule dbl_fin)
  then show ?thesis by (simp only: \<open>dbl_real 0 = 0\<close>)
qed

subsection \<open>The constants\<close>

lemmas coef_defs =
  coef_yr_def coef_yg_def coef_yb_def coef_ur_def coef_ug_def coef_half_def coef_vg_def
  coef_vb_def

lemma lit_yr: "dbl 0.299000 = Fin coef_yr"
  using dbl_at_lt1[of "0.299000" 2] by (simp add: coef_yr_def round_even_def)

lemma lit_yg: "dbl 0.587000 = Fin coef_yg"
  using dbl_at_lt1[of "0.587000" 1] by (simp add: coef_yg_def round_even_def)

lemma lit_yb: "dbl 0.114000 = Fin coef_yb"
  using dbl_at_lt1[of "0.114000" 4] by (simp add: coef_yb_def round_even_def)

lemma lit_ur: "dbl 0.168736 = Fin coef_ur"
  using dbl_at_lt1[of "0.168736" 3] by (simp add: coef_ur_def round_even_def)

lemma lit_ug: "dbl 0.331264 = Fin coef_ug"
  using dbl_at_lt1[of "0.331264" 2] by (simp add: coef_ug_def round_even_def)

lemma lit_half: "dbl 0.500000 = Fin coef_half"
  using dbl_at_lt1[of "0.500000" 1] by (simp add: coef_half_def round_even_def)

lemma lit_vg: "dbl 0.418688 = Fin coef_vg"
  using dbl_at_lt1[of "0.418688" 2] by (simp add: coef_vg_def round_even_def)

lemma lit_vb: "dbl 0.081312 = Fin coef_vb"
  using dbl_at_lt1[of "0.081312" 4] by (simp add: coef_vb_def round_even_def)


subsection \<open>The conversion of single colours\<close>

text \<open>
  The conversion of a colour of three finite components, from the values of its
  seventeen rounded operations.
\<close>

lemma rgbToYUV_steps:
  assumes "dmul (Fin r) (Fin coef_yr) = Fin y1"
    and "dmul (Fin g) (Fin coef_yg) = Fin y2"
    and "dadd (Fin y1) (Fin y2) = Fin y3"
    and "dmul (Fin b) (Fin coef_yb) = Fin y4"
    and "dadd (Fin y3) (Fin y4) = Fin y"
    and "dmul (Fin r) (Fin (- coef_ur)) = Fin u1"
    and "dmul (Fin g) (Fin (- coef_ug)) = Fin u2"
    and "dadd (Fin u1) (Fin u2) = Fin u3"
    and "dmul (Fin b) (Fin coef_half) = Fin u4"
    and "dadd (Fin u3) (Fin u4) = Fin u5"
    and "dadd (Fin u5) (Fin 128) = Fin u"
    and "dmul (Fin r) (Fin coef_half) = Fin v1"
    and "dmul (Fin g) (Fin (- coef_vg)) = Fin v2"
    and "dadd (Fin v1) (Fin v2) = Fin v3"
    and "dmul (Fin b) (Fin (- coef_vb)) = Fin v4"
    and "dadd (Fin v3) (Fin v4) = Fin v5"
    and "dadd (Fin v5) (Fin 128) = Fin v"
  shows "rgbToYUV (Some [Fin r, Fin g, Fin b])
     = Some (Fin (of_int \<lfloor>y\<rfloor>), Fin (of_int \<lfloor>u\<rfloor>), Fin (of_int \<lfloor>v\<rfloor>))"
  unfolding rgbToYUV_def lit_yr lit_yg lit_yb lit_ur lit_ug lit_half lit_vg lit_vb
  by (simp add: nth_num_def Let_def assms del: dmul.simps dadd.simps)

lemma yuv_white:
  "rgbToYUV (Some [Fin 255, Fin 255, Fin 255]) = Some (Fin 255, Fin 128, Fin 128)"
proof -
  have s1: "dmul (Fin 255) (Fin coef_yr) = Fin (5365264899825991 / 70368744177664)"
    using dbl_at_ge1[of 6 "255 * coef_yr"]
    by (simp add: coef_defs round_even_def)
  have s2: "dmul (Fin 255) (Fin coef_yg) = Fin (2633286368058409 / 17592186044416)"
    using dbl_at_ge1[of 7 "255 * coef_yg"]
    by (simp add: coef_defs round_even_def)
  have s3:
    "dadd (Fin (5365264899825991 / 70368744177664)) (Fin (2633286368058409 / 17592186044416))
       = Fin (3974602593014907 / 17592186044416)"
    using dbl_at_ge1[of 7 "5365264899825991 / 70368744177664 + 2633286368058409 / 17592186044416"]
    by (simp add: coef_defs round_even_def)
  have s4: "dmul (Fin 255) (Fin coef_yb) = Fin (4091238786489385 / 140737488355328)"
    using dbl_at_ge1[of 4 "255 * coef_yb"]
    by (simp add: coef_defs round_even_def)
  have s5:
    "dadd (Fin (3974602593014907 / 17592186044416)) (Fin (4091238786489385 / 140737488355328))
       = Fin 255"
    using dbl_at_ge1[of 7 "3974602593014907 / 17592186044416 + 4091238786489385 / 140737488355328"]
    by (simp add: coef_defs round_even_def)
  have s6: "dmul (Fin 255) (Fin (- coef_ur)) = Fin (- (6055607612956779 / 140737488355328))"
    using dbl_at_ge1[of 5 "255 * (- coef_ur)"]
    by (simp add: coef_defs round_even_def)
  have s7: "dmul (Fin 255) (Fin (- coef_ug)) = Fin (- (2972105538086885 / 35184372088832))"
    using dbl_at_ge1[of 6 "255 * (- coef_ug)"]
    by (simp add: coef_defs round_even_def)
  have s8:
    "dadd (Fin (- (6055607612956779 / 140737488355328))) (Fin (- (2972105538086885 / 35184372088832)))
       = Fin (- (255 / 2))"
    using dbl_at_ge1[of 6 "(- (6055607612956779 / 140737488355328)) + (- (2972105538086885 / 35184372088832))"]
    by (simp add: coef_defs round_even_def)
  have s9: "dmul (Fin 255) (Fin coef_half) = Fin (255 / 2)"
    using dbl_at_ge1[of 6 "255 * coef_half"]
    by (simp add: coef_defs round_even_def)
  have s10: "dadd (Fin (- (255 / 2))) (Fin (255 / 2)) = Fin 0"
    using dbl_zero by (simp add: coef_defs)
  have s11: "dadd (Fin 0) (Fin 128) = Fin 128"
    using dbl_at_ge1[of 7 "0 + 128"]
    by (simp add: coef_defs round_even_def)
  have s12: "dmul (Fin 255) (Fin coef_half) = Fin (255 / 2)"
    using dbl_at_ge1[of 6 "255 * coef_half"]
    by (simp add: coef_defs round_even_def)
  have s13: "dmul (Fin 255) (Fin (- coef_vg)) = Fin (- (7512949934375735 / 70368744177664))"
    using dbl_at_ge1[of 6 "255 * (- coef_vg)"]
    by (simp add: coef_defs round_even_def)
  have s14:
    "dadd (Fin (255 / 2)) (Fin (- (7512949934375735 / 70368744177664)))
       = Fin (1459064948276425 / 70368744177664)"
    using dbl_at_ge1[of 4 "255 / 2 + (- (7512949934375735 / 70368744177664))"]
    by (simp add: coef_defs round_even_def)
  have s15: "dmul (Fin 255) (Fin (- coef_vb)) = Fin (- (5836259793105699 / 281474976710656))"
    using dbl_at_ge1[of 4 "255 * (- coef_vb)"]
    by (simp add: coef_defs round_even_def)
  have s16:
    "dadd (Fin (1459064948276425 / 70368744177664)) (Fin (- (5836259793105699 / 281474976710656)))
       = Fin (1 / 281474976710656)"
    using dbl_at_lt1[of "1459064948276425 / 70368744177664 + (- (5836259793105699 / 281474976710656))" 48]
    by (simp add: coef_defs round_even_def)
  have s17: "dadd (Fin (1 / 281474976710656)) (Fin 128) = Fin 128"
    using dbl_at_ge1[of 7 "1 / 281474976710656 + 128"]
    by (simp add: coef_defs round_even_def)
  show ?thesis
    using rgbToYUV_steps[OF s1 s2 s3 s4 s5 s6 s7 s8 s9
        s10 s11 s12 s13 s14 s15 s16 s17]
    by simp
qed

lemma yuv_black:
  "rgbToYUV (Some [Fin 0, Fin 0, Fin 0]) = Some (Fin 0, Fin 128, Fin 128)"
proof -
  have s1: "dmul (Fin 0) (Fin coef_yr) = Fin 0"
    using dbl_zero by (simp add: coef_defs)
  have s2: "dmul (Fin 0) (Fin coef_yg) = Fin 0"
    using dbl_zero by (simp add: coef_defs)
  have s3: "dadd (Fin 0) (Fin 0) = Fin 0"
    using dbl_zero by (simp add: coef_defs)
  have s4: "dmul (Fin 0) (Fin coef_yb) = Fin 0"
    using dbl_zero by (simp add: coef_defs)
  have s5: "dadd (Fin 0) (Fin 0) = Fin 0"
    using dbl_zero by (simp add: coef_defs)
  have s6: "dmul (Fin 0) (Fin (- coef_ur)) = Fin 0"
    using dbl_zero by (simp add: coef_defs)
  have s7: "dmul (Fin 0) (Fin (- coef_ug)) = Fin 0"
    using dbl_zero by (simp add: coef_defs)
  have s8: "dadd (Fin 0) (Fin 0) = Fin 0"
    using dbl_zero by (simp add: coef_defs)
  have s9: "dmul (Fin 0) (Fin coef_half) = Fin 0"
    using dbl_zero by (simp add: coef_defs)
  have s10: "dadd (Fin 0) (Fin 0) = Fin 0"
    using dbl_zero by (simp add: coef_defs)
  have s11: "dadd (Fin 0) (Fin 128) = Fin 128"
    using dbl_at_ge1[of 7 "0 + 128"]
    by (simp add: coef_defs round_even_def)
  have s12: "dmul (Fin 0) (Fin coef_half) = Fin 0"
    using dbl_zero by (simp add: coef_defs)
  have s13: "dmul (Fin 0) (Fin (- coef_vg)) = Fin 0"
    using dbl_zero by (simp add: coef_defs)
  have s14: "dadd (Fin 0) (Fin 0) = Fin 0"
    using dbl_zero by (simp add: coef_defs)
  have s15: "dmul (Fin 0) (Fin (- coef_vb)) = Fin 0"
    using dbl_zero by (simp add: coef_defs)
  have s16: "dadd (Fin 0) (Fin 0) = Fin 0"
    using dbl_zero by (simp add: coef_defs)
  have s17: "dadd (Fin 0) (Fin 128) = Fin 128"
    using dbl_at_ge1[of 7 "0 + 128"]
    by (simp add: coef_defs round_even_def)
  show ?thesis
    using rgbToYUV_steps[OF s1 s2 s3 s4 s5 s6 s7 s8 s9
        s10 s11 s12 s13 s14 s15 s16 s17]
    by simp
qed

lemma yuv_red:
  "rgbToYUV (Some [Fin 255, Fin 0, Fin 0]) = Some (Fin 76, Fin 84, Fin 255)"
proof -
  have s1: "dmul (Fin 255) (Fin coef_yr) = Fin (5365264899825991 / 70368744177664)"
    using dbl_at_ge1[of 6 "255 * coef_yr"]
    by (simp add: coef_defs round_even_def)
  have s2: "dmul (Fin 0) (Fin coef_yg) = Fin 0"
    using dbl_zero by (simp add: coef_defs)
  have s3:
    "dadd (Fin (5365264899825991 / 70368744177664)) (Fin 0)
       = Fin (5365264899825991 / 70368744177664)"
    using dbl_at_ge1[of 6 "5365264899825991 / 70368744177664 + 0"]
    by (simp add: coef_defs round_even_def)
  have s4: "dmul (Fin 0) (Fin coef_yb) = Fin 0"
    using dbl_zero by (simp add: coef_defs)
  have s5:
    "dadd (Fin (5365264899825991 / 70368744177664)) (Fin 0)
       = Fin (5365264899825991 / 70368744177664)"
    using dbl_at_ge1[of 6 "5365264899825991 / 70368744177664 + 0"]
    by (simp add: coef_defs round_even_def)
  have s6: "dmul (Fin 255) (Fin (- coef_ur)) = Fin (- (6055607612956779 / 140737488355328))"
    using dbl_at_ge1[of 5 "255 * (- coef_ur)"]
    by (simp add: coef_defs round_even_def)
  have s7: "dmul (Fin 0) (Fin (- coef_ug)) = Fin 0"
    using dbl_zero by (simp add: coef_defs)
  have s8:
    "dadd (Fin (- (6055607612956779 / 140737488355328))) (Fin 0)
       = Fin (- (6055607612956779 / 140737488355328))"
    using dbl_at_ge1[of 5 "(- (6055607612956779 / 140737488355328)) + 0"]
    by (simp add: coef_defs round_even_def)
  have s9: "dmul (Fin 0) (Fin coef_half) = Fin 0"
    using dbl_zero by (simp add: coef_defs)
  have s10:
    "dadd (Fin (- (6055607612956779 / 140737488355328))) (Fin 0)
       = Fin (- (6055607612956779 / 140737488355328))"
    using dbl_at_ge1[of 5 "(- (6055607612956779 / 140737488355328)) + 0"]
    by (simp add: coef_defs round_even_def)
  have s11:
    "dadd (Fin (- (6055607612956779 / 140737488355328))) (Fin 128)
       = Fin (2989697724131301 / 35184372088832)"
    using dbl_at_ge1[of 6 "(- (6055607612956779 / 140737488355328)) + 128"]
    by (simp add: coef_defs round_even_def)
  have s12: "dmul (Fin 255) (Fin coef_half) = Fin (255 / 2)"
    using dbl_at_ge1[of 6 "255 * coef_half"]
    by (simp add: coef_defs round_even_def)
  have s13: "dmul (Fin 0) (Fin (- coef_vg)) = Fin 0"
    using dbl_zero by (simp add: coef_defs)
  have s14: "dadd (Fin (255 / 2)) (Fin 0) = Fin (255 / 2)"
    using dbl_at_ge1[of 6 "255 / 2 + 0"]
    by (simp add: coef_defs round_even_def)
  have s15: "dmul (Fin 0) (Fin (- coef_vb)) = Fin 0"
    using dbl_zero by (simp add: coef_defs)
  have s16: "dadd (Fin (255 / 2)) (Fin 0) = Fin (255 / 2)"
    using dbl_at_ge1[of 6 "255 / 2 + 0"]
    by (simp add: coef_defs round_even_def)
  have s17: "dadd (Fin (255 / 2)) (Fin 128) = Fin (511 / 2)"
    using dbl_at_ge1[of 7 "255 / 2 + 128"]
    by (simp add: coef_defs round_even_def)
  show ?thesis
    using rgbToYUV_steps[OF s1 s2 s3 s4 s5 s6 s7 s8 s9
        s10 s11 s12 s13 s14 s15 s16 s17]
    by simp
qed

lemma yuv_dark_red:
  "rgbToYUV (Some [Fin 10, Fin 0, Fin 0]) = Some (Fin 2, Fin 126, Fin 133)"
proof -
  have s1: "dmul (Fin 10) (Fin coef_yr) = Fin (6732881442918891 / 2251799813685248)"
    using dbl_at_ge1[of 1 "10 * coef_yr"]
    by (simp add: coef_defs round_even_def)
  have s2: "dmul (Fin 0) (Fin coef_yg) = Fin 0"
    using dbl_zero by (simp add: coef_defs)
  have s3:
    "dadd (Fin (6732881442918891 / 2251799813685248)) (Fin 0)
       = Fin (6732881442918891 / 2251799813685248)"
    using dbl_at_ge1[of 1 "6732881442918891 / 2251799813685248 + 0"]
    by (simp add: coef_defs round_even_def)
  have s4: "dmul (Fin 0) (Fin coef_yb) = Fin 0"
    using dbl_zero by (simp add: coef_defs)
  have s5:
    "dadd (Fin (6732881442918891 / 2251799813685248)) (Fin 0)
       = Fin (6732881442918891 / 2251799813685248)"
    using dbl_at_ge1[of 1 "6732881442918891 / 2251799813685248 + 0"]
    by (simp add: coef_defs round_even_def)
  have s6: "dmul (Fin 10) (Fin (- coef_ur)) = Fin (- (949899233404985 / 562949953421312))"
    using dbl_at_ge1[of 0 "10 * (- coef_ur)"]
    by (simp add: coef_defs round_even_def)
  have s7: "dmul (Fin 0) (Fin (- coef_ug)) = Fin 0"
    using dbl_zero by (simp add: coef_defs)
  have s8:
    "dadd (Fin (- (949899233404985 / 562949953421312))) (Fin 0)
       = Fin (- (949899233404985 / 562949953421312))"
    using dbl_at_ge1[of 0 "(- (949899233404985 / 562949953421312)) + 0"]
    by (simp add: coef_defs round_even_def)
  have s9: "dmul (Fin 0) (Fin coef_half) = Fin 0"
    using dbl_zero by (simp add: coef_defs)
  have s10:
    "dadd (Fin (- (949899233404985 / 562949953421312))) (Fin 0)
       = Fin (- (949899233404985 / 562949953421312))"
    using dbl_at_ge1[of 0 "(- (949899233404985 / 562949953421312)) + 0"]
    by (simp add: coef_defs round_even_def)
  have s11:
    "dadd (Fin (- (949899233404985 / 562949953421312))) (Fin 128)
       = Fin (8888461850565369 / 70368744177664)"
    using dbl_at_ge1[of 6 "(- (949899233404985 / 562949953421312)) + 128"]
    by (simp add: coef_defs round_even_def)
  have s12: "dmul (Fin 10) (Fin coef_half) = Fin 5"
    using dbl_at_ge1[of 2 "10 * coef_half"]
    by (simp add: coef_defs round_even_def)
  have s13: "dmul (Fin 0) (Fin (- coef_vg)) = Fin 0"
    using dbl_zero by (simp add: coef_defs)
  have s14: "dadd (Fin 5) (Fin 0) = Fin 5"
    using dbl_at_ge1[of 2 "5 + 0"]
    by (simp add: coef_defs round_even_def)
  have s15: "dmul (Fin 0) (Fin (- coef_vb)) = Fin 0"
    using dbl_zero by (simp add: coef_defs)
  have s16: "dadd (Fin 5) (Fin 0) = Fin 5"
    using dbl_at_ge1[of 2 "5 + 0"]
    by (simp add: coef_defs round_even_def)
  have s17: "dadd (Fin 5) (Fin 128) = Fin 133"
    using dbl_at_ge1[of 7 "5 + 128"]
    by (simp add: coef_defs round_even_def)
  show ?thesis
    using rgbToYUV_steps[OF s1 s2 s3 s4 s5 s6 s7 s8 s9
        s10 s11 s12 s13 s14 s15 s16 s17]
    by simp
qed

lemma yuv_grey136:
  "rgbToYUV (Some [Fin 136, Fin 136, Fin 136]) = Some (Fin 136, Fin 128, Fin 128)"
proof -
  have s1: "dmul (Fin 136) (Fin coef_yr) = Fin (2861474613240529 / 70368744177664)"
    using dbl_at_ge1[of 5 "136 * coef_yr"]
    by (simp add: coef_defs round_even_def)
  have s2: "dmul (Fin 136) (Fin coef_yg) = Fin (702209698148909 / 8796093022208)"
    using dbl_at_ge1[of 6 "136 * coef_yg"]
    by (simp add: coef_defs round_even_def)
  have s3:
    "dadd (Fin (2861474613240529 / 70368744177664)) (Fin (702209698148909 / 8796093022208))
       = Fin (8479152198431801 / 70368744177664)"
    using dbl_at_ge1[of 6 "2861474613240529 / 70368744177664 + 702209698148909 / 8796093022208"]
    by (simp add: coef_defs round_even_def)
  have s4: "dmul (Fin 136) (Fin coef_yb) = Fin (4363988038922011 / 281474976710656)"
    using dbl_at_ge1[of 3 "136 * coef_yb"]
    by (simp add: coef_defs round_even_def)
  have s5:
    "dadd (Fin (8479152198431801 / 70368744177664)) (Fin (4363988038922011 / 281474976710656))
       = Fin 136"
    using dbl_at_ge1[of 7 "8479152198431801 / 70368744177664 + 4363988038922011 / 281474976710656"]
    by (simp add: coef_defs round_even_def)
  have s6: "dmul (Fin 136) (Fin (- coef_ur)) = Fin (- (3229657393576949 / 140737488355328))"
    using dbl_at_ge1[of 4 "136 * (- coef_ur)"]
    by (simp add: coef_defs round_even_def)
  have s7: "dmul (Fin 136) (Fin (- coef_ug)) = Fin (- (6340491814585355 / 140737488355328))"
    using dbl_at_ge1[of 5 "136 * (- coef_ug)"]
    by (simp add: coef_defs round_even_def)
  have s8:
    "dadd (Fin (- (3229657393576949 / 140737488355328))) (Fin (- (6340491814585355 / 140737488355328)))
       = Fin (- 68)"
    using dbl_at_ge1[of 6 "(- (3229657393576949 / 140737488355328)) + (- (6340491814585355 / 140737488355328))"]
    by (simp add: coef_defs round_even_def)
  have s9: "dmul (Fin 136) (Fin coef_half) = Fin 68"
    using dbl_at_ge1[of 6 "136 * coef_half"]
    by (simp add: coef_defs round_even_def)
  have s10: "dadd (Fin (- 68)) (Fin 68) = Fin 0"
    using dbl_zero by (simp add: coef_defs)
  have s11: "dadd (Fin 0) (Fin 128) = Fin 128"
    using dbl_at_ge1[of 7 "0 + 128"]
    by (simp add: coef_defs round_even_def)
  have s12: "dmul (Fin 136) (Fin coef_half) = Fin 68"
    using dbl_at_ge1[of 6 "136 * coef_half"]
    by (simp add: coef_defs round_even_def)
  have s13: "dmul (Fin 136) (Fin (- coef_vg)) = Fin (- (4006906631667059 / 70368744177664))"
    using dbl_at_ge1[of 5 "136 * (- coef_vg)"]
    by (simp add: coef_defs round_even_def)
  have s14:
    "dadd (Fin 68) (Fin (- (4006906631667059 / 70368744177664)))
       = Fin (778167972414093 / 70368744177664)"
    using dbl_at_ge1[of 3 "68 + (- (4006906631667059 / 70368744177664))"]
    by (simp add: coef_defs round_even_def)
  have s15: "dmul (Fin 136) (Fin (- coef_vb)) = Fin (- (3112671889656373 / 281474976710656))"
    using dbl_at_ge1[of 3 "136 * (- coef_vb)"]
    by (simp add: coef_defs round_even_def)
  have s16:
    "dadd (Fin (778167972414093 / 70368744177664)) (Fin (- (3112671889656373 / 281474976710656)))
       = Fin (- (1 / 281474976710656))"
    using dbl_at_lt1[of "778167972414093 / 70368744177664 + (- (3112671889656373 / 281474976710656))" 48]
    by (simp add: coef_defs round_even_def)
  have s17: "dadd (Fin (- (1 / 281474976710656))) (Fin 128) = Fin 128"
    using dbl_at_ge1[of 6 "(- (1 / 281474976710656)) + 128"]
    by (simp add: coef_defs round_even_def)
  show ?thesis
    using rgbToYUV_steps[OF s1 s2 s3 s4 s5 s6 s7 s8 s9
        s10 s11 s12 s13 s14 s15 s16 s17]
    by simp
qed

lemma yuv_grey250:
  "rgbToYUV (Some [Fin 250, Fin 250, Fin 250]) = Some (Fin 250, Fin 128, Fin 128)"
proof -
  have s1: "dmul (Fin 250) (Fin coef_yr) = Fin (299 / 4)"
    using dbl_at_ge1[of 6 "250 * coef_yr"]
    by (simp add: coef_defs round_even_def)
  have s2: "dmul (Fin 250) (Fin coef_yg) = Fin (587 / 4)"
    using dbl_at_ge1[of 7 "250 * coef_yg"]
    by (simp add: coef_defs round_even_def)
  have s3: "dadd (Fin (299 / 4)) (Fin (587 / 4)) = Fin (443 / 2)"
    using dbl_at_ge1[of 7 "299 / 4 + 587 / 4"]
    by (simp add: coef_defs round_even_def)
  have s4: "dmul (Fin 250) (Fin coef_yb) = Fin (57 / 2)"
    using dbl_at_ge1[of 4 "250 * coef_yb"]
    by (simp add: coef_defs round_even_def)
  have s5: "dadd (Fin (443 / 2)) (Fin (57 / 2)) = Fin 250"
    using dbl_at_ge1[of 7 "443 / 2 + 57 / 2"]
    by (simp add: coef_defs round_even_def)
  have s6: "dmul (Fin 250) (Fin (- coef_ur)) = Fin (- (1484217552195289 / 35184372088832))"
    using dbl_at_ge1[of 5 "250 * (- coef_ur)"]
    by (simp add: coef_defs round_even_def)
  have s7: "dmul (Fin 250) (Fin (- coef_ug)) = Fin (- (2913828958908711 / 35184372088832))"
    using dbl_at_ge1[of 6 "250 * (- coef_ug)"]
    by (simp add: coef_defs round_even_def)
  have s8:
    "dadd (Fin (- (1484217552195289 / 35184372088832))) (Fin (- (2913828958908711 / 35184372088832)))
       = Fin (- 125)"
    using dbl_at_ge1[of 6 "(- (1484217552195289 / 35184372088832)) + (- (2913828958908711 / 35184372088832))"]
    by (simp add: coef_defs round_even_def)
  have s9: "dmul (Fin 250) (Fin coef_half) = Fin 125"
    using dbl_at_ge1[of 6 "250 * coef_half"]
    by (simp add: coef_defs round_even_def)
  have s10: "dadd (Fin (- 125)) (Fin 125) = Fin 0"
    using dbl_zero by (simp add: coef_defs)
  have s11: "dadd (Fin 0) (Fin 128) = Fin 128"
    using dbl_at_ge1[of 7 "0 + 128"]
    by (simp add: coef_defs round_even_def)
  have s12: "dmul (Fin 250) (Fin coef_half) = Fin 125"
    using dbl_at_ge1[of 6 "250 * coef_half"]
    by (simp add: coef_defs round_even_def)
  have s13: "dmul (Fin 250) (Fin (- coef_vg)) = Fin (- (3682818595282223 / 35184372088832))"
    using dbl_at_ge1[of 6 "250 * (- coef_vg)"]
    by (simp add: coef_defs round_even_def)
  have s14:
    "dadd (Fin 125) (Fin (- (3682818595282223 / 35184372088832)))
       = Fin (715227915821777 / 35184372088832)"
    using dbl_at_ge1[of 4 "125 + (- (3682818595282223 / 35184372088832))"]
    by (simp add: coef_defs round_even_def)
  have s15: "dmul (Fin 250) (Fin (- coef_vb)) = Fin (- (5721823326574215 / 281474976710656))"
    using dbl_at_ge1[of 4 "250 * (- coef_vb)"]
    by (simp add: coef_defs round_even_def)
  have s16:
    "dadd (Fin (715227915821777 / 35184372088832)) (Fin (- (5721823326574215 / 281474976710656)))
       = Fin (1 / 281474976710656)"
    using dbl_at_lt1[of "715227915821777 / 35184372088832 + (- (5721823326574215 / 281474976710656))" 48]
    by (simp add: coef_defs round_even_def)
  have s17: "dadd (Fin (1 / 281474976710656)) (Fin 128) = Fin 128"
    using dbl_at_ge1[of 7 "1 / 281474976710656 + 128"]
    by (simp add: coef_defs round_even_def)
  show ?thesis
    using rgbToYUV_steps[OF s1 s2 s3 s4 s5 s6 s7 s8 s9
        s10 s11 s12 s13 s14 s15 s16 s17]
    by simp
qed

lemma yuv_grey120:
  "rgbToYUV (Some [Fin 120, Fin 120, Fin 120]) = Some (Fin 120, Fin 128, Fin 128)"
proof -
  have s1: "dmul (Fin 120) (Fin coef_yr) = Fin (315603817636823 / 8796093022208)"
    using dbl_at_ge1[of 5 "120 * coef_yr"]
    by (simp add: coef_defs round_even_def)
  have s2: "dmul (Fin 120) (Fin coef_yg) = Fin (1239193584968663 / 17592186044416)"
    using dbl_at_ge1[of 6 "120 * coef_yg"]
    by (simp add: coef_defs round_even_def)
  have s3:
    "dadd (Fin (315603817636823 / 8796093022208)) (Fin (1239193584968663 / 17592186044416))
       = Fin (1870401220242309 / 17592186044416)"
    using dbl_at_ge1[of 6 "315603817636823 / 8796093022208 + 1239193584968663 / 17592186044416"]
    by (simp add: coef_defs round_even_def)
  have s4: "dmul (Fin 120) (Fin coef_yb) = Fin (1925288840700887 / 140737488355328)"
    using dbl_at_ge1[of 3 "120 * coef_yb"]
    by (simp add: coef_defs round_even_def)
  have s5:
    "dadd (Fin (1870401220242309 / 17592186044416)) (Fin (1925288840700887 / 140737488355328))
       = Fin 120"
    using dbl_at_ge1[of 6 "1870401220242309 / 17592186044416 + 1925288840700887 / 140737488355328"]
    by (simp add: coef_defs round_even_def)
  have s6: "dmul (Fin 120) (Fin (- coef_ur)) = Fin (- (2849697700214955 / 140737488355328))"
    using dbl_at_ge1[of 4 "120 * (- coef_ur)"]
    by (simp add: coef_defs round_even_def)
  have s7: "dmul (Fin 120) (Fin (- coef_ug)) = Fin (- (5594551601104725 / 140737488355328))"
    using dbl_at_ge1[of 5 "120 * (- coef_ug)"]
    by (simp add: coef_defs round_even_def)
  have s8:
    "dadd (Fin (- (2849697700214955 / 140737488355328))) (Fin (- (5594551601104725 / 140737488355328)))
       = Fin (- 60)"
    using dbl_at_ge1[of 5 "(- (2849697700214955 / 140737488355328)) + (- (5594551601104725 / 140737488355328))"]
    by (simp add: coef_defs round_even_def)
  have s9: "dmul (Fin 120) (Fin coef_half) = Fin 60"
    using dbl_at_ge1[of 5 "120 * coef_half"]
    by (simp add: coef_defs round_even_def)
  have s10: "dadd (Fin (- 60)) (Fin 60) = Fin 0"
    using dbl_zero by (simp add: coef_defs)
  have s11: "dadd (Fin 0) (Fin 128) = Fin 128"
    using dbl_at_ge1[of 7 "0 + 128"]
    by (simp add: coef_defs round_even_def)
  have s12: "dmul (Fin 120) (Fin coef_half) = Fin 60"
    using dbl_at_ge1[of 5 "120 * coef_half"]
    by (simp add: coef_defs round_even_def)
  have s13: "dmul (Fin 120) (Fin (- coef_vg)) = Fin (- (1767752925735467 / 35184372088832))"
    using dbl_at_ge1[of 5 "120 * (- coef_vg)"]
    by (simp add: coef_defs round_even_def)
  have s14:
    "dadd (Fin 60) (Fin (- (1767752925735467 / 35184372088832)))
       = Fin (343309399594453 / 35184372088832)"
    using dbl_at_ge1[of 3 "60 + (- (1767752925735467 / 35184372088832))"]
    by (simp add: coef_defs round_even_def)
  have s15: "dmul (Fin 120) (Fin (- coef_vb)) = Fin (- (2746475196755623 / 281474976710656))"
    using dbl_at_ge1[of 3 "120 * (- coef_vb)"]
    by (simp add: coef_defs round_even_def)
  have s16:
    "dadd (Fin (343309399594453 / 35184372088832)) (Fin (- (2746475196755623 / 281474976710656)))
       = Fin (1 / 281474976710656)"
    using dbl_at_lt1[of "343309399594453 / 35184372088832 + (- (2746475196755623 / 281474976710656))" 48]
    by (simp add: coef_defs round_even_def)
  have s17: "dadd (Fin (1 / 281474976710656)) (Fin 128) = Fin 128"
    using dbl_at_ge1[of 7 "1 / 281474976710656 + 128"]
    by (simp add: coef_defs round_even_def)
  show ?thesis
    using rgbToYUV_steps[OF s1 s2 s3 s4 s5 s6 s7 s8 s9
        s10 s11 s12 s13 s14 s15 s16 s17]
    by simp
qed

lemma yuv_grey2000:
  "rgbToYUV (Some [Fin 2000, Fin 2000, Fin 2000]) = Some (Fin 2000, Fin 128, Fin 128)"
proof -
  have s1: "dmul (Fin 2000) (Fin coef_yr) = Fin 598"
    using dbl_at_ge1[of 9 "2000 * coef_yr"]
    by (simp add: coef_defs round_even_def)
  have s2: "dmul (Fin 2000) (Fin coef_yg) = Fin 1174"
    using dbl_at_ge1[of 10 "2000 * coef_yg"]
    by (simp add: coef_defs round_even_def)
  have s3: "dadd (Fin 598) (Fin 1174) = Fin 1772"
    using dbl_at_ge1[of 10 "598 + 1174"]
    by (simp add: coef_defs round_even_def)
  have s4: "dmul (Fin 2000) (Fin coef_yb) = Fin 228"
    using dbl_at_ge1[of 7 "2000 * coef_yb"]
    by (simp add: coef_defs round_even_def)
  have s5: "dadd (Fin 1772) (Fin 228) = Fin 2000"
    using dbl_at_ge1[of 10 "1772 + 228"]
    by (simp add: coef_defs round_even_def)
  have s6: "dmul (Fin 2000) (Fin (- coef_ur)) = Fin (- (1484217552195289 / 4398046511104))"
    using dbl_at_ge1[of 8 "2000 * (- coef_ur)"]
    by (simp add: coef_defs round_even_def)
  have s7: "dmul (Fin 2000) (Fin (- coef_ug)) = Fin (- (2913828958908711 / 4398046511104))"
    using dbl_at_ge1[of 9 "2000 * (- coef_ug)"]
    by (simp add: coef_defs round_even_def)
  have s8:
    "dadd (Fin (- (1484217552195289 / 4398046511104))) (Fin (- (2913828958908711 / 4398046511104)))
       = Fin (- 1000)"
    using dbl_at_ge1[of 9 "(- (1484217552195289 / 4398046511104)) + (- (2913828958908711 / 4398046511104))"]
    by (simp add: coef_defs round_even_def)
  have s9: "dmul (Fin 2000) (Fin coef_half) = Fin 1000"
    using dbl_at_ge1[of 9 "2000 * coef_half"]
    by (simp add: coef_defs round_even_def)
  have s10: "dadd (Fin (- 1000)) (Fin 1000) = Fin 0"
    using dbl_zero by (simp add: coef_defs)
  have s11: "dadd (Fin 0) (Fin 128) = Fin 128"
    using dbl_at_ge1[of 7 "0 + 128"]
    by (simp add: coef_defs round_even_def)
  have s12: "dmul (Fin 2000) (Fin coef_half) = Fin 1000"
    using dbl_at_ge1[of 9 "2000 * coef_half"]
    by (simp add: coef_defs round_even_def)
  have s13: "dmul (Fin 2000) (Fin (- coef_vg)) = Fin (- (3682818595282223 / 4398046511104))"
    using dbl_at_ge1[of 9 "2000 * (- coef_vg)"]
    by (simp add: coef_defs round_even_def)
  have s14:
    "dadd (Fin 1000) (Fin (- (3682818595282223 / 4398046511104)))
       = Fin (715227915821777 / 4398046511104)"
    using dbl_at_ge1[of 7 "1000 + (- (3682818595282223 / 4398046511104))"]
    by (simp add: coef_defs round_even_def)
  have s15: "dmul (Fin 2000) (Fin (- coef_vb)) = Fin (- (5721823326574215 / 35184372088832))"
    using dbl_at_ge1[of 7 "2000 * (- coef_vb)"]
    by (simp add: coef_defs round_even_def)
  have s16:
    "dadd (Fin (715227915821777 / 4398046511104)) (Fin (- (5721823326574215 / 35184372088832)))
       = Fin (1 / 35184372088832)"
    using dbl_at_lt1[of "715227915821777 / 4398046511104 + (- (5721823326574215 / 35184372088832))" 45]
    by (simp add: coef_defs round_even_def)
  have s17:
    "dadd (Fin (1 / 35184372088832)) (Fin 128)
       = Fin (4503599627370497 / 35184372088832)"
    using dbl_at_ge1[of 7 "1 / 35184372088832 + 128"]
    by (simp add: coef_defs round_even_def)
  show ?thesis
    using rgbToYUV_steps[OF s1 s2 s3 s4 s5 s6 s7 s8 s9
        s10 s11 s12 s13 s14 s15 s16 s17]
    by simp
qed

lemma yuv_grey128:
  "rgbToYUV (Some [Fin 128, Fin 128, Fin 128]) = Some (Fin 127, Fin 128, Fin 128)"
proof -
  have s1: "dmul (Fin 128) (Fin coef_yr) = Fin (5386305154335113 / 140737488355328)"
    using dbl_at_ge1[of 5 "128 * coef_yr"]
    by (simp add: coef_defs round_even_def)
  have s2: "dmul (Fin 128) (Fin coef_yg) = Fin (2643612981266481 / 35184372088832)"
    using dbl_at_ge1[of 6 "128 * coef_yg"]
    by (simp add: coef_defs round_even_def)
  have s3:
    "dadd (Fin (5386305154335113 / 140737488355328)) (Fin (2643612981266481 / 35184372088832))
       = Fin (3990189269850259 / 35184372088832)"
    using dbl_at_ge1[of 6 "5386305154335113 / 140737488355328 + 2643612981266481 / 35184372088832"]
    by (simp add: coef_defs round_even_def)
  have s4: "dmul (Fin 128) (Fin coef_yb) = Fin (8214565720323785 / 562949953421312)"
    using dbl_at_ge1[of 3 "128 * coef_yb"]
    by (simp add: coef_defs round_even_def)
  have s5:
    "dadd (Fin (3990189269850259 / 35184372088832)) (Fin (8214565720323785 / 562949953421312))
       = Fin (9007199254740991 / 70368744177664)"
    using dbl_at_ge1[of 6 "3990189269850259 / 35184372088832 + 8214565720323785 / 562949953421312"]
    by (simp add: coef_defs round_even_def)
  have s6: "dmul (Fin 128) (Fin (- coef_ur)) = Fin (- (189979846680997 / 8796093022208))"
    using dbl_at_ge1[of 4 "128 * (- coef_ur)"]
    by (simp add: coef_defs round_even_def)
  have s7: "dmul (Fin 128) (Fin (- coef_ug)) = Fin (- (372970106740315 / 8796093022208))"
    using dbl_at_ge1[of 5 "128 * (- coef_ug)"]
    by (simp add: coef_defs round_even_def)
  have s8:
    "dadd (Fin (- (189979846680997 / 8796093022208))) (Fin (- (372970106740315 / 8796093022208)))
       = Fin (- 64)"
    using dbl_at_ge1[of 6 "(- (189979846680997 / 8796093022208)) + (- (372970106740315 / 8796093022208))"]
    by (simp add: coef_defs round_even_def)
  have s9: "dmul (Fin 128) (Fin coef_half) = Fin 64"
    using dbl_at_ge1[of 6 "128 * coef_half"]
    by (simp add: coef_defs round_even_def)
  have s10: "dadd (Fin (- 64)) (Fin 64) = Fin 0"
    using dbl_zero by (simp add: coef_defs)
  have s11: "dadd (Fin 0) (Fin 128) = Fin 128"
    using dbl_at_ge1[of 7 "0 + 128"]
    by (simp add: coef_defs round_even_def)
  have s12: "dmul (Fin 128) (Fin coef_half) = Fin 64"
    using dbl_at_ge1[of 6 "128 * coef_half"]
    by (simp add: coef_defs round_even_def)
  have s13: "dmul (Fin 128) (Fin (- coef_vg)) = Fin (- (7542412483137993 / 140737488355328))"
    using dbl_at_ge1[of 5 "128 * (- coef_vg)"]
    by (simp add: coef_defs round_even_def)
  have s14:
    "dadd (Fin 64) (Fin (- (7542412483137993 / 140737488355328)))
       = Fin (1464786771602999 / 140737488355328)"
    using dbl_at_ge1[of 3 "64 + (- (7542412483137993 / 140737488355328))"]
    by (simp add: coef_defs round_even_def)
  have s15: "dmul (Fin 128) (Fin (- coef_vb)) = Fin (- (1464786771602999 / 140737488355328))"
    using dbl_at_ge1[of 3 "128 * (- coef_vb)"]
    by (simp add: coef_defs round_even_def)
  have s16:
    "dadd (Fin (1464786771602999 / 140737488355328)) (Fin (- (1464786771602999 / 140737488355328)))
       = Fin 0"
    using dbl_zero by (simp add: coef_defs)
  have s17: "dadd (Fin 0) (Fin 128) = Fin 128"
    using dbl_at_ge1[of 7 "0 + 128"]
    by (simp add: coef_defs round_even_def)
  show ?thesis
    using rgbToYUV_steps[OF s1 s2 s3 s4 s5 s6 s7 s8 s9
        s10 s11 s12 s13 s14 s15 s16 s17]
    by simp
qed

lemma yuv_129_128_129:
  "rgbToYUV (Some [Fin 129, Fin 128, Fin 129]) = Some (Fin 128, Fin 128, Fin 128)"
proof -
  have s1: "dmul (Fin 129) (Fin coef_yr) = Fin (1357096415838339 / 35184372088832)"
    using dbl_at_ge1[of 5 "129 * coef_yr"]
    by (simp add: coef_defs round_even_def)
  have s2: "dmul (Fin 128) (Fin coef_yg) = Fin (2643612981266481 / 35184372088832)"
    using dbl_at_ge1[of 6 "128 * coef_yg"]
    by (simp add: coef_defs round_even_def)
  have s3:
    "dadd (Fin (1357096415838339 / 35184372088832)) (Fin (2643612981266481 / 35184372088832))
       = Fin (1000177349276205 / 8796093022208)"
    using dbl_at_ge1[of 6 "1357096415838339 / 35184372088832 + 2643612981266481 / 35184372088832"]
    by (simp add: coef_defs round_even_def)
  have s4: "dmul (Fin 129) (Fin coef_yb) = Fin (8278742015013815 / 562949953421312)"
    using dbl_at_ge1[of 3 "129 * coef_yb"]
    by (simp add: coef_defs round_even_def)
  have s5:
    "dadd (Fin (1000177349276205 / 8796093022208)) (Fin (8278742015013815 / 562949953421312))
       = Fin (4518130773043183 / 35184372088832)"
    using dbl_at_ge1[of 7 "1000177349276205 / 8796093022208 + 8278742015013815 / 562949953421312"]
    by (simp add: coef_defs round_even_def)
  have s6: "dmul (Fin 129) (Fin (- coef_ur)) = Fin (- (6126850055462153 / 281474976710656))"
    using dbl_at_ge1[of 4 "129 * (- coef_ur)"]
    by (simp add: coef_defs round_even_def)
  have s7: "dmul (Fin 128) (Fin (- coef_ug)) = Fin (- (372970106740315 / 8796093022208))"
    using dbl_at_ge1[of 5 "128 * (- coef_ug)"]
    by (simp add: coef_defs round_even_def)
  have s8:
    "dadd (Fin (- (6126850055462153 / 281474976710656))) (Fin (- (372970106740315 / 8796093022208)))
       = Fin (- (2257736683894029 / 35184372088832))"
    using dbl_at_ge1[of 6 "(- (6126850055462153 / 281474976710656)) + (- (372970106740315 / 8796093022208))"]
    by (simp add: coef_defs round_even_def)
  have s9: "dmul (Fin 129) (Fin coef_half) = Fin (129 / 2)"
    using dbl_at_ge1[of 6 "129 * coef_half"]
    by (simp add: coef_defs round_even_def)
  have s10:
    "dadd (Fin (- (2257736683894029 / 35184372088832))) (Fin (129 / 2))
       = Fin (11655315835635 / 35184372088832)"
    using dbl_at_lt1[of "(- (2257736683894029 / 35184372088832)) + 129 / 2" 2]
    by (simp add: coef_defs round_even_def)
  have s11:
    "dadd (Fin (11655315835635 / 35184372088832)) (Fin 128)
       = Fin (4515254943206131 / 35184372088832)"
    using dbl_at_ge1[of 7 "11655315835635 / 35184372088832 + 128"]
    by (simp add: coef_defs round_even_def)
  have s12: "dmul (Fin 129) (Fin coef_half) = Fin (129 / 2)"
    using dbl_at_ge1[of 6 "129 * coef_half"]
    by (simp add: coef_defs round_even_def)
  have s13: "dmul (Fin 128) (Fin (- coef_vg)) = Fin (- (7542412483137993 / 140737488355328))"
    using dbl_at_ge1[of 5 "128 * (- coef_vg)"]
    by (simp add: coef_defs round_even_def)
  have s14:
    "dadd (Fin (129 / 2)) (Fin (- (7542412483137993 / 140737488355328)))
       = Fin (1535155515780663 / 140737488355328)"
    using dbl_at_ge1[of 3 "129 / 2 + (- (7542412483137993 / 140737488355328))"]
    by (simp add: coef_defs round_even_def)
  have s15: "dmul (Fin 129) (Fin (- coef_vb)) = Fin (- (2952460836512295 / 281474976710656))"
    using dbl_at_ge1[of 3 "129 * (- coef_vb)"]
    by (simp add: coef_defs round_even_def)
  have s16:
    "dadd (Fin (1535155515780663 / 140737488355328)) (Fin (- (2952460836512295 / 281474976710656)))
       = Fin (117850195049031 / 281474976710656)"
    using dbl_at_lt1[of "1535155515780663 / 140737488355328 + (- (2952460836512295 / 281474976710656))" 2]
    by (simp add: coef_defs round_even_def)
  have s17:
    "dadd (Fin (117850195049031 / 281474976710656)) (Fin 128)
       = Fin (4518330901751625 / 35184372088832)"
    using dbl_at_ge1[of 7 "117850195049031 / 281474976710656 + 128"]
    by (simp add: coef_defs round_even_def)
  show ?thesis
    using rgbToYUV_steps[OF s1 s2 s3 s4 s5 s6 s7 s8 s9
        s10 s11 s12 s13 s14 s15 s16 s17]
    by simp
qed

lemma yuv_grey1:
  "rgbToYUV (Some [Fin 1, Fin 1, Fin 1]) = Some (Fin 0, Fin 128, Fin 128)"
proof -
  have s1: "dmul (Fin 1) (Fin coef_yr) = Fin (5386305154335113 / 18014398509481984)"
    using dbl_at_lt1[of "1 * coef_yr" 2]
    by (simp add: coef_defs round_even_def)
  have s2: "dmul (Fin 1) (Fin coef_yg) = Fin (2643612981266481 / 4503599627370496)"
    using dbl_at_lt1[of "1 * coef_yg" 1]
    by (simp add: coef_defs round_even_def)
  have s3:
    "dadd (Fin (5386305154335113 / 18014398509481984)) (Fin (2643612981266481 / 4503599627370496))
       = Fin (3990189269850259 / 4503599627370496)"
    using dbl_at_lt1[of "5386305154335113 / 18014398509481984 + 2643612981266481 / 4503599627370496" 1]
    by (simp add: coef_defs round_even_def)
  have s4: "dmul (Fin 1) (Fin coef_yb) = Fin (8214565720323785 / 72057594037927936)"
    using dbl_at_lt1[of "1 * coef_yb" 4]
    by (simp add: coef_defs round_even_def)
  have s5:
    "dadd (Fin (3990189269850259 / 4503599627370496)) (Fin (8214565720323785 / 72057594037927936))
       = Fin (9007199254740991 / 9007199254740992)"
    using dbl_at_lt1[of "3990189269850259 / 4503599627370496 + 8214565720323785 / 72057594037927936" 1]
    by (simp add: coef_defs round_even_def)
  have s6: "dmul (Fin 1) (Fin (- coef_ur)) = Fin (- (189979846680997 / 1125899906842624))"
    using dbl_at_lt1[of "1 * (- coef_ur)" 3]
    by (simp add: coef_defs round_even_def)
  have s7: "dmul (Fin 1) (Fin (- coef_ug)) = Fin (- (372970106740315 / 1125899906842624))"
    using dbl_at_lt1[of "1 * (- coef_ug)" 2]
    by (simp add: coef_defs round_even_def)
  have s8:
    "dadd (Fin (- (189979846680997 / 1125899906842624))) (Fin (- (372970106740315 / 1125899906842624)))
       = Fin (- (1 / 2))"
    using dbl_at_lt1[of "(- (189979846680997 / 1125899906842624)) + (- (372970106740315 / 1125899906842624))" 1]
    by (simp add: coef_defs round_even_def)
  have s9: "dmul (Fin 1) (Fin coef_half) = Fin (1 / 2)"
    using dbl_at_lt1[of "1 * coef_half" 1]
    by (simp add: coef_defs round_even_def)
  have s10: "dadd (Fin (- (1 / 2))) (Fin (1 / 2)) = Fin 0"
    using dbl_zero by (simp add: coef_defs)
  have s11: "dadd (Fin 0) (Fin 128) = Fin 128"
    using dbl_at_ge1[of 7 "0 + 128"]
    by (simp add: coef_defs round_even_def)
  have s12: "dmul (Fin 1) (Fin coef_half) = Fin (1 / 2)"
    using dbl_at_lt1[of "1 * coef_half" 1]
    by (simp add: coef_defs round_even_def)
  have s13: "dmul (Fin 1) (Fin (- coef_vg)) = Fin (- (7542412483137993 / 18014398509481984))"
    using dbl_at_lt1[of "1 * (- coef_vg)" 2]
    by (simp add: coef_defs round_even_def)
  have s14:
    "dadd (Fin (1 / 2)) (Fin (- (7542412483137993 / 18014398509481984)))
       = Fin (1464786771602999 / 18014398509481984)"
    using dbl_at_lt1[of "1 / 2 + (- (7542412483137993 / 18014398509481984))" 4]
    by (simp add: coef_defs round_even_def)
  have s15: "dmul (Fin 1) (Fin (- coef_vb)) = Fin (- (1464786771602999 / 18014398509481984))"
    using dbl_at_lt1[of "1 * (- coef_vb)" 4]
    by (simp add: coef_defs round_even_def)
  have s16:
    "dadd (Fin (1464786771602999 / 18014398509481984)) (Fin (- (1464786771602999 / 18014398509481984)))
       = Fin 0"
    using dbl_zero by (simp add: coef_defs)
  have s17: "dadd (Fin 0) (Fin 128) = Fin 128"
    using dbl_at_ge1[of 7 "0 + 128"]
    by (simp add: coef_defs round_even_def)
  show ?thesis
    using rgbToYUV_steps[OF s1 s2 s3 s4 s5 s6 s7 s8 s9
        s10 s11 s12 s13 s14 s15 s16 s17]
    by simp
qed

lemmas yuv_eval =
  yuv_white yuv_black yuv_red yuv_dark_red yuv_grey136 yuv_grey250 yuv_grey120 yuv_grey2000
  yuv_grey128 yuv_129_128_129 yuv_grey1

subsection \<open>Rounding is monotone\<close>

lemma round_even_floor: "\<lfloor>y\<rfloor> \<le> round_even y \<and> round_even y \<le> \<lfloor>y\<rfloor> + 1"
  by (simp add: round_even_def)

lemma round_even_mono:
  assumes "x \<le> y"
  shows "round_even x \<le> round_even y"
proof (cases "\<lfloor>x\<rfloor> = \<lfloor>y\<rfloor>")
  case True
  then show ?thesis using assms unfolding round_even_def by (auto; linarith)
next
  case False
  moreover have "\<lfloor>x\<rfloor> \<le> \<lfloor>y\<rfloor>" using assms by (rule floor_mono)
  ultimately have "\<lfloor>x\<rfloor> + 1 \<le> \<lfloor>y\<rfloor>" by simp
  then show ?thesis using round_even_floor[of x] round_even_floor[of y] by linarith
qed

lemma round_even_int: "round_even (of_int n) = n"
  by (simp add: round_even_def)

lemma round_even_neg: "round_even (- x) = - round_even x"
proof (cases "x = of_int \<lfloor>x\<rfloor>")
  case True
  then obtain n where x: "x = of_int n" ..
  have "round_even (- of_int n) = round_even (of_int (- n))" by simp
  also have "\<dots> = - n" by (simp only: round_even_int)
  finally show ?thesis by (simp add: x round_even_int)
next
  case False
  define n where "n = \<lfloor>x\<rfloor>"
  define f where "f = x - of_int n"
  have fl: "\<lfloor>- x\<rfloor> = - n - 1"
    using False by (simp add: floor_minus ceiling_altdef n_def)
  have f0: "0 < f" using False of_int_floor_le[of x] unfolding f_def n_def by linarith
  have fr: "- x - of_int (- n - 1) = 1 - f" by (simp add: f_def)
  have ev: "even (- n - 1) = odd n" by simp
  have a: "round_even x = (if f < 1 / 2 then n else if 1 / 2 < f then n + 1
       else if even n then n else n + 1)"
    by (simp add: round_even_def n_def f_def)
  have b: "round_even (- x) = (if 1 - f < 1 / 2 then - n - 1 else if 1 / 2 < 1 - f then - n
       else if odd n then - n - 1 else - n)"
    unfolding round_even_def fl fr ev by simp
  show ?thesis unfolding a b using f0 by auto
qed

lemma round_even_nonneg: "0 \<le> y \<Longrightarrow> 0 \<le> round_even y"
  using round_even_mono[of 0 y] round_even_int[of 0] by simp

lemma dbl_exp_neg: "dbl_exp (- x) = dbl_exp x"
  by (simp add: dbl_exp_def)

lemma dbl_real_neg: "dbl_real (- x) = - dbl_real x"
  by (simp add: dbl_real_def dbl_exp_neg round_even_neg)

lemma dbl_real_nonneg: "0 \<le> x \<Longrightarrow> 0 \<le> dbl_real x"
  by (simp add: dbl_real_def round_even_nonneg)

lemma dbl_exp_mono:
  assumes "0 < x" and "x \<le> y"
  shows "dbl_exp x \<le> dbl_exp y"
proof -
  have "log 2 x \<le> log 2 y" using assms by simp
  then have "\<lfloor>log 2 x\<rfloor> \<le> \<lfloor>log 2 y\<rfloor>" by (rule floor_mono)
  then show ?thesis using assms by (simp add: dbl_exp_def)
qed

text \<open>A positive value is below the power of two 53 places above its last bit.\<close>

lemma below_next_power:
  assumes "0 < x"
  shows "x < 2 powr of_int (dbl_exp x + 53)"
proof -
  have "\<lfloor>log 2 x\<rfloor> \<le> dbl_exp x + 52" using assms by (simp add: dbl_exp_def)
  then have "\<lfloor>log 2 x\<rfloor> + 1 \<le> dbl_exp x + 53" by simp
  then have "of_int (\<lfloor>log 2 x\<rfloor> + 1) \<le> (of_int (dbl_exp x + 53) :: real)"
    by (simp only: of_int_le_iff)
  moreover have "log 2 x < of_int (\<lfloor>log 2 x\<rfloor> + 1)" by linarith
  ultimately have "log 2 x < of_int (dbl_exp x + 53)" by linarith
  then show ?thesis using assms by (simp add: log_less_iff)
qed

lemma powr_shift: "(2::real) powr of_int (e + int k) = 2 powr of_int e * 2 ^ k"
  by (simp add: powr_add powr_realpow)

lemma dbl_real_pos: "0 < x \<Longrightarrow>
    dbl_real x = of_int (round_even (x / 2 powr of_int (dbl_exp x))) * 2 powr of_int (dbl_exp x)"
  by (simp add: dbl_real_def)

lemma dbl_real_mono_pos:
  assumes "0 < x" and "x \<le> y"
  shows "dbl_real x \<le> dbl_real y"
proof -
  let ?ex = "dbl_exp x" and ?ey = "dbl_exp y"
  let ?qx = "(2::real) powr of_int ?ex" and ?qy = "(2::real) powr of_int ?ey"
  from assms have y: "0 < y" by simp
  have le: "?ex \<le> ?ey" using assms by (rule dbl_exp_mono)
  note rx = dbl_real_pos[OF assms(1)]
  note ry = dbl_real_pos[OF y]
  have qx: "0 < ?qx" and qy: "0 < ?qy" by simp_all
  show ?thesis
  proof (cases "?ex = ?ey")
    case True
    have "x / ?qx \<le> y / ?qx" using assms(2) qx by (simp add: divide_right_mono)
    then have "round_even (x / ?qx) \<le> round_even (y / ?qx)" by (rule round_even_mono)
    then have "(of_int (round_even (x / ?qx)) :: real) \<le> of_int (round_even (y / ?qx))"
      by (simp only: of_int_le_iff)
    then have "of_int (round_even (x / ?qx)) * ?qx \<le> of_int (round_even (y / ?qx)) * ?qx"
      using qx by (simp add: mult_right_mono)
    then show ?thesis unfolding rx ry True .
  next
    case False
    with le have lt: "?ex + 1 \<le> ?ey" by simp
    have "x < 2 powr of_int (?ex + int 53)" using below_next_power[OF assms(1)] by simp
    then have "x < ?qx * 2 ^ 53" by (simp only: powr_shift)
    then have "x / ?qx \<le> of_int (2 ^ 53)" using qx by (simp add: pos_divide_le_eq mult.commute)
    then have "round_even (x / ?qx) \<le> round_even (of_int (2 ^ 53))" by (rule round_even_mono)
    then have "round_even (x / ?qx) \<le> 2 ^ 53" by (simp only: round_even_int)
    then have "(of_int (round_even (x / ?qx)) :: real) \<le> of_int (2 ^ 53)"
      by (simp only: of_int_le_iff)
    then have "of_int (round_even (x / ?qx)) * ?qx \<le> of_int (2 ^ 53) * ?qx"
      using qx by (simp only: mult_right_mono less_imp_le)
    then have a: "dbl_real x \<le> 2 powr of_int (?ex + int 53)"
      unfolding rx powr_shift by (simp add: mult.commute)
    have "?ex + int 53 \<le> ?ey + int 52" using lt by simp
    then have "(of_int (?ex + int 53) :: real) \<le> of_int (?ey + int 52)"
      by (simp only: of_int_le_iff)
    then have b: "(2::real) powr of_int (?ex + int 53) \<le> 2 powr of_int (?ey + int 52)"
      by (simp only: powr_le_cancel_iff one_less_numeral_iff num.simps semiring_norm)
    have "- 1074 \<le> ?ex" by (simp add: dbl_exp_def)
    with lt have "- 1022 < ?ey + 52" by simp
    then have "\<lfloor>log 2 y\<rfloor> = ?ey + 52" using y by (simp add: dbl_exp_def max_def split: if_splits)
    then have "of_int (?ey + int 52) \<le> log 2 y" by linarith
    then have "2 powr of_int (?ey + int 52) \<le> y" using y by (simp add: le_log_iff)
    then have "?qy * 2 ^ 52 \<le> y" by (simp only: powr_shift)
    then have "of_int (2 ^ 52) \<le> y / ?qy" using qy by (simp add: pos_le_divide_eq mult.commute)
    then have "round_even (of_int (2 ^ 52)) \<le> round_even (y / ?qy)" by (rule round_even_mono)
    then have "2 ^ 52 \<le> round_even (y / ?qy)" by (simp only: round_even_int)
    then have "(of_int (2 ^ 52) :: real) \<le> of_int (round_even (y / ?qy))"
      by (simp only: of_int_le_iff)
    then have "of_int (2 ^ 52) * ?qy \<le> of_int (round_even (y / ?qy)) * ?qy"
      using qy by (simp only: mult_right_mono less_imp_le)
    then have c: "2 powr of_int (?ey + int 52) \<le> dbl_real y"
      unfolding ry powr_shift by (simp add: mult.commute)
    from a b c show ?thesis by linarith
  qed
qed

lemma dbl_real_mono:
  assumes "x \<le> y"
  shows "dbl_real x \<le> dbl_real y"
proof -
  consider "0 < x" | "x \<le> 0" "0 \<le> y" | "y < 0" by linarith
  then show ?thesis
  proof cases
    case 1
    then show ?thesis using assms by (rule dbl_real_mono_pos)
  next
    case 2
    have "0 \<le> dbl_real y" using 2(2) by (rule dbl_real_nonneg)
    moreover have "0 \<le> dbl_real (- x)" using 2(1) by (simp add: dbl_real_nonneg)
    ultimately show ?thesis by (simp add: dbl_real_neg)
  next
    case 3
    have "0 < - y" "- y \<le> - x" using 3 assms by simp_all
    then have "dbl_real (- y) \<le> dbl_real (- x)" by (rule dbl_real_mono_pos)
    then show ?thesis by (simp add: dbl_real_neg)
  qed
qed

text \<open>A value between two values that round to finite doubles rounds to a double between them.\<close>

lemma dbl_finite: "dbl x = Fin p \<Longrightarrow> p = dbl_real x \<and> \<bar>dbl_real x\<bar> < 2 ^ 1024"
  by (simp add: dbl_def inf_of_sign_def split: if_splits)

lemma dbl_between:
  assumes "lo \<le> x" and "x \<le> hi" and "dbl lo = Fin l" and "dbl hi = Fin h"
  shows "\<exists>p. dbl x = Fin p \<and> l \<le> p \<and> p \<le> h"
proof -
  from dbl_finite[OF assms(3)] have l: "l = dbl_real lo" and lb: "\<bar>l\<bar> < 2 ^ 1024" by simp_all
  from dbl_finite[OF assms(4)] have h: "h = dbl_real hi" and hb: "\<bar>h\<bar> < 2 ^ 1024" by simp_all
  have a: "l \<le> dbl_real x" unfolding l using assms(1) by (rule dbl_real_mono)
  have b: "dbl_real x \<le> h" unfolding h using assms(2) by (rule dbl_real_mono)
  have "\<bar>dbl_real x\<bar> < 2 ^ 1024" using a b lb hb by linarith
  then have "dbl x = Fin (dbl_real x)" by (rule dbl_fin)
  with a b show ?thesis by blast
qed

lemma dmul_between:
  assumes "lo \<le> a" and "a \<le> hi" and "0 \<le> c"
    and "dmul (Fin lo) (Fin c) = Fin l" and "dmul (Fin hi) (Fin c) = Fin h"
  shows "\<exists>p. dmul (Fin a) (Fin c) = Fin p \<and> l \<le> p \<and> p \<le> h"
proof -
  have "lo * c \<le> a * c" "a * c \<le> hi * c" using assms(1-3) by (simp_all add: mult_right_mono)
  then show ?thesis using assms(4,5) dbl_between[of "lo * c" "a * c" "hi * c" l h] by simp
qed

lemma dmul_between_neg:
  assumes "lo \<le> a" and "a \<le> hi" and "c \<le> 0"
    and "dmul (Fin hi) (Fin c) = Fin l" and "dmul (Fin lo) (Fin c) = Fin h"
  shows "\<exists>p. dmul (Fin a) (Fin c) = Fin p \<and> l \<le> p \<and> p \<le> h"
proof -
  have "hi * c \<le> a * c" "a * c \<le> lo * c" using assms(1-3) by (simp_all add: mult_right_mono_neg)
  then show ?thesis using assms(4,5) dbl_between[of "hi * c" "a * c" "lo * c" l h] by simp
qed

lemma dadd_between:
  assumes "l1 \<le> a" and "a \<le> h1" and "l2 \<le> b" and "b \<le> h2"
    and "dadd (Fin l1) (Fin l2) = Fin l" and "dadd (Fin h1) (Fin h2) = Fin h"
  shows "\<exists>p. dadd (Fin a) (Fin b) = Fin p \<and> l \<le> p \<and> p \<le> h"
proof -
  have "l1 + l2 \<le> a + b" "a + b \<le> h1 + h2" using assms(1-4) by simp_all
  then show ?thesis using assms(5,6) dbl_between[of "l1 + l2" "a + b" "h1 + h2" l h] by simp
qed

text \<open>
  A colour of three components within 0 and 255 has a YUV value within 0 and 255: every
  product and sum of the conversion lies between its values at the two colours where the
  component is least and greatest, black and white for \<open>y\<close>, yellow and blue for
  \<open>u\<close>, cyan and red for \<open>v\<close>.
\<close>

lemma rgb_yuv_range:
  assumes "rgb_in_range rgb"
  shows "yuv_in_range (rgbToYUV rgb)"
proof -
  from assms obtain r g b where rgb: "rgb = Some [Fin r, Fin g, Fin b]"
      and r0: "0 \<le> r" and r1: "r \<le> 255" and g0: "0 \<le> g" and g1: "g \<le> 255"
      and b0: "0 \<le> b" and b1: "b \<le> 255"
    by (cases rgb rule: rgb_in_range.cases) auto
  have c128: "(128::real) \<le> 128" by simp
  have coef_yr_pos: "0 \<le> coef_yr" by (simp add: coef_yr_def)
  have coef_yg_pos: "0 \<le> coef_yg" by (simp add: coef_yg_def)
  have coef_yb_pos: "0 \<le> coef_yb" by (simp add: coef_yb_def)
  have coef_half_pos: "0 \<le> coef_half" by (simp add: coef_half_def)
  have coef_ur_neg: "- coef_ur \<le> 0" by (simp add: coef_ur_def)
  have coef_ug_neg: "- coef_ug \<le> 0" by (simp add: coef_ug_def)
  have coef_vg_neg: "- coef_vg \<le> 0" by (simp add: coef_vg_def)
  have coef_vb_neg: "- coef_vb \<le> 0" by (simp add: coef_vb_def)
  have y1_lo: "dmul (Fin 0) (Fin coef_yr) = Fin 0"
    using dbl_zero by (simp add: coef_defs)
  have y1_hi: "dmul (Fin 255) (Fin coef_yr) = Fin (5365264899825991 / 70368744177664)"
    using dbl_at_ge1[of 6 "255 * coef_yr"]
    by (simp add: coef_defs round_even_def)
  from dmul_between[OF r0 r1 coef_yr_pos y1_lo y1_hi]
  obtain y1 where y1: "dmul (Fin r) (Fin coef_yr) = Fin y1"
    and y1_ge: "0 \<le> y1" and y1_le: "y1 \<le> 5365264899825991 / 70368744177664"
    by blast
  have y2_lo: "dmul (Fin 0) (Fin coef_yg) = Fin 0"
    using dbl_zero by (simp add: coef_defs)
  have y2_hi: "dmul (Fin 255) (Fin coef_yg) = Fin (2633286368058409 / 17592186044416)"
    using dbl_at_ge1[of 7 "255 * coef_yg"]
    by (simp add: coef_defs round_even_def)
  from dmul_between[OF g0 g1 coef_yg_pos y2_lo y2_hi]
  obtain y2 where y2: "dmul (Fin g) (Fin coef_yg) = Fin y2"
    and y2_ge: "0 \<le> y2" and y2_le: "y2 \<le> 2633286368058409 / 17592186044416"
    by blast
  have y3_lo: "dadd (Fin 0) (Fin 0) = Fin 0"
    using dbl_zero by (simp add: coef_defs)
  have y3_hi:
    "dadd (Fin (5365264899825991 / 70368744177664)) (Fin (2633286368058409 / 17592186044416))
       = Fin (3974602593014907 / 17592186044416)"
    using dbl_at_ge1[of 7 "5365264899825991 / 70368744177664 + 2633286368058409 / 17592186044416"]
    by (simp add: coef_defs round_even_def)
  from dadd_between[OF y1_ge y1_le y2_ge y2_le y3_lo y3_hi]
  obtain y3 where y3: "dadd (Fin y1) (Fin y2) = Fin y3"
    and y3_ge: "0 \<le> y3" and y3_le: "y3 \<le> 3974602593014907 / 17592186044416"
    by blast
  have y4_lo: "dmul (Fin 0) (Fin coef_yb) = Fin 0"
    using dbl_zero by (simp add: coef_defs)
  have y4_hi: "dmul (Fin 255) (Fin coef_yb) = Fin (4091238786489385 / 140737488355328)"
    using dbl_at_ge1[of 4 "255 * coef_yb"]
    by (simp add: coef_defs round_even_def)
  from dmul_between[OF b0 b1 coef_yb_pos y4_lo y4_hi]
  obtain y4 where y4: "dmul (Fin b) (Fin coef_yb) = Fin y4"
    and y4_ge: "0 \<le> y4" and y4_le: "y4 \<le> 4091238786489385 / 140737488355328"
    by blast
  have y_lo: "dadd (Fin 0) (Fin 0) = Fin 0"
    using dbl_zero by (simp add: coef_defs)
  have y_hi:
    "dadd (Fin (3974602593014907 / 17592186044416)) (Fin (4091238786489385 / 140737488355328))
       = Fin 255"
    using dbl_at_ge1[of 7 "3974602593014907 / 17592186044416 + 4091238786489385 / 140737488355328"]
    by (simp add: coef_defs round_even_def)
  from dadd_between[OF y3_ge y3_le y4_ge y4_le y_lo y_hi]
  obtain y where y: "dadd (Fin y3) (Fin y4) = Fin y"
    and y_ge: "0 \<le> y" and y_le: "y \<le> 255"
    by blast
  have u1_lo: "dmul (Fin 255) (Fin (- coef_ur)) = Fin (- (6055607612956779 / 140737488355328))"
    using dbl_at_ge1[of 5 "255 * (- coef_ur)"]
    by (simp add: coef_defs round_even_def)
  have u1_hi: "dmul (Fin 0) (Fin (- coef_ur)) = Fin 0"
    using dbl_zero by (simp add: coef_defs)
  from dmul_between_neg[OF r0 r1 coef_ur_neg u1_lo u1_hi]
  obtain u1 where u1: "dmul (Fin r) (Fin (- coef_ur)) = Fin u1"
    and u1_ge: "- (6055607612956779 / 140737488355328) \<le> u1" and u1_le: "u1 \<le> 0"
    by blast
  have u2_lo: "dmul (Fin 255) (Fin (- coef_ug)) = Fin (- (2972105538086885 / 35184372088832))"
    using dbl_at_ge1[of 6 "255 * (- coef_ug)"]
    by (simp add: coef_defs round_even_def)
  have u2_hi: "dmul (Fin 0) (Fin (- coef_ug)) = Fin 0"
    using dbl_zero by (simp add: coef_defs)
  from dmul_between_neg[OF g0 g1 coef_ug_neg u2_lo u2_hi]
  obtain u2 where u2: "dmul (Fin g) (Fin (- coef_ug)) = Fin u2"
    and u2_ge: "- (2972105538086885 / 35184372088832) \<le> u2" and u2_le: "u2 \<le> 0"
    by blast
  have u3_lo:
    "dadd (Fin (- (6055607612956779 / 140737488355328))) (Fin (- (2972105538086885 / 35184372088832)))
       = Fin (- (255 / 2))"
    using dbl_at_ge1[of 6 "(- (6055607612956779 / 140737488355328)) + (- (2972105538086885 / 35184372088832))"]
    by (simp add: coef_defs round_even_def)
  have u3_hi: "dadd (Fin 0) (Fin 0) = Fin 0"
    using dbl_zero by (simp add: coef_defs)
  from dadd_between[OF u1_ge u1_le u2_ge u2_le u3_lo u3_hi]
  obtain u3 where u3: "dadd (Fin u1) (Fin u2) = Fin u3"
    and u3_ge: "- (255 / 2) \<le> u3" and u3_le: "u3 \<le> 0"
    by blast
  have u4_lo: "dmul (Fin 0) (Fin coef_half) = Fin 0"
    using dbl_zero by (simp add: coef_defs)
  have u4_hi: "dmul (Fin 255) (Fin coef_half) = Fin (255 / 2)"
    using dbl_at_ge1[of 6 "255 * coef_half"]
    by (simp add: coef_defs round_even_def)
  from dmul_between[OF b0 b1 coef_half_pos u4_lo u4_hi]
  obtain u4 where u4: "dmul (Fin b) (Fin coef_half) = Fin u4"
    and u4_ge: "0 \<le> u4" and u4_le: "u4 \<le> 255 / 2"
    by blast
  have u5_lo: "dadd (Fin (- (255 / 2))) (Fin 0) = Fin (- (255 / 2))"
    using dbl_at_ge1[of 6 "(- (255 / 2)) + 0"]
    by (simp add: coef_defs round_even_def)
  have u5_hi: "dadd (Fin 0) (Fin (255 / 2)) = Fin (255 / 2)"
    using dbl_at_ge1[of 6 "0 + 255 / 2"]
    by (simp add: coef_defs round_even_def)
  from dadd_between[OF u3_ge u3_le u4_ge u4_le u5_lo u5_hi]
  obtain u5 where u5: "dadd (Fin u3) (Fin u4) = Fin u5"
    and u5_ge: "- (255 / 2) \<le> u5" and u5_le: "u5 \<le> 255 / 2"
    by blast
  have u_lo: "dadd (Fin (- (255 / 2))) (Fin 128) = Fin (1 / 2)"
    using dbl_at_lt1[of "(- (255 / 2)) + 128" 1]
    by (simp add: coef_defs round_even_def)
  have u_hi: "dadd (Fin (255 / 2)) (Fin 128) = Fin (511 / 2)"
    using dbl_at_ge1[of 7 "255 / 2 + 128"]
    by (simp add: coef_defs round_even_def)
  from dadd_between[OF u5_ge u5_le c128 c128 u_lo u_hi]
  obtain u where u: "dadd (Fin u5) (Fin 128) = Fin u"
    and u_ge: "1 / 2 \<le> u" and u_le: "u \<le> 511 / 2"
    by blast
  have v1_lo: "dmul (Fin 0) (Fin coef_half) = Fin 0"
    using dbl_zero by (simp add: coef_defs)
  have v1_hi: "dmul (Fin 255) (Fin coef_half) = Fin (255 / 2)"
    using dbl_at_ge1[of 6 "255 * coef_half"]
    by (simp add: coef_defs round_even_def)
  from dmul_between[OF r0 r1 coef_half_pos v1_lo v1_hi]
  obtain v1 where v1: "dmul (Fin r) (Fin coef_half) = Fin v1"
    and v1_ge: "0 \<le> v1" and v1_le: "v1 \<le> 255 / 2"
    by blast
  have v2_lo: "dmul (Fin 255) (Fin (- coef_vg)) = Fin (- (7512949934375735 / 70368744177664))"
    using dbl_at_ge1[of 6 "255 * (- coef_vg)"]
    by (simp add: coef_defs round_even_def)
  have v2_hi: "dmul (Fin 0) (Fin (- coef_vg)) = Fin 0"
    using dbl_zero by (simp add: coef_defs)
  from dmul_between_neg[OF g0 g1 coef_vg_neg v2_lo v2_hi]
  obtain v2 where v2: "dmul (Fin g) (Fin (- coef_vg)) = Fin v2"
    and v2_ge: "- (7512949934375735 / 70368744177664) \<le> v2" and v2_le: "v2 \<le> 0"
    by blast
  have v3_lo:
    "dadd (Fin 0) (Fin (- (7512949934375735 / 70368744177664)))
       = Fin (- (7512949934375735 / 70368744177664))"
    using dbl_at_ge1[of 6 "0 + (- (7512949934375735 / 70368744177664))"]
    by (simp add: coef_defs round_even_def)
  have v3_hi: "dadd (Fin (255 / 2)) (Fin 0) = Fin (255 / 2)"
    using dbl_at_ge1[of 6 "255 / 2 + 0"]
    by (simp add: coef_defs round_even_def)
  from dadd_between[OF v1_ge v1_le v2_ge v2_le v3_lo v3_hi]
  obtain v3 where v3: "dadd (Fin v1) (Fin v2) = Fin v3"
    and v3_ge: "- (7512949934375735 / 70368744177664) \<le> v3" and v3_le: "v3 \<le> 255 / 2"
    by blast
  have v4_lo: "dmul (Fin 255) (Fin (- coef_vb)) = Fin (- (5836259793105699 / 281474976710656))"
    using dbl_at_ge1[of 4 "255 * (- coef_vb)"]
    by (simp add: coef_defs round_even_def)
  have v4_hi: "dmul (Fin 0) (Fin (- coef_vb)) = Fin 0"
    using dbl_zero by (simp add: coef_defs)
  from dmul_between_neg[OF b0 b1 coef_vb_neg v4_lo v4_hi]
  obtain v4 where v4: "dmul (Fin b) (Fin (- coef_vb)) = Fin v4"
    and v4_ge: "- (5836259793105699 / 281474976710656) \<le> v4" and v4_le: "v4 \<le> 0"
    by blast
  have v5_lo:
    "dadd (Fin (- (7512949934375735 / 70368744177664))) (Fin (- (5836259793105699 / 281474976710656)))
       = Fin (- (255 / 2))"
    using dbl_at_ge1[of 6 "(- (7512949934375735 / 70368744177664)) + (- (5836259793105699 / 281474976710656))"]
    by (simp add: coef_defs round_even_def)
  have v5_hi: "dadd (Fin (255 / 2)) (Fin 0) = Fin (255 / 2)"
    using dbl_at_ge1[of 6 "255 / 2 + 0"]
    by (simp add: coef_defs round_even_def)
  from dadd_between[OF v3_ge v3_le v4_ge v4_le v5_lo v5_hi]
  obtain v5 where v5: "dadd (Fin v3) (Fin v4) = Fin v5"
    and v5_ge: "- (255 / 2) \<le> v5" and v5_le: "v5 \<le> 255 / 2"
    by blast
  have v_lo: "dadd (Fin (- (255 / 2))) (Fin 128) = Fin (1 / 2)"
    using dbl_at_lt1[of "(- (255 / 2)) + 128" 1]
    by (simp add: coef_defs round_even_def)
  have v_hi: "dadd (Fin (255 / 2)) (Fin 128) = Fin (511 / 2)"
    using dbl_at_ge1[of 7 "255 / 2 + 128"]
    by (simp add: coef_defs round_even_def)
  from dadd_between[OF v5_ge v5_le c128 c128 v_lo v_hi]
  obtain v where v: "dadd (Fin v5) (Fin 128) = Fin v"
    and v_ge: "1 / 2 \<le> v" and v_le: "v \<le> 511 / 2"
    by blast
  have fl: "0 \<le> (of_int \<lfloor>x\<rfloor> :: real) \<and> (of_int \<lfloor>x\<rfloor> :: real) \<le> 255"
    if "0 \<le> x" "x < 256" for x :: real
  proof -
    have "0 \<le> \<lfloor>x\<rfloor>" using that by simp
    moreover have "\<lfloor>x\<rfloor> \<le> 255" using that by (simp add: floor_le_iff)
    ultimately show ?thesis by simp
  qed
  have "0 \<le> y" "y < 256" "0 \<le> u" "u < 256" "0 \<le> v" "v < 256"
    using y_ge y_le u_ge u_le v_ge v_le by simp_all
  then show ?thesis
    unfolding rgb rgbToYUV_steps[OF y1 y2 y3 y4 y u1 u2 u3 u4 u5 u v1 v2 v3 v4 v5 v]
    using fl[of y] fl[of u] fl[of v] by simp
qed


section \<open>Properties of the palette matcher\<close>

lemma candidates_take:
  "candidates pal limit = take (candidate_count (length pal) limit) pal"
proof (cases limit)
  case None
  then show ?thesis by (simp add: candidates_def candidate_count_def)
next
  case (Some l)
  have "nat (max (int (length pal) + l) 0) = length pal - nat (- l)" if "l < 0"
    using that by auto
  moreover have "nat (min l (int (length pal))) = min (nat l) (length pal)" if "0 < l"
    using that by auto
  ultimately show ?thesis
    using Some by (auto simp add: candidates_def candidate_count_def js_slice_def Let_def)
qed

lemma setup_length: "length (snapColorSetup colors) = length colors"
  by (simp add: snapColorSetup_def)

lemma setup_nth:
  assumes "k < length colors"
  shows "color (snapColorSetup colors ! k)
     = \<lparr>HEX = colors ! k, RGB = colorStringToArray (JString (colors ! k)),
        YUV = rgbToYUV (colorStringToArray (JString (colors ! k)))\<rparr>"
  using assms by (simp add: snapColorSetup_def renderColorData_def Let_def)

text \<open>The loop returns the index it started with or an index it has visited.\<close>

lemma loop_bound:
  "snap_loop es src i li lv = li \<or>
   (i \<le> snap_loop es src i li lv \<and> snap_loop es src i li lv < i + length es)"
proof (induction es arbitrary: i li lv)
  case Nil
  then show ?case by simp
next
  case (Cons e es)
  show ?case
  proof (cases "jlt (yuv_distance (YUV (color e)) src) lv")
    case True
    with Cons.IH[of "Suc i" i "yuv_distance (YUV (color e)) src"] show ?thesis
      by (auto simp add: Let_def)
  next
    case False
    with Cons.IH[of "Suc i" li lv] show ?thesis
      by (auto simp add: Let_def)
  qed
qed

lemma snapColor_bound:
  "snapColor pal source limit = 0 \<or> snapColor pal source limit < length (candidates pal limit)"
  using loop_bound[of "candidates pal limit" "rgbToYUV (source_rgb source)" 0 0 "Fin 1000"]
  by (auto simp add: snapColor_def Let_def)

lemma squares_not_neg: "\<not> a * a + b * b + c * c < (0::real)"
  by (simp add: not_less add_nonneg_nonneg)

lemma finite_yuv_distance:
  "finite_yuv c \<Longrightarrow> finite_yuv s \<Longrightarrow> yuv_distance c s = Fin (euclid c s)"
  by (cases "(c)" rule: finite_yuv.cases; cases "(s)" rule: finite_yuv.cases)
     (simp_all add: yuv_distance_def euclid_def yuv_at_def jsub_def jpow2_def power2_eq_square
        squares_not_neg)

text \<open>
  The loop over candidates with finite distances: nothing changes when no distance is
  below the current value; otherwise the result is the first position of the least
  distance.
\<close>

lemma loop_argmin:
  assumes "\<forall>e \<in> set es. yuv_distance (YUV (color e)) src = Fin (euclid (YUV (color e)) src)"
  shows "(if \<forall>e \<in> set es. \<not> euclid (YUV (color e)) src < v
          then snap_loop es src i li (Fin v) = li
          else i \<le> snap_loop es src i li (Fin v)
             \<and> snap_loop es src i li (Fin v) < i + length es
             \<and> euclid (YUV (color (es ! (snap_loop es src i li (Fin v) - i)))) src < v
             \<and> (\<forall>j < length es. euclid (YUV (color (es ! (snap_loop es src i li (Fin v) - i)))) src
                    \<le> euclid (YUV (color (es ! j))) src)
             \<and> (\<forall>j < snap_loop es src i li (Fin v) - i.
                    euclid (YUV (color (es ! (snap_loop es src i li (Fin v) - i)))) src
                    < euclid (YUV (color (es ! j))) src))"
  using assms
proof (induction es arbitrary: i li v)
  case Nil
  then show ?case by simp
next
  case (Cons e es)
  let ?D = "\<lambda>x. euclid (YUV (color x)) src"
  have de: "yuv_distance (YUV (color e)) src = Fin (?D e)" using Cons.prems by simp
  have rest: "\<forall>x \<in> set es. yuv_distance (YUV (color x)) src = Fin (?D x)" using Cons.prems by simp
  show ?case
  proof (cases "?D e < v")
    case True
    let ?r = "snap_loop es src (Suc i) i (Fin (?D e))"
    have step: "snap_loop (e # es) src i li (Fin v) = ?r" using True de by (simp add: Let_def)
    note IH = Cons.IH[OF rest, of "?D e" "Suc i" i]
    show ?thesis
    proof (cases "\<forall>x \<in> set es. \<not> ?D x < ?D e")
      case allge: True
      with IH have r: "?r = i" by simp
      have "\<forall>j < length (e # es). ?D e \<le> ?D ((e # es) ! j)"
      proof (intro allI impI)
        fix j assume "j < length (e # es)"
        then show "?D e \<le> ?D ((e # es) ! j)"
          using allge by (cases j) (auto simp add: not_less)
      qed
      then show ?thesis using True unfolding step r by auto
    next
      case False
      with IH have a: "Suc i \<le> ?r" "?r < Suc i + length es"
        and b: "?D (es ! (?r - Suc i)) < ?D e"
        and c: "\<forall>j < length es. ?D (es ! (?r - Suc i)) \<le> ?D (es ! j)"
        and d: "\<forall>j < ?r - Suc i. ?D (es ! (?r - Suc i)) < ?D (es ! j)"
        by auto
      from a have idx: "?r - i = Suc (?r - Suc i)" by simp
      have m: "\<forall>j < length (e # es). ?D ((e # es) ! (?r - i)) \<le> ?D ((e # es) ! j)"
      proof (intro allI impI)
        fix j assume "j < length (e # es)"
        then show "?D ((e # es) ! (?r - i)) \<le> ?D ((e # es) ! j)"
          using b c unfolding idx by (cases j) auto
      qed
      have f: "\<forall>j < ?r - i. ?D ((e # es) ! (?r - i)) < ?D ((e # es) ! j)"
      proof (intro allI impI)
        fix j assume "j < ?r - i"
        then show "?D ((e # es) ! (?r - i)) < ?D ((e # es) ! j)"
          using b d unfolding idx by (cases j) auto
      qed
      have g: "?D ((e # es) ! (?r - i)) < v" using b True unfolding idx by simp
      show ?thesis using True a m f g unfolding step by auto
    qed
  next
    case nlt: False
    let ?r = "snap_loop es src (Suc i) li (Fin v)"
    have step: "snap_loop (e # es) src i li (Fin v) = ?r" using nlt de by (simp add: Let_def)
    note IH = Cons.IH[OF rest, of v "Suc i" li]
    show ?thesis
    proof (cases "\<forall>x \<in> set es. \<not> ?D x < v")
      case True
      with IH have "?r = li" by simp
      then show ?thesis using True nlt unfolding step by simp
    next
      case False
      with IH have a: "Suc i \<le> ?r" "?r < Suc i + length es"
        and b: "?D (es ! (?r - Suc i)) < v"
        and c: "\<forall>j < length es. ?D (es ! (?r - Suc i)) \<le> ?D (es ! j)"
        and d: "\<forall>j < ?r - Suc i. ?D (es ! (?r - Suc i)) < ?D (es ! j)"
        by auto
      from a have idx: "?r - i = Suc (?r - Suc i)" by simp
      have m: "\<forall>j < length (e # es). ?D ((e # es) ! (?r - i)) \<le> ?D ((e # es) ! j)"
      proof (intro allI impI)
        fix j assume "j < length (e # es)"
        then show "?D ((e # es) ! (?r - i)) \<le> ?D ((e # es) ! j)"
          using b c nlt unfolding idx by (cases j) auto
      qed
      have f: "\<forall>j < ?r - i. ?D ((e # es) ! (?r - i)) < ?D ((e # es) ! j)"
      proof (intro allI impI)
        fix j assume "j < ?r - i"
        then show "?D ((e # es) ! (?r - i)) < ?D ((e # es) ! j)"
          using b d nlt unfolding idx by (cases j) auto
      qed
      have g: "?D ((e # es) ! (?r - i)) < v" using b unfolding idx by simp
      show ?thesis using False a m f g unfolding step by auto
    qed
  qed
qed

lemma yuv_range_cases:
  assumes "yuv_in_range c"
  obtains y u v where "c = Some (Fin y, Fin u, Fin v)"
    and "0 \<le> y" "y \<le> 255" "0 \<le> u" "u \<le> 255" "0 \<le> v" "v \<le> 255"
  using assms by (cases "(c)" rule: yuv_in_range.cases) simp_all

lemma yuv_range_finite: "yuv_in_range c \<Longrightarrow> finite_yuv c"
  by (erule yuv_range_cases) simp



lemma sqrt_less_numeral: "0 \<le> v \<Longrightarrow> (sqrt x < v) = (x < v\<^sup>2)"
  using real_sqrt_less_iff[of x "v\<^sup>2"] by simp

lemmas palette_eval =
  snapColorSetup_def renderColorData_def upt_rec

lemmas snap_eval =
  snapColor_def candidates_def source_rgb_def yuv_distance_def yuv_at_def jsub_def jpow2_def
  sqrt_less_numeral



text \<open>Every hexadecimal colour is within range, so its YUV value is in range and finite.\<close>

lemma hex_color_in_range: "hex_color s \<Longrightarrow> rgb_in_range (colorStringToArray (JString s))"
  using color_hex_range[of s] by auto

lemma hex_color_finite_yuv:
  "hex_color s \<Longrightarrow> finite_yuv (rgbToYUV (colorStringToArray (JString s)))"
  by (rule yuv_range_finite, rule rgb_yuv_range, rule hex_color_in_range)


lemma limit_bound: "0 < l \<Longrightarrow> snapColor pal source (Some l) < nat l"
proof -
  assume l: "0 < l"
  have "length (candidates pal (Some l)) \<le> nat l"
    using l by (simp add: candidates_take candidate_count_def)
  moreover have "0 < nat l" using l by simp
  ultimately show ?thesis using snapColor_bound[of pal source "Some l"] by auto
qed





lemma euclid_nonneg: "0 \<le> euclid c s"
  by (simp add: euclid_def)

lemma three_squares_zero: "(a\<^sup>2 + b\<^sup>2 + c\<^sup>2 = 0) = (a = 0 \<and> b = 0 \<and> c = (0::real))"
  by (simp add: add_nonneg_eq_0_iff)

lemma euclid_zero_iff:
  "finite_yuv c \<Longrightarrow> finite_yuv s \<Longrightarrow> (euclid c s = 0) = (c = s)"
  by (cases "(c)" rule: finite_yuv.cases; cases "(s)" rule: finite_yuv.cases)
     (auto simp add: euclid_def yuv_at_def three_squares_zero)

text \<open>
  A candidate at distance 0, all others at a distance that is finite and not 0: the loop
  returns the position of that candidate.
\<close>

lemma loop_exact:
  assumes fin: "\<forall>e \<in> set es. yuv_distance (YUV (color e)) src = Fin (euclid (YUV (color e)) src)"
    and k: "k < length es"
    and zero: "euclid (YUV (color (es ! k))) src = 0"
    and others: "\<forall>j < length es. j \<noteq> k \<longrightarrow> euclid (YUV (color (es ! j))) src \<noteq> 0"
    and v: "0 < v"
  shows "snap_loop es src i li (Fin v) = i + k"
proof -
  let ?r = "snap_loop es src i li (Fin v)"
  have "es ! k \<in> set es" using k by simp
  moreover have "euclid (YUV (color (es ! k))) src < v" using zero v by simp
  ultimately have "\<not> (\<forall>e \<in> set es. \<not> euclid (YUV (color e)) src < v)" by blast
  with loop_argmin[OF fin, of v i li]
  have a: "i \<le> ?r" "?r < i + length es"
    and m: "\<forall>j < length es. euclid (YUV (color (es ! (?r - i)))) src \<le> euclid (YUV (color (es ! j))) src"
    by auto
  from m k zero have "euclid (YUV (color (es ! (?r - i)))) src \<le> 0" by auto
  with euclid_nonneg[of "YUV (color (es ! (?r - i)))" src]
  have "euclid (YUV (color (es ! (?r - i)))) src = 0" by simp
  moreover have "?r - i < length es" using a by simp
  ultimately have "?r - i = k" using others by blast
  with a show ?thesis by simp
qed

lemma finite_yuv_rgb:
  assumes "finite_yuv (rgbToYUV rgb)"
  shows "\<exists>a. rgb = Some a \<and> \<not> isNaN (nth_num a 0)"
proof (cases rgb)
  case None
  with assms show ?thesis by (simp add: rgbToYUV_def)
next
  case (Some a)
  have "\<not> isNaN (nth_num a 0)"
  proof
    assume "isNaN (nth_num a 0)"
    then have "nth_num a 0 = NaN" by (cases "nth_num a 0") simp_all
    with assms Some show False by (simp add: rgbToYUV_def Let_def)
  qed
  with Some show ?thesis by simp
qed

text \<open>
  Claim C9. For a palette built by \<open>snapColorSetup\<close> whose entries have finite YUV
  values that are pairwise distinct, matching the reference colour of entry \<open>k\<close> with
  no limit returns \<open>k\<close>, and the distance of that match is 0. This holds for the
  entry's colour string and for its RGB array alike.
\<close>

theorem snapColor_own_color:
  assumes pal: "pal = snapColorSetup colors"
    and fin: "\<forall>e \<in> set pal. finite_yuv (YUV (color e))"
    and dist: "distinct (map (\<lambda>e. YUV (color e)) pal)"
    and k: "k < length pal"
  shows "snapColor pal (JString (HEX (color (pal ! k)))) None = k
     \<and> yuv_distance (YUV (color (pal ! k)))
          (rgbToYUV (source_rgb (JString (HEX (color (pal ! k)))))) = Fin 0
     \<and> (\<forall>a. RGB (color (pal ! k)) = Some a
          \<longrightarrow> snapColor pal (JNumArray a) None = k
            \<and> yuv_distance (YUV (color (pal ! k))) (rgbToYUV (source_rgb (JNumArray a))) = Fin 0)"
proof -
  let ?h = "colors ! k"
  let ?y = "YUV (color (pal ! k))"
  from k pal have kc: "k < length colors" by (simp add: setup_length)
  have ck: "color (pal ! k) = \<lparr>HEX = ?h, RGB = colorStringToArray (JString ?h),
        YUV = rgbToYUV (colorStringToArray (JString ?h))\<rparr>"
    using setup_nth[OF kc] pal by simp
  have fk: "finite_yuv ?y" using fin k by simp
  then have "finite_yuv (rgbToYUV (colorStringToArray (JString ?h)))" using ck by simp
  from finite_yuv_rgb[OF this] obtain a where a: "colorStringToArray (JString ?h) = Some a"
    and nn: "\<not> isNaN (nth_num a 0)" by blast
  have ya: "?y = rgbToYUV (Some a)" using ck a by simp
  have s1: "source_rgb (JString ?h) = Some a" using a nn by (simp add: source_rgb_def)
  have s2: "source_rgb (JNumArray a) = Some a" using nn by (simp add: source_rgb_def)
  have allfin: "\<forall>e \<in> set pal. yuv_distance (YUV (color e)) ?y = Fin (euclid (YUV (color e)) ?y)"
    using fin fk finite_yuv_distance by blast
  have zero: "euclid (YUV (color (pal ! k))) ?y = 0"
    using euclid_zero_iff[OF fk fk] by simp
  have others: "\<forall>j < length pal. j \<noteq> k \<longrightarrow> euclid (YUV (color (pal ! j))) ?y \<noteq> 0"
  proof (intro allI impI)
    fix j assume j: "j < length pal" and jk: "j \<noteq> k"
    have "(map (\<lambda>e. YUV (color e)) pal ! j = map (\<lambda>e. YUV (color e)) pal ! k) = (j = k)"
      using dist j k by (intro nth_eq_iff_index_eq) simp_all
    then have ne: "YUV (color (pal ! j)) \<noteq> ?y" using j k jk by simp
    have "finite_yuv (YUV (color (pal ! j)))" using fin j by simp
    from euclid_zero_iff[OF this fk] ne show "euclid (YUV (color (pal ! j))) ?y \<noteq> 0" by simp
  qed
  have loop: "snap_loop pal ?y 0 0 (Fin 1000) = k"
    using loop_exact[OF allfin k zero others, of 1000 0 0] by simp
  have d0: "yuv_distance ?y ?y = Fin 0"
    using finite_yuv_distance[OF fk fk] zero by simp
  have r1: "snapColor pal (JString (HEX (color (pal ! k)))) None = k"
    using loop by (simp add: snapColor_def candidates_def Let_def ck s1 a)
  have r2: "snapColor pal (JNumArray a) None = k"
    using loop by (simp add: snapColor_def candidates_def Let_def s2 ck a)
  have d1: "yuv_distance ?y (rgbToYUV (source_rgb (JString (HEX (color (pal ! k)))))) = Fin 0"
    using d0 by (simp add: ck s1 a)
  have d2: "yuv_distance ?y (rgbToYUV (source_rgb (JNumArray a))) = Fin 0"
    using d0 by (simp add: s2 ck a)
  have "RGB (color (pal ! k)) = Some a" using ck a by simp
  with r1 r2 d1 d2 show ?thesis by simp
qed

theorem snapColor_own_color_witness:
  "list_all (\<lambda>e. finite_yuv (YUV (color e))) (snapColorSetup [''#FFFFFF'', ''#808080'', ''#818081''])
   \<and> map (\<lambda>e. YUV (color e)) (snapColorSetup [''#FFFFFF'', ''#808080'', ''#818081''])
       = [Some (Fin 255, Fin 128, Fin 128), Some (Fin 127, Fin 128, Fin 128),
          Some (Fin 128, Fin 128, Fin 128)]
   \<and> distinct (map (\<lambda>e. YUV (color e)) (snapColorSetup [''#FFFFFF'', ''#808080'', ''#818081'']))
   \<and> snapColor (snapColorSetup [''#FFFFFF'', ''#808080'', ''#818081'']) (JString ''#818081'') None = 2
   \<and> snapColor (snapColorSetup [''#FFFFFF'', ''#808080'', ''#818081''])
        (JNumArray [Fin 129, Fin 128, Fin 129]) None = 2"
  using snapColor_own_color [of "snapColorSetup [''#FFFFFF'', ''#808080'', ''#818081'']"
      "[''#FFFFFF'', ''#808080'', ''#818081'']" 2]
  by (simp add: palette_eval color_eval yuv_eval)

text \<open>
  Distinct colours need not have distinct YUV values: black and \<open>#010101\<close> both have
  (0, 128, 128), and matching the second of them returns the first.
\<close>

lemma equal_yuv_first_wins:
  "map (\<lambda>e. YUV (color e)) (snapColorSetup [''#000000'', ''#010101''])
     = [Some (Fin 0, Fin 128, Fin 128), Some (Fin 0, Fin 128, Fin 128)]
   \<and> snapColor (snapColorSetup [''#000000'', ''#010101'']) (JString ''#010101'') None = 0"
  by (simp add: palette_eval snap_eval color_eval yuv_eval)


section \<open>Properties of the layer colouring\<close>

lemma autoColor_items_nth:
  assumes "autoColor_items css pal L outline its n = Inr (items, outs, n')"
  shows "length items = length its
     \<and> (\<forall>i < length its. \<exists>m out. color_item css pal L outline m (its ! i) = Inr (items ! i, out))"
  using assms
proof (induction its arbitrary: n items outs n')
  case Nil
  then show ?case by simp
next
  case (Cons it rest)
  from Cons.prems obtain it' out where ci: "color_item css pal L outline n it = Inr (it', out)"
    by (auto split: sum.splits)
  from Cons.prems ci obtain items0 outs0 where
    rec: "autoColor_items css pal L outline rest (case out of None \<Rightarrow> n | Some x \<Rightarrow> Suc n)
            = Inr (items0, outs0, n')"
    and items: "items = it' # items0"
    by (auto split: sum.splits)
  from Cons.IH[OF rec] have len: "length items0 = length rest"
    and nth: "\<forall>i < length rest. \<exists>m out. color_item css pal L outline m (rest ! i) = Inr (items0 ! i, out)"
    by auto
  have "\<exists>m out. color_item css pal L outline m ((it # rest) ! i) = Inr (items ! i, out)"
    if "i < length (it # rest)" for i
  proof (cases i)
    case 0
    then show ?thesis using ci items by auto
  next
    case (Suc j)
    with that have "j < length rest" by simp
    with nth Suc items show ?thesis by simp
  qed
  then show ?case using len items by simp
qed

text \<open>
  The loop body on an item with a stroke and a fill colour: the stroke block records the
  stroke's index, the fill block then records the fill's index in the same entry.
\<close>

lemma color_item_both:
  assumes "color_item css pal L outline m it = Inr (it', out)"
    and "strokeColor it = Some sc" and "fillColor it = Some fc"
  shows "(\<exists>it1. match_stroke css pal L it = Inr it1
            \<and> data_color (data it1) = Some (snapColor pal (JString (css sc)) L))
     \<and> data_color (data it') = Some (snapColor pal (JString (css fc)) L)
     \<and> item_id it' = item_id it"
  using assms
  by (auto simp add: color_item_def match_stroke_def match_fill_def make_outline_def Let_def
      split: sum.splits if_splits option.splits)

text \<open>
  Claim C10. When \<open>autoColor\<close> has run on a layer, a child that had both a stroke and a
  fill colour carries one colour index, that of its fill colour under the limit in
  force: the stroke block ran first and recorded the stroke's index, which the fill block
  has overwritten.
\<close>

theorem autoColor_fill_index_wins:
  assumes run: "autoColor css pal limit outline s = Inr s'"
    and i: "i < length (layer_children s)"
    and stroke: "strokeColor (layer_children s ! i) = Some sc"
    and fillc: "fillColor (layer_children s ! i) = Some fc"
  shows "i < length (layer_children s')
     \<and> item_id (layer_children s' ! i) = item_id (layer_children s ! i)
     \<and> (\<exists>it1. match_stroke css pal (effective_limit pal limit outline) (layer_children s ! i) = Inr it1
            \<and> data_color (data it1)
                = Some (snapColor pal (JString (css sc)) (effective_limit pal limit outline)))
     \<and> data_color (data (layer_children s' ! i))
         = Some (snapColor pal (JString (css fc)) (effective_limit pal limit outline))"
proof -
  let ?L = "effective_limit pal limit outline"
  from run obtain items outs n where
    loop: "autoColor_items css pal ?L outline (layer_children s) (next_id s) = Inr (items, outs, n)"
    and s': "layer_children s' = items @ outs"
    by (auto simp add: autoColor_def effective_limit_def Let_def split: sum.splits)
  from autoColor_items_nth[OF loop] i obtain m out where
    len: "length items = length (layer_children s)"
    and ci: "color_item css pal ?L outline m (layer_children s ! i) = Inr (items ! i, out)"
    by blast
  have nth: "layer_children s' ! i = items ! i" using s' len i by (simp add: nth_append)
  from color_item_both[OF ci stroke fillc] show ?thesis
    using nth s' len i by simp
qed

lemmas scene_eval =
  sample_scene_def sample_item_def empty_data_def
  autoColor_def color_item_def match_stroke_def match_fill_def make_outline_def
  clone_detached_def effective_limit_def

lemma sample_palette_value:
  "sample_palette =
    [\<lparr>key = ''color0'', color = \<lparr>HEX = ''#FFFFFF'', RGB = Some [Fin 255, Fin 255, Fin 255],
          YUV = Some (Fin 255, Fin 128, Fin 128)\<rparr>\<rparr>,
     \<lparr>key = ''color1'', color = \<lparr>HEX = ''#888888'', RGB = Some [Fin 136, Fin 136, Fin 136],
          YUV = Some (Fin 136, Fin 128, Fin 128)\<rparr>\<rparr>,
     \<lparr>key = ''color2'', color = \<lparr>HEX = ''#000000'', RGB = Some [Fin 0, Fin 0, Fin 0],
          YUV = Some (Fin 0, Fin 128, Fin 128)\<rparr>\<rparr>]"
  by (simp add: sample_palette_def palette_eval color_eval yuv_eval)

lemma sample_snaps:
  "snapColor sample_palette (JString ''rgb(0,0,0)'') None = 2"
  "snapColor sample_palette (JString ''rgb(250,250,250)'') None = 0"
  "snapColor sample_palette (JString ''rgb(120,120,120)'') None = 1"
  "snapColor sample_palette (JString ''rgb(0,0,0)'') (Some 2) = 1"
  "snapColor sample_palette (JString ''rgb(250,250,250)'') (Some 2) = 0"
  "snapColor sample_palette (JString ''rgb(120,120,120)'') (Some 2) = 1"
  by (simp_all add: sample_palette_value snap_eval color_eval yuv_eval)

lemma sample_entries:
  "length sample_palette = 3"
  "HEX (color (sample_palette ! 0)) = ''#FFFFFF''"
  "HEX (color (sample_palette ! Suc 0)) = ''#888888''"
  "HEX (color (sample_palette ! 1)) = ''#888888''"
  "HEX (color (sample_palette ! 2)) = ''#000000''"
  by (simp_all add: sample_palette_value)

lemma sample_run:
  "autoColor (\<lambda>c. c) sample_palette None False sample_scene =
     Inr \<lparr>layer_children =
        [\<lparr>item_id = 0, geometry = Path \<lparr>segments = [], closed' = False\<rparr>,
          strokeColor = Some ''#000000'', strokeWidth = 1, fillColor = Some ''#FFFFFF'',
          data = \<lparr>data_name = [], data_color = Some 0, data_fill = Some True,
                   data_processed = False\<rparr>\<rparr>,
         \<lparr>item_id = 1, geometry = Path \<lparr>segments = [], closed' = False\<rparr>,
          strokeColor = Some ''#888888'', strokeWidth = 1, fillColor = None,
          data = \<lparr>data_name = [], data_color = Some 1, data_fill = None,
                   data_processed = False\<rparr>\<rparr>],
      active_children = [], layer_is_active = True, next_id = 2\<rparr>"
  by (simp add: scene_eval sample_snaps sample_entries Let_def)

theorem autoColor_fill_index_wins_witness:
  "autoColor (\<lambda>c. c) sample_palette None False sample_scene \<noteq> Inl TypeError
   \<and> strokeColor (layer_children sample_scene ! 0) = Some ''rgb(0,0,0)''
   \<and> fillColor (layer_children sample_scene ! 0) = Some ''rgb(250,250,250)''
   \<and> snapColor sample_palette (JString ''rgb(0,0,0)'') None = 2
   \<and> snapColor sample_palette (JString ''rgb(250,250,250)'') None = 0
   \<and> data_color (data (layer_children
        (projr (autoColor (\<lambda>c. c) sample_palette None False sample_scene)) ! 0)) = Some 0"
  using autoColor_fill_index_wins [of "\<lambda>c. c" sample_palette None False sample_scene
      "projr (autoColor (\<lambda>c. c) sample_palette None False sample_scene)" 0
      "''rgb(0,0,0)''" "''rgb(250,250,250)''"]
  by (simp add: sample_run sample_snaps effective_limit_def) (simp add: sample_scene_def sample_item_def)


text \<open>With at least two palette entries, a match under the outline limit has a successor entry.\<close>

lemma outline_limit_bound:
  assumes "2 \<le> length pal"
  shows "snapColor pal src (Some (int (length pal) - 1)) + 1 < length pal"
proof -
  have "0 < int (length pal) - 1" using assms by simp
  from limit_bound[OF this, of pal src] show ?thesis by simp
qed

text \<open>A palette of one entry matches every colour to index 0, under every limit.\<close>

lemma snapColor_single: "length pal = 1 \<Longrightarrow> snapColor pal src limit = 0"
proof -
  assume l: "length pal = 1"
  have "length (candidates pal limit) \<le> 1"
    using l by (simp add: candidates_take)
  then show ?thesis using snapColor_bound[of pal src limit] by auto
qed

lemma color_item_outline:
  assumes "2 \<le> length pal"
  shows "\<exists>it2 out. color_item css pal (Some (int (length pal) - 1)) True n it = Inr (it2, out)
      \<and> item_id it2 = item_id it
      \<and> (fillColor it = None \<longrightarrow> out = None)
      \<and> (fillColor it \<noteq> None \<longrightarrow>
           (\<exists>ol. out = Some ol \<and> item_id ol = n
              \<and> outline_view ol =
                  (geometry it,
                   Some (HEX (color (pal ! (fill_index css pal (Some (int (length pal) - 1)) it + 1)))),
                   5, None,
                   Some (fill_index css pal (Some (int (length pal) - 1)) it + 1),
                   Some False)))"
proof -
  let ?L = "Some (int (length pal) - 1)"
  have b1: "snapColor pal src ?L + 1 < length pal" for src
    using outline_limit_bound[OF assms] by simp
  have b0: "snapColor pal src ?L < length pal" for src
    using b1[of src] by simp
  show ?thesis
  proof (cases "strokeColor it")
    case None
    then show ?thesis
      using b0 b1
      by (cases "fillColor it")
         (simp_all add: color_item_def match_stroke_def match_fill_def make_outline_def
            clone_detached_def outline_view_def fill_index_def Let_def)
  next
    case (Some sc)
    then show ?thesis
      using b0 b1
      by (cases "fillColor it")
         (simp_all add: color_item_def match_stroke_def match_fill_def make_outline_def
            clone_detached_def outline_view_def fill_index_def Let_def)
  qed
qed

lemma autoColor_items_outline:
  assumes "2 \<le> length pal"
  shows "\<exists>items outlines.
      autoColor_items css pal (Some (int (length pal) - 1)) True its n
        = Inr (items, outlines, n + length outlines)
      \<and> map item_id items = map item_id its
      \<and> map outline_view outlines =
          map (\<lambda>it. (geometry it,
                Some (HEX (color (pal ! (fill_index css pal (Some (int (length pal) - 1)) it + 1)))),
                5, None,
                Some (fill_index css pal (Some (int (length pal) - 1)) it + 1),
                Some False))
            (filter (\<lambda>it. fillColor it \<noteq> None) its)
      \<and> map item_id outlines = [n ..< n + length outlines]"
proof (induction its arbitrary: n)
  case Nil
  show ?case by simp
next
  case (Cons it rest)
  let ?L = "Some (int (length pal) - 1)"
  let ?view = "\<lambda>it. (geometry it,
                Some (HEX (color (pal ! (fill_index css pal ?L it + 1)))),
                5, None, Some (fill_index css pal ?L it + 1), Some False)"
  from color_item_outline[OF assms, of css n it] obtain it2 out where
    ci: "color_item css pal ?L True n it = Inr (it2, out)"
    and id2: "item_id it2 = item_id it"
    and none: "fillColor it = None \<longrightarrow> out = None"
    and some: "fillColor it \<noteq> None \<longrightarrow>
        (\<exists>ol. out = Some ol \<and> item_id ol = n \<and> outline_view ol = ?view it)"
    by (elim exE conjE) (rule that, assumption+)
  show ?case
  proof (cases "fillColor it")
    case None
    with none have out: "out = None" by simp
    from Cons.IH[of n] obtain items outlines where
      rec: "autoColor_items css pal ?L True rest n = Inr (items, outlines, n + length outlines)"
      and ids: "map item_id items = map item_id rest"
      and views: "map outline_view outlines = map ?view (filter (\<lambda>it. fillColor it \<noteq> None) rest)"
      and fresh: "map item_id outlines = [n ..< n + length outlines]"
      by blast
    have "autoColor_items css pal ?L True (it # rest) n
            = Inr (it2 # items, outlines, n + length outlines)"
      using ci out rec by simp
    then show ?thesis using ids views fresh id2 None by auto
  next
    case (Some c)
    with some obtain ol where out: "out = Some ol" and idn: "item_id ol = n"
      and view: "outline_view ol = ?view it" by auto
    from Cons.IH[of "Suc n"] obtain items outlines where
      rec: "autoColor_items css pal ?L True rest (Suc n)
              = Inr (items, outlines, Suc n + length outlines)"
      and ids: "map item_id items = map item_id rest"
      and views: "map outline_view outlines = map ?view (filter (\<lambda>it. fillColor it \<noteq> None) rest)"
      and fresh: "map item_id outlines = [Suc n ..< Suc n + length outlines]"
      by blast
    have run: "autoColor_items css pal ?L True (it # rest) n
            = Inr (it2 # items, ol # outlines, n + length (ol # outlines))"
      using ci out rec by simp
    have fresh': "map item_id (ol # outlines) = [n ..< n + length (ol # outlines)]"
    proof -
      have "n < n + length (ol # outlines)" by simp
      then have "[n ..< n + length (ol # outlines)] = n # [Suc n ..< n + length (ol # outlines)]"
        by (rule upt_conv_Cons)
      moreover have "n + length (ol # outlines) = Suc n + length outlines" by simp
      ultimately have "[n ..< n + length (ol # outlines)] = n # [Suc n ..< Suc n + length outlines]"
        by (simp only:)
      then show ?thesis using idn fresh by (simp only: list.map)
    qed
    have views': "map outline_view (ol # outlines)
        = map ?view (filter (\<lambda>it. fillColor it \<noteq> None) (it # rest))"
      using view views Some by simp
    have ids': "map item_id (it2 # items) = map item_id (it # rest)"
      using id2 ids by simp
    from run ids' views' fresh' show ?thesis by blast
  qed
qed

text \<open>
  Claim C5, as amended. With the outline flag set and a palette of at least two entries,
  the limit argument is without effect: the matching limit is the palette size less one.
  The call succeeds; the layer then holds the original children, in their places,
  followed by the outlines. There is one outline for every child that had a fill colour, in the
  order of the children: a copy of the child, with an identity of its own, whose stroke
  is the colour of the palette entry after the one matched by the fill, whose stroke
  width is 5, which has no fill, and whose data records that index and no fill.
\<close>

theorem autoColor_outlines:
  assumes "2 \<le> length pal"
  shows "\<exists>items outlines.
      autoColor css pal limit True s
        = Inr (s\<lparr>layer_children := items @ outlines, next_id := next_id s + length outlines\<rparr>)
      \<and> map item_id items = map item_id (layer_children s)
      \<and> map outline_view outlines =
          map (\<lambda>it. (geometry it,
                Some (HEX (color (pal ! (fill_index css pal (Some (int (length pal) - 1)) it + 1)))),
                5, None,
                Some (fill_index css pal (Some (int (length pal) - 1)) it + 1),
                Some False))
            (filter (\<lambda>it. fillColor it \<noteq> None) (layer_children s))
      \<and> map item_id outlines = [next_id s ..< next_id s + length outlines]
      \<and> autoColor css pal limit True s = autoColor css pal limit2 True s
      \<and> effective_limit pal limit True = Some (int (length pal) - 1)"
proof -
  from autoColor_items_outline[OF assms, of css "layer_children s" "next_id s"]
  obtain items outlines where
    run: "autoColor_items css pal (Some (int (length pal) - 1)) True (layer_children s) (next_id s)
        = Inr (items, outlines, next_id s + length outlines)"
    and rest: "map item_id items = map item_id (layer_children s)"
      "map outline_view outlines =
          map (\<lambda>it. (geometry it,
                Some (HEX (color (pal ! (fill_index css pal (Some (int (length pal) - 1)) it + 1)))),
                5, None,
                Some (fill_index css pal (Some (int (length pal) - 1)) it + 1),
                Some False))
            (filter (\<lambda>it. fillColor it \<noteq> None) (layer_children s))"
      "map item_id outlines = [next_id s ..< next_id s + length outlines]"
    by blast
  have a: "autoColor css pal limit True s
        = Inr (s\<lparr>layer_children := items @ outlines, next_id := next_id s + length outlines\<rparr>)"
    using run by (simp add: autoColor_def)
  have b: "autoColor css pal limit True s = autoColor css pal limit2 True s"
    by (simp add: autoColor_def)
  have c: "effective_limit pal limit True = Some (int (length pal) - 1)"
    by (simp add: effective_limit_def)
  from a rest b c show ?thesis by blast
qed

lemma sample_outline_run:
  "autoColor (\<lambda>c. c) sample_palette (Some 1) True sample_scene =
     Inr \<lparr>layer_children =
        [\<lparr>item_id = 0, geometry = Path \<lparr>segments = [], closed' = False\<rparr>,
          strokeColor = Some ''#888888'', strokeWidth = 1, fillColor = Some ''#FFFFFF'',
          data = \<lparr>data_name = [], data_color = Some 0, data_fill = Some True,
                   data_processed = False\<rparr>\<rparr>,
         \<lparr>item_id = 1, geometry = Path \<lparr>segments = [], closed' = False\<rparr>,
          strokeColor = Some ''#888888'', strokeWidth = 1, fillColor = None,
          data = \<lparr>data_name = [], data_color = Some 1, data_fill = None,
                   data_processed = False\<rparr>\<rparr>,
         \<lparr>item_id = 2, geometry = Path \<lparr>segments = [], closed' = False\<rparr>,
          strokeColor = Some ''#888888'', strokeWidth = 5, fillColor = None,
          data = \<lparr>data_name = [], data_color = Some 1, data_fill = Some False,
                   data_processed = False\<rparr>\<rparr>],
      active_children = [], layer_is_active = True, next_id = 3\<rparr>"
  by (simp add: scene_eval sample_snaps sample_entries Let_def)

theorem autoColor_outlines_witness:
  "2 \<le> length sample_palette
   \<and> autoColor (\<lambda>c. c) sample_palette None True sample_scene
       = autoColor (\<lambda>c. c) sample_palette (Some 1) True sample_scene
   \<and> map item_id (layer_children
        (projr (autoColor (\<lambda>c. c) sample_palette (Some 1) True sample_scene))) = [0, 1, 2]
   \<and> outline_view (layer_children
        (projr (autoColor (\<lambda>c. c) sample_palette (Some 1) True sample_scene)) ! 2)
       = (Path \<lparr>segments = [], closed' = False\<rparr>, Some ''#888888'', 5, None, Some 1, Some False)"
proof -
  have h: "2 \<le> length sample_palette" by (simp add: sample_entries)
  from autoColor_outlines [OF h, of "\<lambda>c. c" None sample_scene "Some 1"]
  have eq: "autoColor (\<lambda>c. c) sample_palette None True sample_scene
       = autoColor (\<lambda>c. c) sample_palette (Some 1) True sample_scene"
    by blast
  show ?thesis using h eq by (simp add: sample_outline_run outline_view_def)
qed

text \<open>
  The claim as the specification words it fails on a palette of one entry. The forced
  limit is then 0, which is falsy and leaves the one entry as candidate; the fill of the
  first child is matched to index 0, there is no entry at index 1, and reading its colour
  throws: no outline is made and nothing is appended.
\<close>

theorem autoColor_outline_single_counterexample:
  "length (snapColorSetup [''#FFFFFF'']) = 1
   \<and> effective_limit (snapColorSetup [''#FFFFFF'']) (Some 1) True = Some 0
   \<and> candidates (snapColorSetup [''#FFFFFF'']) (Some 0) = snapColorSetup [''#FFFFFF'']
   \<and> fillColor (layer_children sample_scene ! 0) = Some ''rgb(250,250,250)''
   \<and> fill_index (\<lambda>c. c) (snapColorSetup [''#FFFFFF'']) (Some 0)
        (layer_children sample_scene ! 0) = 0
   \<and> autoColor (\<lambda>c. c) (snapColorSetup [''#FFFFFF'']) (Some 1) True sample_scene
       = Inl TypeError"
  by (simp add: scene_eval snapColor_single setup_length candidates_def fill_index_def)


section \<open>Properties of the offsetting\<close>

lemma filter_insert_after:
  "\<forall>x \<in> set xs. item_id x \<noteq> item_id c \<Longrightarrow>
     filter (\<lambda>x. item_id x \<noteq> item_id c) (insert_after i c xs) = xs"
  by (induction xs) auto

lemma filter_fresh:
  "\<forall>x \<in> set xs. item_id x \<noteq> i \<Longrightarrow> filter (\<lambda>x. item_id x \<noteq> i) xs = xs"
  by (induction xs) auto

lemma update_fresh:
  "\<forall>x \<in> set xs. item_id x \<noteq> i \<Longrightarrow> map (\<lambda>x. if item_id x = i then y else x) xs = xs"
  by (induction xs) auto

lemma scene_ok_ids:
  "scene_ok s \<Longrightarrow> (\<forall>x \<in> set (layer_children s). item_id x < next_id s)
     \<and> (\<forall>x \<in> set (active_children s). item_id x < next_id s)"
  by (auto simp add: scene_ok_def list_all_iff)

text \<open>The temporary clone: inserted, then removed, it leaves the scene as it was.\<close>

lemma clone_then_remove:
  assumes "scene_ok s"
  shows "remove_item (item_id (fst (clone_item it s))) (snd (clone_item it s))
           = s\<lparr>next_id := Suc (next_id s)\<rparr>"
proof -
  let ?c = "it\<lparr>item_id := next_id s\<rparr>"
  from scene_ok_ids[OF assms]
  have l: "\<forall>x \<in> set (layer_children s). item_id x \<noteq> item_id ?c"
    and a: "\<forall>x \<in> set (active_children s). item_id x \<noteq> item_id ?c"
    by auto
  show ?thesis
    using filter_insert_after[OF l, of "item_id it"] filter_insert_after[OF a, of "item_id it"]
    by (simp add: clone_item_def remove_item_def Let_def)
qed

text \<open>The three outcomes of \<open>offsetPath\<close> without replacement, on a well-formed scene.\<close>

lemma offsetPath_eq:
  assumes ok: "scene_ok s"
  shows "offsetPath env inPath amount res False s =
    (case flatten_paths env res (geometry inPath) of
       None \<Rightarrow> (Some inPath, s\<lparr>next_id := Suc (next_id s)\<rparr>)
     | Some paths \<Rightarrow>
        if offset_string env paths amount \<noteq> [] then
          (Some (inset_of env inPath (Suc (next_id s)) (offset_string env paths amount)),
           remove_item (item_id inPath)
             (insert_active (inset_of env inPath (Suc (next_id s)) (offset_string env paths amount))
                (s\<lparr>next_id := Suc (Suc (next_id s))\<rparr>)))
        else (None, remove_item (item_id inPath) (s\<lparr>next_id := Suc (next_id s)\<rparr>)))"
proof -
  have g: "geometry (fst (clone_item inPath s)) = geometry inPath"
    by (simp add: clone_item_def Let_def)
  note cr = clone_then_remove[OF ok, of inPath]
  from scene_ok_ids[OF ok]
  have l: "\<forall>x \<in> set (layer_children s). item_id x \<noteq> Suc (next_id s)"
    and a: "\<forall>x \<in> set (active_children s). item_id x \<noteq> Suc (next_id s)"
    by auto
  have upd: "update_item (inset_of env inPath (Suc (next_id s)) str)
       (insert_active \<lparr>item_id = Suc (next_id s), geometry = path_from_data env str,
           strokeColor = None, strokeWidth = 1, fillColor = None, data = empty_data\<rparr>
          (s\<lparr>next_id := Suc (Suc (next_id s))\<rparr>))
     = insert_active (inset_of env inPath (Suc (next_id s)) str)
          (s\<lparr>next_id := Suc (Suc (next_id s))\<rparr>)" for str
    using update_fresh[OF l] update_fresh[OF a]
    by (simp add: update_item_def insert_active_def inset_of_def)
  have ins: "\<lparr>item_id = Suc (next_id s), geometry = path_from_data env str,
           strokeColor = None, strokeWidth = 1, fillColor = None, data = empty_data\<rparr>
        \<lparr>data := data inPath, strokeColor := strokeColor inPath,
         strokeWidth := strokeWidth inPath, fillColor := fillColor inPath\<rparr>
      = inset_of env inPath (Suc (next_id s)) str" for str
    by (simp add: inset_of_def)
  show ?thesis
  proof (cases "flatten_paths env res (geometry inPath)")
    case None
    then show ?thesis
      using cr g by (simp add: offsetPath_def Let_def split_beta)
  next
    case (Some paths)
    then show ?thesis
      using cr g upd ins
      by (simp add: offsetPath_def Let_def split_beta offset_string_def offset_result_def)
  qed
qed


text \<open>The path data is empty exactly when the offset result has no polygon.\<close>

lemma paths2string_empty: "(paths2string num paths sc = []) = (paths = [])"
  by (cases paths) (simp_all add: paths2string_def Let_def)

lemma offset_string_empty:
  "(offset_string env paths amount = []) = (offset_result env paths amount = [])"
  by (simp add: offset_string_def paths2string_empty)

lemma offsetPath_throw:
  assumes ok: "scene_ok s" and fl: "flatten_paths env res (geometry inPath) = None"
  shows "offsetPath env inPath amount res doReplace s
           = (Some inPath, s\<lparr>next_id := Suc (next_id s)\<rparr>)"
proof -
  have g: "geometry (fst (clone_item inPath s)) = geometry inPath"
    by (simp add: clone_item_def Let_def)
  show ?thesis
    using clone_then_remove[OF ok, of inPath] g fl
    by (simp add: offsetPath_def Let_def split_beta)
qed

lemma offsetPath_vanish:
  assumes ok: "scene_ok s" and fl: "flatten_paths env res (geometry inPath) = Some paths"
    and empty: "offset_result env paths amount = []"
  shows "offsetPath env inPath amount res doReplace s
           = (None, remove_item (item_id inPath) (s\<lparr>next_id := Suc (next_id s)\<rparr>))"
proof -
  have g: "geometry (fst (clone_item inPath s)) = geometry inPath"
    by (simp add: clone_item_def Let_def)
  have "paths2string (num_to_string env)
          (OffsetExecute env 2 0.25 (Clean env (ScaleUpPaths env paths 100) (0.1 * 100))
             (amount * 100)) 100 = []"
    using empty by (simp add: paths2string_empty offset_result_def)
  then show ?thesis
    using clone_then_remove[OF ok, of inPath] g fl
    by (simp add: offsetPath_def Let_def split_beta)
qed

text \<open>
  Claim C1, as amended. When the flatten step throws, \<open>offsetPath\<close> removes its
  temporary clone only: the scene is as before (but for the identity the clone used up),
  the original path is still a child of its layer, and the result is the original input
  path itself. The original is removed and absence reported when the flatten step
  succeeds and the offset result is empty.
\<close>

theorem offsetPath_flatten_failure:
  "(scene_ok s \<and> flatten_paths env res (geometry inPath) = None \<longrightarrow>
      offsetPath env inPath amount res doReplace s
        = (Some inPath, s\<lparr>next_id := Suc (next_id s)\<rparr>)
      \<and> layer_children (snd (offsetPath env inPath amount res doReplace s)) = layer_children s
      \<and> active_children (snd (offsetPath env inPath amount res doReplace s)) = active_children s)
   \<and> (scene_ok s' \<and> flatten_paths env' res' (geometry inPath') = Some paths
        \<and> offset_result env' paths amount' = [] \<longrightarrow>
      offsetPath env' inPath' amount' res' doReplace' s'
        = (None, remove_item (item_id inPath') (s'\<lparr>next_id := Suc (next_id s')\<rparr>))
      \<and> layer_children (snd (offsetPath env' inPath' amount' res' doReplace' s'))
          = filter (\<lambda>x. item_id x \<noteq> item_id inPath') (layer_children s'))"
proof (intro conjI impI)
  assume a: "scene_ok s \<and> flatten_paths env res (geometry inPath) = None"
  then have eq: "offsetPath env inPath amount res doReplace s
        = (Some inPath, s\<lparr>next_id := Suc (next_id s)\<rparr>)"
    using offsetPath_throw by blast
  show "offsetPath env inPath amount res doReplace s
        = (Some inPath, s\<lparr>next_id := Suc (next_id s)\<rparr>)" by (rule eq)
  show "layer_children (snd (offsetPath env inPath amount res doReplace s)) = layer_children s"
    by (simp add: eq)
  show "active_children (snd (offsetPath env inPath amount res doReplace s)) = active_children s"
    by (simp add: eq)
next
  assume b: "scene_ok s' \<and> flatten_paths env' res' (geometry inPath') = Some paths
        \<and> offset_result env' paths amount' = []"
  then have eq: "offsetPath env' inPath' amount' res' doReplace' s'
        = (None, remove_item (item_id inPath') (s'\<lparr>next_id := Suc (next_id s')\<rparr>))"
    using offsetPath_vanish by blast
  show "offsetPath env' inPath' amount' res' doReplace' s'
        = (None, remove_item (item_id inPath') (s'\<lparr>next_id := Suc (next_id s')\<rparr>))"
    by (rule eq)
  show "layer_children (snd (offsetPath env' inPath' amount' res' doReplace' s'))
          = filter (\<lambda>x. item_id x \<noteq> item_id inPath') (layer_children s')"
    by (simp add: eq remove_item_def)
qed

lemmas offset_eval =
  one_item_scene_def sample_item_def sample_env_def scene_ok_def flatten_paths_def
  flatten_child_def offset_result_def empty_data_def remove_item_def

theorem offsetPath_flatten_failure_witness:
  "scene_ok one_item_scene
   \<and> flatten_paths (sample_env (\<lambda>res p. None) (\<lambda>paths delta. paths)) 2
        (geometry (sample_item 0 None (Some ''#000000''))) = None
   \<and> fst (offsetPath (sample_env (\<lambda>res p. None) (\<lambda>paths delta. paths))
        (sample_item 0 None (Some ''#000000'')) (- 1) 2 False one_item_scene)
       = Some (sample_item 0 None (Some ''#000000''))
   \<and> flatten_paths (sample_env (\<lambda>res p. Some p) (\<lambda>paths delta. [])) 2
        (geometry (sample_item 0 None (Some ''#000000''))) = Some [[]]
   \<and> offset_result (sample_env (\<lambda>res p. Some p) (\<lambda>paths delta. [])) [[]] (- 1) = []
   \<and> offsetPath (sample_env (\<lambda>res p. Some p) (\<lambda>paths delta. []))
        (sample_item 0 None (Some ''#000000'')) (- 1) 2 False one_item_scene
       = (None, \<lparr>layer_children = [], active_children = [], layer_is_active = True,
                 next_id = 2\<rparr>)"
  using offsetPath_flatten_failure [of one_item_scene
      "sample_env (\<lambda>res p. None) (\<lambda>paths delta. paths)" 2
      "sample_item 0 None (Some ''#000000'')" "- 1" False
      one_item_scene "sample_env (\<lambda>res p. Some p) (\<lambda>paths delta. [])" 2
      "sample_item 0 None (Some ''#000000'')" "[[]]" "- 1" False]
  by (simp add: offset_eval)

text \<open>
  The claim as the specification words it fails: with a \<open>flatten\<close> that throws, the
  result on the one child of a layer is that child itself, and it is still the layer's
  child afterwards.
\<close>

theorem offsetPath_flatten_counterexample:
  "fst (offsetPath (sample_env (\<lambda>res p. None) (\<lambda>paths delta. paths))
        (sample_item 0 None (Some ''#000000'')) (- 1) 2 False one_item_scene)
     = Some (sample_item 0 None (Some ''#000000''))
   \<and> layer_children (snd (offsetPath (sample_env (\<lambda>res p. None) (\<lambda>paths delta. paths))
        (sample_item 0 None (Some ''#000000'')) (- 1) 2 False one_item_scene))
     = [sample_item 0 None (Some ''#000000'')]"
  by (simp add: offset_eval offsetPath_def clone_item_def Let_def)


section \<open>Properties of the thin feature removal\<close>

lemma insert_after_set: "set (insert_after i c xs) \<subseteq> insert c (set xs)"
  by (induction xs) auto

lemma insert_after_bound:
  assumes "\<forall>x \<in> set xs. item_id x < n" and "item_id c < Suc n"
  shows "\<forall>x \<in> set (insert_after i c xs). item_id x < Suc n"
proof
  fix x assume "x \<in> set (insert_after i c xs)"
  with insert_after_set[of i c xs] have "x = c \<or> x \<in> set xs" by auto
  then show "item_id x < Suc n" using assms by (auto simp add: less_Suc_eq)
qed

lemma scene_ok_clone:
  assumes "scene_ok s"
  shows "scene_ok (snd (clone_item it s))
     \<and> item_id (fst (clone_item it s)) < next_id (snd (clone_item it s))"
proof -
  let ?c = "it\<lparr>item_id := next_id s\<rparr>"
  from scene_ok_ids[OF assms]
  have l: "\<forall>x \<in> set (layer_children s). item_id x < next_id s"
    and a: "\<forall>x \<in> set (active_children s). item_id x < next_id s" by auto
  have c: "item_id ?c < Suc (next_id s)" by simp
  from insert_after_bound[OF l c, of "item_id it"] insert_after_bound[OF a c, of "item_id it"]
  show ?thesis
    by (simp add: clone_item_def Let_def scene_ok_def list_all_iff ball_Un)
qed

lemma scene_ok_next:
  assumes "scene_ok s" and "next_id s \<le> n"
  shows "scene_ok (s\<lparr>next_id := n\<rparr>)"
proof -
  from scene_ok_ids[OF assms(1)] assms(2)
  have "\<forall>x \<in> set (layer_children s). item_id x < n"
    and "\<forall>x \<in> set (active_children s). item_id x < n"
    by fastforce+
  then show ?thesis by (simp add: scene_ok_def list_all_iff ball_Un)
qed

lemma inset_id: "item_id (inset_of env p i str) = i"
  by (simp add: inset_of_def)

lemma scene_ok_remove: "scene_ok s \<Longrightarrow> scene_ok (remove_item i s)"
  by (auto simp add: scene_ok_def remove_item_def list_all_iff)

lemma scene_ok_insert:
  "scene_ok s \<Longrightarrow> item_id it < next_id s \<Longrightarrow> scene_ok (insert_active it s)"
  by (auto simp add: scene_ok_def insert_active_def list_all_iff)

text \<open>Filtering out an identity that lies above all identities of a list changes nothing.\<close>

lemma filter_above:
  "\<forall>x \<in> set xs. item_id x < n \<Longrightarrow> n \<le> i \<Longrightarrow>
     filter (\<lambda>x. item_id x \<noteq> i) (filter P xs) = filter P xs"
  by (induction xs) auto

lemma add_child_layer:
  "layer_children (add_child (Some d) s)
     = filter (\<lambda>x. item_id x \<noteq> item_id d) (layer_children s) @ [d]"
  by (simp add: add_child_def remove_item_def Let_def)

lemma add_child_none: "add_child None s = s"
  by (simp add: add_child_def)

text \<open>
  The layer after one round of the loop: the shape that was offset has left it, and the
  survivor of the round trip, if there is one, is its last child.
\<close>

lemma thin_step_layer:
  assumes ok: "scene_ok s1" and idm: "item_id shape < next_id s1"
  shows "layer_children (add_child (fst (erodeDilateRoundTrip env shape amount res s1))
                           (snd (erodeDilateRoundTrip env shape amount res s1)))
       = filter (\<lambda>x. item_id x \<noteq> item_id shape) (layer_children s1)
           @ (case fst (erodeDilateRoundTrip env shape amount res s1) of
                None \<Rightarrow> [] | Some d \<Rightarrow> [d])"
proof -
  let ?L = "layer_children s1"
  let ?n = "next_id s1"
  let ?keep = "filter (\<lambda>x. item_id x \<noteq> item_id shape) ?L"
  from scene_ok_ids[OF ok] have lt: "\<forall>x \<in> set ?L. item_id x < ?n" by simp
  have above: "filter (\<lambda>x. item_id x \<noteq> i) ?keep = ?keep" if "?n \<le> i" for i
    using filter_above[OF lt that] .
  show ?thesis
  proof (cases "flatten_paths env res (geometry shape)")
    case None
    have ok': "scene_ok (s1\<lparr>next_id := Suc ?n\<rparr>)" using ok by (simp add: scene_ok_next)
    have e: "offsetPath env shape (- amount) res False s1 = (Some shape, s1\<lparr>next_id := Suc ?n\<rparr>)"
      using offsetPath_throw[OF ok None] .
    have d: "offsetPath env shape amount res False (s1\<lparr>next_id := Suc ?n\<rparr>)
          = (Some shape, s1\<lparr>next_id := Suc (Suc ?n)\<rparr>)"
      using offsetPath_throw[OF ok' None, of amount False] by simp
    have rt: "erodeDilateRoundTrip env shape amount res s1
          = (Some shape, s1\<lparr>next_id := Suc (Suc ?n)\<rparr>)"
      by (simp add: erodeDilateRoundTrip_def e d)
    show ?thesis by (simp add: rt add_child_layer)
  next
    case (Some paths)
    let ?str = "offset_string env paths (- amount)"
    show ?thesis
    proof (cases "?str = []")
      case True
      have e: "offsetPath env shape (- amount) res False s1
            = (None, remove_item (item_id shape) (s1\<lparr>next_id := Suc ?n\<rparr>))"
        using offsetPath_eq[OF ok, of env shape "- amount" res] Some True by simp
      have rt: "erodeDilateRoundTrip env shape amount res s1
            = (None, remove_item (item_id shape) (s1\<lparr>next_id := Suc ?n\<rparr>))"
        by (simp add: erodeDilateRoundTrip_def e)
      show ?thesis by (simp add: rt add_child_none) (simp add: remove_item_def)
    next
      case False
      define in1 where "in1 = inset_of env shape (Suc ?n) ?str"
      define s2 where
        "s2 = remove_item (item_id shape) (insert_active in1 (s1\<lparr>next_id := Suc (Suc ?n)\<rparr>))"
      have e: "offsetPath env shape (- amount) res False s1 = (Some in1, s2)"
        using offsetPath_eq[OF ok, of env shape "- amount" res] Some False
        by (simp add: in1_def s2_def)
      have id1: "item_id in1 = Suc ?n" by (simp add: in1_def inset_id)
      have ok2: "scene_ok s2"
        using ok id1 by (simp add: s2_def scene_ok_remove scene_ok_insert scene_ok_next)
      have n2: "next_id s2 = Suc (Suc ?n)"
        by (simp add: s2_def remove_item_def insert_active_def)
      have ne1: "item_id in1 \<noteq> item_id shape" using idm id1 by simp
      have l2: "layer_children s2 = ?keep @ (if layer_is_active s1 then [in1] else [])"
        using ne1 by (simp add: s2_def remove_item_def insert_active_def)
      have fl2: "layer_is_active s2 = layer_is_active s1"
        by (simp add: s2_def remove_item_def insert_active_def)
      have k1: "filter (\<lambda>x. item_id x \<noteq> item_id in1) ?keep = ?keep"
        using above[of "item_id in1"] id1 by simp
      have f2: "filter (\<lambda>x. item_id x \<noteq> item_id in1) (layer_children s2) = ?keep"
        using k1 by (simp add: l2)
      show ?thesis
      proof (cases "flatten_paths env res (geometry in1)")
        case None
        have d: "offsetPath env in1 amount res False s2
              = (Some in1, s2\<lparr>next_id := Suc (next_id s2)\<rparr>)"
          using offsetPath_throw[OF ok2 None] .
        have rt: "erodeDilateRoundTrip env shape amount res s1
              = (Some in1, s2\<lparr>next_id := Suc (next_id s2)\<rparr>)"
          by (simp add: erodeDilateRoundTrip_def e d)
        show ?thesis by (simp add: rt add_child_layer f2)
      next
        case (Some paths2)
        let ?str2 = "offset_string env paths2 amount"
        show ?thesis
        proof (cases "?str2 = []")
          case True
          define s3 where "s3 = remove_item (item_id in1) (s2\<lparr>next_id := Suc (next_id s2)\<rparr>)"
          have d: "offsetPath env in1 amount res False s2 = (None, s3)"
            using offsetPath_eq[OF ok2, of env in1 amount res] Some True by (simp add: s3_def)
          have rt: "erodeDilateRoundTrip env shape amount res s1 = (None, s3)"
            by (simp add: erodeDilateRoundTrip_def e d)
          have l3: "layer_children s3 = ?keep"
            using f2 by (simp add: s3_def remove_item_def)
          show ?thesis by (simp add: rt add_child_none l3)
        next
          case False
          define in2 where "in2 = inset_of env in1 (Suc (next_id s2)) ?str2"
          define s3 where
            "s3 = remove_item (item_id in1)
                    (insert_active in2 (s2\<lparr>next_id := Suc (Suc (next_id s2))\<rparr>))"
          have d: "offsetPath env in1 amount res False s2 = (Some in2, s3)"
            using offsetPath_eq[OF ok2, of env in1 amount res] Some False
            by (simp add: in2_def s3_def)
          have rt: "erodeDilateRoundTrip env shape amount res s1 = (Some in2, s3)"
            by (simp add: erodeDilateRoundTrip_def e d)
          have id2: "item_id in2 = Suc (Suc (Suc ?n))" by (simp add: in2_def inset_id n2)
          have k2: "filter (\<lambda>x. item_id x \<noteq> item_id in2) ?keep = ?keep"
            using above[of "item_id in2"] id2 by simp
          have ne2: "item_id in2 \<noteq> item_id in1" using id1 id2 by simp
          have l3: "layer_children s3 = ?keep @ (if layer_is_active s1 then [in2] else [])"
            using f2 ne2 fl2 by (simp add: s3_def remove_item_def insert_active_def)
          have "filter (\<lambda>x. item_id x \<noteq> item_id in2) (layer_children s3) = ?keep"
            using k2 by (simp add: l3)
          then show ?thesis by (simp add: rt add_child_layer)
        qed
      qed
    qed
  qed
qed


lemma thin_step_round_trip:
  "thin_step env amount clone it s =
     add_child
       (fst (erodeDilateRoundTrip env (fst (if clone then clone_item it s else (it, s))) amount 2
               (snd (if clone then clone_item it s else (it, s)))))
       (snd (erodeDilateRoundTrip env (fst (if clone then clone_item it s else (it, s))) amount 2
               (snd (if clone then clone_item it s else (it, s)))))"
  by (simp add: thin_step_def erodeDilateRoundTrip_def Let_def split_beta add_child_none
      split: option.splits)

lemma mask_ok:
  assumes "scene_ok s" and "item_id it < next_id s"
  shows "scene_ok (snd (if clone then clone_item it s else (it, s)))
     \<and> item_id (fst (if clone then clone_item it s else (it, s)))
          < next_id (snd (if clone then clone_item it s else (it, s)))"
  using assms scene_ok_clone[OF assms(1), of it] by simp

text \<open>
  Claim C4. For a child of the layer processed by \<open>destroyThinFeatures\<close> (one round of
  its loop, on a well-formed scene): when the erosion yields absence, so does the round
  trip, the round ends right after the erosion and nothing is added to the layer. In
  every case the layer afterwards is the layer before without the shape that was offset,
  followed by the survivor of the round trip if there is one; the survivor is what the
  dilation returned. An absent dilation result thus adds no child.
\<close>

theorem thin_step_adds_survivor_only:
  assumes "scene_ok s" and "item_id it < next_id s"
  shows
   "(let (shape, s1) = (if clone then clone_item it s else (it, s));
         (eroded, s2) = offsetPath env shape (- amount) 2 False s1;
         (survivor, s3) = erodeDilateRoundTrip env shape amount 2 s1
     in (eroded = None \<longrightarrow>
           survivor = None \<and> thin_step env amount clone it s = s2
           \<and> layer_children (thin_step env amount clone it s)
               = filter (\<lambda>x. item_id x \<noteq> item_id shape) (layer_children s1))
      \<and> (\<forall>m. eroded = Some m \<longrightarrow> (survivor, s3) = offsetPath env m amount 2 False s2)
      \<and> thin_step env amount clone it s = add_child survivor s3
      \<and> layer_children (thin_step env amount clone it s)
          = filter (\<lambda>x. item_id x \<noteq> item_id shape) (layer_children s1)
              @ (case survivor of None \<Rightarrow> [] | Some d \<Rightarrow> [d]))"
proof -
  let ?m = "if clone then clone_item it s else (it, s)"
  let ?shape = "fst ?m"
  let ?s1 = "snd ?m"
  let ?e = "offsetPath env ?shape (- amount) 2 False ?s1"
  let ?rt = "erodeDilateRoundTrip env ?shape amount 2 ?s1"
  from mask_ok[OF assms, of clone] have ok1: "scene_ok ?s1" and id1: "item_id ?shape < next_id ?s1"
    by auto
  have step: "thin_step env amount clone it s = add_child (fst ?rt) (snd ?rt)"
    by (rule thin_step_round_trip)
  have layer: "layer_children (thin_step env amount clone it s)
          = filter (\<lambda>x. item_id x \<noteq> item_id ?shape) (layer_children ?s1)
              @ (case fst ?rt of None \<Rightarrow> [] | Some d \<Rightarrow> [d])"
    unfolding step using thin_step_layer[OF ok1 id1, of env amount 2] .
  have none: "fst ?rt = None \<and> snd ?rt = snd ?e" if "fst ?e = None"
    using that by (simp add: erodeDilateRoundTrip_def split_beta)
  have some: "?rt = offsetPath env m amount 2 False (snd ?e)" if "fst ?e = Some m" for m
    using that by (simp add: erodeDilateRoundTrip_def split_beta)
  have a: "fst ?e = None \<longrightarrow>
           fst ?rt = None \<and> thin_step env amount clone it s = snd ?e
           \<and> layer_children (thin_step env amount clone it s)
               = filter (\<lambda>x. item_id x \<noteq> item_id ?shape) (layer_children ?s1)"
  proof
    assume n: "fst ?e = None"
    from none[OF n] have r: "fst ?rt = None" "snd ?rt = snd ?e" by auto
    show "fst ?rt = None \<and> thin_step env amount clone it s = snd ?e
           \<and> layer_children (thin_step env amount clone it s)
               = filter (\<lambda>x. item_id x \<noteq> item_id ?shape) (layer_children ?s1)"
      using layer r by (simp add: step add_child_none)
  qed
  have b: "\<forall>m. fst ?e = Some m \<longrightarrow> (fst ?rt, snd ?rt) = offsetPath env m amount 2 False (snd ?e)"
    using some by simp
  from a b step layer show ?thesis
    unfolding Let_def split_beta by (intro conjI) assumption+
qed


lemmas thin_eval =
  offsetPath_def clone_item_def insert_active_def update_item_def paths2string_def Let_def

lemma erosion_absent_run:
  "offsetPath (sample_env (\<lambda>res p. Some p) (\<lambda>paths delta. []))
        (sample_item 0 None (Some ''#000000'')) (- 1) 2 False one_item_scene
   = (None, \<lparr>layer_children = [], active_children = [], layer_is_active = True, next_id = 2\<rparr>)"
  by (simp add: offset_eval thin_eval)

lemma erosion_absent_step:
  "thin_step (sample_env (\<lambda>res p. Some p) (\<lambda>paths delta. [])) 1 False
        (sample_item 0 None (Some ''#000000'')) one_item_scene
   = \<lparr>layer_children = [], active_children = [], layer_is_active = True, next_id = 2\<rparr>"
  by (simp add: thin_step_def erosion_absent_run)

theorem thin_step_adds_survivor_only_witness:
  "scene_ok one_item_scene
   \<and> item_id (sample_item 0 None (Some ''#000000'')) < next_id one_item_scene
   \<and> fst (offsetPath (sample_env (\<lambda>res p. Some p) (\<lambda>paths delta. []))
        (sample_item 0 None (Some ''#000000'')) (- 1) 2 False one_item_scene) = None
   \<and> layer_children (thin_step (sample_env (\<lambda>res p. Some p) (\<lambda>paths delta. [])) 1 False
        (sample_item 0 None (Some ''#000000'')) one_item_scene) = []"
proof -
  have ok: "scene_ok one_item_scene"
    by (simp add: scene_ok_def one_item_scene_def sample_item_def)
  have idb: "item_id (sample_item 0 None (Some ''#000000'')) < next_id one_item_scene"
    by (simp add: one_item_scene_def sample_item_def)
  from thin_step_adds_survivor_only [OF ok idb, of False
      "sample_env (\<lambda>res p. Some p) (\<lambda>paths delta. [])" 1]
  have "layer_children (thin_step (sample_env (\<lambda>res p. Some p) (\<lambda>paths delta. [])) 1 False
        (sample_item 0 None (Some ''#000000'')) one_item_scene) = []"
    by (simp add: erosion_absent_run split_beta)
  with ok idb show ?thesis by (simp add: erosion_absent_run)
qed

lemma dilation_absent_erosion:
  "offsetPath (sample_env (\<lambda>res p. Some p) (\<lambda>paths delta. if delta < 0 then paths else []))
        (sample_item 0 None (Some ''#000000'')) (- 1) 2 False one_item_scene
   = (Some \<lparr>item_id = 2, geometry = CompoundPath [], strokeColor = None, strokeWidth = 1,
            fillColor = Some ''#000000'', data = empty_data\<rparr>,
      \<lparr>layer_children = [\<lparr>item_id = 2, geometry = CompoundPath [], strokeColor = None,
            strokeWidth = 1, fillColor = Some ''#000000'', data = empty_data\<rparr>],
       active_children = [], layer_is_active = True, next_id = 3\<rparr>)"
  by (simp add: offset_eval thin_eval)

lemma dilation_absent_dilation:
  "offsetPath (sample_env (\<lambda>res p. Some p) (\<lambda>paths delta. if delta < 0 then paths else []))
        \<lparr>item_id = 2, geometry = CompoundPath [], strokeColor = None, strokeWidth = 1,
            fillColor = Some ''#000000'', data = empty_data\<rparr> 1 2 False
      \<lparr>layer_children = [\<lparr>item_id = 2, geometry = CompoundPath [], strokeColor = None,
            strokeWidth = 1, fillColor = Some ''#000000'', data = empty_data\<rparr>],
       active_children = [], layer_is_active = True, next_id = 3\<rparr>
   = (None, \<lparr>layer_children = [], active_children = [], layer_is_active = True, next_id = 4\<rparr>)"
  by (simp add: offset_eval thin_eval)

text \<open>
  Two more runs of the round: a dilation that yields absence leaves the layer without
  child, and a shape that survives both offsets is the layer's one child afterwards.
\<close>

lemma thin_step_dilation_absent:
  "thin_step
      (sample_env (\<lambda>res p. Some p) (\<lambda>paths delta. if delta < 0 then paths else [])) 1 False
      (sample_item 0 None (Some ''#000000'')) one_item_scene
   = \<lparr>layer_children = [], active_children = [], layer_is_active = True, next_id = 4\<rparr>"
  by (simp add: thin_step_def dilation_absent_erosion dilation_absent_dilation add_child_def)

lemma survivor_erosion:
  "offsetPath (sample_env (\<lambda>res p. Some p) (\<lambda>paths delta. [[(0, 0)]]))
        (sample_item 0 None (Some ''#000000'')) (- 1) 2 False one_item_scene
   = (Some \<lparr>item_id = 2, geometry = CompoundPath [], strokeColor = None, strokeWidth = 1,
            fillColor = Some ''#000000'', data = empty_data\<rparr>,
      \<lparr>layer_children = [\<lparr>item_id = 2, geometry = CompoundPath [], strokeColor = None,
            strokeWidth = 1, fillColor = Some ''#000000'', data = empty_data\<rparr>],
       active_children = [], layer_is_active = True, next_id = 3\<rparr>)"
  by (simp add: offset_eval thin_eval)

lemma survivor_dilation:
  "offsetPath (sample_env (\<lambda>res p. Some p) (\<lambda>paths delta. [[(0, 0)]]))
        \<lparr>item_id = 2, geometry = CompoundPath [], strokeColor = None, strokeWidth = 1,
            fillColor = Some ''#000000'', data = empty_data\<rparr> 1 2 False
      \<lparr>layer_children = [\<lparr>item_id = 2, geometry = CompoundPath [], strokeColor = None,
            strokeWidth = 1, fillColor = Some ''#000000'', data = empty_data\<rparr>],
       active_children = [], layer_is_active = True, next_id = 3\<rparr>
   = (Some \<lparr>item_id = 4, geometry = CompoundPath [], strokeColor = None, strokeWidth = 1,
            fillColor = Some ''#000000'', data = empty_data\<rparr>,
      \<lparr>layer_children = [\<lparr>item_id = 4, geometry = CompoundPath [], strokeColor = None,
            strokeWidth = 1, fillColor = Some ''#000000'', data = empty_data\<rparr>],
       active_children = [], layer_is_active = True, next_id = 5\<rparr>)"
  by (simp add: offset_eval thin_eval)

lemma thin_step_survivor:
  "thin_step (sample_env (\<lambda>res p. Some p) (\<lambda>paths delta. [[(0, 0)]])) 1 False
      (sample_item 0 None (Some ''#000000'')) one_item_scene
   = \<lparr>layer_children = [\<lparr>item_id = 4, geometry = CompoundPath [], strokeColor = None,
            strokeWidth = 1, fillColor = Some ''#000000'', data = empty_data\<rparr>],
       active_children = [], layer_is_active = True, next_id = 5\<rparr>"
  by (simp add: thin_step_def survivor_erosion survivor_dilation add_child_def remove_item_def)


text \<open>
  Well-formedness is kept by every round, so the rounds of \<open>destroyThinFeatures\<close> on a
  well-formed scene all start from a well-formed scene.
\<close>

lemma next_id_remove: "next_id (remove_item i s) = next_id s"
  by (simp add: remove_item_def)

lemma next_id_insert: "next_id (insert_active it s) = next_id s"
  by (simp add: insert_active_def)

lemma offsetPath_ok:
  assumes ok: "scene_ok s" and idp: "item_id p < next_id s"
  shows "scene_ok (snd (offsetPath env p a res False s))
     \<and> next_id s \<le> next_id (snd (offsetPath env p a res False s))
     \<and> (\<forall>m. fst (offsetPath env p a res False s) = Some m
            \<longrightarrow> item_id m < next_id (snd (offsetPath env p a res False s)))"
proof (cases "flatten_paths env res (geometry p)")
  case None
  then show ?thesis
    using offsetPath_throw[OF ok None, of a False] ok idp by (simp add: scene_ok_next)
next
  case (Some paths)
  show ?thesis
  proof (cases "offset_string env paths a = []")
    case True
    then show ?thesis
      using offsetPath_eq[OF ok, of env p a res] Some ok
      by (simp add: scene_ok_next scene_ok_remove next_id_remove)
  next
    case False
    then show ?thesis
      using offsetPath_eq[OF ok, of env p a res] Some ok
      by (simp add: scene_ok_next scene_ok_remove scene_ok_insert next_id_remove
          next_id_insert inset_id)
  qed
qed

lemma add_child_ok:
  assumes "scene_ok s" and "\<forall>d. m = Some d \<longrightarrow> item_id d < next_id s"
  shows "scene_ok (add_child m s) \<and> next_id (add_child m s) = next_id s"
proof (cases m)
  case None
  then show ?thesis using assms by (simp add: add_child_def)
next
  case (Some d)
  with assms have "item_id d < next_id s" by simp
  then show ?thesis
    using assms(1) Some
    by (auto simp add: add_child_def remove_item_def scene_ok_def list_all_iff Let_def)
qed

lemma thin_step_ok:
  assumes ok: "scene_ok s" and idb: "item_id it < next_id s"
  shows "scene_ok (thin_step env amount clone it s) \<and> next_id s \<le> next_id (thin_step env amount clone it s)"
proof -
  define m where "m = (if clone then clone_item it s else (it, s))"
  have ok1: "scene_ok (snd m)" and id1: "item_id (fst m) < next_id (snd m)"
    using mask_ok[OF ok idb, of clone] by (simp_all add: m_def)
  have n1: "next_id s \<le> next_id (snd m)"
    by (simp add: m_def clone_item_def Let_def)
  define e where "e = offsetPath env (fst m) (- amount) 2 False (snd m)"
  from offsetPath_ok[OF ok1 id1, of env "- amount" 2]
  have ok2: "scene_ok (snd e)" and n2: "next_id (snd m) \<le> next_id (snd e)"
    and id2: "\<forall>x. fst e = Some x \<longrightarrow> item_id x < next_id (snd e)"
    by (simp_all add: e_def)
  have step: "thin_step env amount clone it s =
      (case fst e of None \<Rightarrow> snd e
       | Some x \<Rightarrow> add_child (fst (offsetPath env x amount 2 False (snd e)))
                     (snd (offsetPath env x amount 2 False (snd e))))"
    by (simp add: thin_step_def e_def m_def Let_def split_beta cong: option.case_cong)
  show ?thesis
  proof (cases "fst e")
    case None
    then show ?thesis using step ok2 n1 n2 by simp
  next
    case (Some x)
    with id2 have idx: "item_id x < next_id (snd e)" by simp
    define d where "d = offsetPath env x amount 2 False (snd e)"
    from offsetPath_ok[OF ok2 idx, of env amount 2]
    have ok3: "scene_ok (snd d)" and n3: "next_id (snd e) \<le> next_id (snd d)"
      and id3: "\<forall>y. fst d = Some y \<longrightarrow> item_id y < next_id (snd d)"
      by (simp_all add: d_def)
    from add_child_ok[OF ok3 id3]
    have "scene_ok (add_child (fst d) (snd d))"
      and "next_id (add_child (fst d) (snd d)) = next_id (snd d)" by simp_all
    then show ?thesis using step Some n1 n2 n3 by (simp add: d_def)
  qed
qed

lemma thin_rounds_ok:
  assumes "scene_ok s" and "\<forall>it \<in> set its. item_id it < next_id s"
  shows "scene_ok (fold (thin_step env amount clone) its s)"
  using assms
proof (induction its arbitrary: s)
  case Nil
  then show ?case by simp
next
  case (Cons it rest)
  from Cons.prems have idb: "item_id it < next_id s" by simp
  from thin_step_ok[OF Cons.prems(1) idb, of env amount clone]
  have ok': "scene_ok (thin_step env amount clone it s)"
    and n: "next_id s \<le> next_id (thin_step env amount clone it s)" by simp_all
  have "\<forall>x \<in> set rest. item_id x < next_id (thin_step env amount clone it s)"
    using Cons.prems(2) n by fastforce
  from Cons.IH[OF ok' this] show ?case by simp
qed

lemma destroyThinFeatures_ok:
  "scene_ok s \<Longrightarrow> scene_ok (destroyThinFeatures env amount clone s)"
  unfolding destroyThinFeatures_def
  by (rule thin_rounds_ok) (simp_all add: scene_ok_ids)


end
